(* ===== verification/Prelude.thy ===== *)
theory Prelude
  imports Main "HOL-Library.Word" "HOL-Library.Monad_Syntax" "HOL-Library.Multiset"
    "HOL-Library.List_Lexorder" "HOL-Library.Char_ord"
begin

text \<open>
  Shared vocabulary of the development: the machine integers of the source, the
  reading of a Go panic, the collections of facts the component proofs share, and
  the two list idioms the source uses everywhere: a stable sort with a \<open>less\<close>
  function (\<open>sort.SliceStable\<close>) and a loop that keeps the first element of every
  key it has not \<open>seen\<close>.
\<close>

unbundle bit_operations_syntax

section \<open>Types\<close>

type_synonym byte = "8 word"
type_synonym bytes = "byte list"
type_synonym u16 = "16 word"
type_synonym u32 = "32 word"
type_synonym u64 = "64 word"

text \<open>
  A Go function that may dereference a nil pointer returns \<open>'a panics\<close>: \<open>None\<close> is
  the run-time panic, \<open>Some\<close> the value it returns. A second result \<open>ok bool\<close> of the
  source is an inner \<open>option\<close>.
\<close>

type_synonym 'a panics = "'a option"

named_theorems nopanic \<open>an operation returns under the well-formedness of its input\<close>
named_theorems wf_intros \<open>well-formedness facts\<close>

lemma bind_neq_None [simp]:
  "(Option.bind m f \<noteq> None) \<longleftrightarrow> (\<exists>x. m = Some x \<and> f x \<noteq> None)"
  by (cases m) auto

lemma bind_eq_Some_conv' [simp]:
  "(Option.bind m f = Some y) \<longleftrightarrow> (\<exists>x. m = Some x \<and> f x = Some y)"
  by (cases m) auto

lemma unat_byte: "unat (b :: byte) < 256"
  using unsigned_less [of b] by simp

lemma unat_u16: "unat (w :: u16) < 65536"
  using unsigned_less [of w] by simp

text \<open>A loop body that may panic, over a list: the panic of any body is the loop's.\<close>

fun map_panics :: "('a \<Rightarrow> 'b panics) \<Rightarrow> 'a list \<Rightarrow> 'b list panics" where
  "map_panics f [] = Some []"
| "map_panics f (x # xs) = do { y \<leftarrow> f x; ys \<leftarrow> map_panics f xs; Some (y # ys) }"

lemma map_panics_total [nopanic]:
  "(\<And>x. x \<in> set xs \<Longrightarrow> f x \<noteq> None) \<Longrightarrow> map_panics f xs \<noteq> None"
  by (induction xs) (auto simp del: not_None_eq simp: option.case_eq_if)

lemma map_panics_map:
  "map_panics f xs = Some ys \<Longrightarrow> map f xs = map Some ys"
  by (induction xs arbitrary: ys) auto

lemma map_panics_iff: "map_panics f xs = Some ys \<longleftrightarrow> map f xs = map Some ys"
proof (induction xs arbitrary: ys)
  case (Cons x xs)
  then show ?case by (cases ys) auto
qed auto

text \<open>A permutation of the elements permutes the results.\<close>

lemma map_panics_mset:
  assumes "map_panics f xs = Some ys" and "mset xs' = mset xs"
  obtains ys' where "map_panics f xs' = Some ys'" and "mset ys' = mset ys"
proof -
  have ys: "map f xs = map Some ys" using assms(1) by (rule map_panics_map)
  have "\<exists>y. f x = Some y" if "x \<in> set xs'" for x
  proof -
    have "f x \<in> set (map f xs)" using that mset_eq_setD [OF assms(2)] by simp
    then show ?thesis unfolding ys by auto
  qed
  then have ys': "map f xs' = map Some (map (the \<circ> f) xs')" by fastforce
  have "mset (map (the \<circ> f) xs') = mset (map (the \<circ> f) xs)" using assms(2) by (metis mset_map)
  also have "map (the \<circ> f) xs = map the (map f xs)" by simp
  also have "\<dots> = ys" unfolding ys by (simp add: comp_def)
  finally show ?thesis using that ys' by (metis map_panics_iff)
qed

lemma map_panics_perm_None:
  assumes "mset xs' = mset xs" shows "map_panics f xs' = None \<longleftrightarrow> map_panics f xs = None"
  by (metis assms map_panics_mset option.exhaust option.distinct(1))

lemma mset_concat_cong:
  assumes "mset xss = mset yss" shows "mset (concat xss) = mset (concat yss)"
proof -
  have "mset (map mset xss) = mset (map mset yss)" using assms by (metis mset_map)
  then show ?thesis by (metis mset_concat sum_mset_sum_list)
qed

lemma map_panics_rel:
  assumes "map_panics f xs = Some ys" and "\<And>x y. x \<in> set xs \<Longrightarrow> f x = Some y \<Longrightarrow> g y = h x"
  shows "map g ys = map h xs"
  using assms by (induction xs arbitrary: ys) auto

lemma map_panics_length: "map_panics f xs = Some ys \<Longrightarrow> length ys = length xs"
  by (induction xs arbitrary: ys) auto

lemma map_panics_in:
  assumes "map_panics f xs = Some ys"
  shows "y \<in> set ys \<longleftrightarrow> (\<exists>x \<in> set xs. f x = Some y)"
  using assms by (induction xs arbitrary: ys) auto

lemma map_panics_obtain:
  assumes "map_panics f xs = Some ys" and "x \<in> set xs"
  obtains y where "f x = Some y" and "y \<in> set ys"
proof -
  have "f x \<in> set (map f xs)" using assms(2) by simp
  with map_panics_map [OF assms(1)] that show ?thesis by auto
qed

section \<open>Stable sorting with a less function\<close>

text \<open>
  \<open>sort.SliceStable(xs, less)\<close> and the loops of the source with the same effect: the
  result is sorted by \<open>lt\<close>, and elements neither of which is less than the other
  keep their order.
\<close>

fun insert_stable :: "('a \<Rightarrow> 'a \<Rightarrow> bool) \<Rightarrow> 'a \<Rightarrow> 'a list \<Rightarrow> 'a list" where
  "insert_stable lt x [] = [x]"
| "insert_stable lt x (y # ys) =
     (if lt y x then y # insert_stable lt x ys else x # y # ys)"

fun slice_stable :: "('a \<Rightarrow> 'a \<Rightarrow> bool) \<Rightarrow> 'a list \<Rightarrow> 'a list" where
  "slice_stable lt [] = []"
| "slice_stable lt (x # xs) = insert_stable lt x (slice_stable lt xs)"

lemma mset_insert_stable [simp]: "mset (insert_stable lt x xs) = add_mset x (mset xs)"
  by (induction xs) auto

lemma mset_slice_stable [simp]: "mset (slice_stable lt xs) = mset xs"
  by (induction xs) auto

lemma set_insert_stable [simp]: "set (insert_stable lt x xs) = insert x (set xs)"
  by (metis mset_insert_stable set_mset_add_mset_insert set_mset_mset)

lemma set_slice_stable [simp]: "set (slice_stable lt xs) = set xs"
  by (metis mset_slice_stable set_mset_mset)

lemma length_slice_stable [simp]: "length (slice_stable lt xs) = length xs"
  by (metis mset_slice_stable size_mset)

text \<open>
  What \<open>sort\<close> asks of a \<open>less\<close> function: a strict weak order. The clients below
  rely on nothing else about it.
\<close>

locale less_function =
  fixes lt :: "'a \<Rightarrow> 'a \<Rightarrow> bool"
  assumes less_asym: "lt x y \<Longrightarrow> \<not> lt y x"
    and less_negtrans: "lt x z \<Longrightarrow> lt x y \<or> lt y z"
begin

definition same :: "'a \<Rightarrow> 'a \<Rightarrow> bool" where
  "same x y \<longleftrightarrow> \<not> lt x y \<and> \<not> lt y x"

lemma less_irrefl: "\<not> lt x x"
  using less_asym by blast

lemma less_trans: "lt x y \<Longrightarrow> lt y z \<Longrightarrow> lt x z"
  using less_asym less_negtrans by blast

lemma nless_trans: "\<not> lt y x \<Longrightarrow> \<not> lt z y \<Longrightarrow> \<not> lt z x"
  using less_negtrans by blast

lemma insert_stable_sorted:
  "sorted_wrt (\<lambda>a b. \<not> lt b a) xs \<Longrightarrow> sorted_wrt (\<lambda>a b. \<not> lt b a) (insert_stable lt x xs)"
proof (induction xs)
  case Nil
  then show ?case by simp
next
  case (Cons y ys)
  show ?case
  proof (cases "lt y x")
    case True
    with Cons show ?thesis by (auto dest: less_asym)
  next
    case False
    with Cons.prems show ?thesis by (auto dest: nless_trans)
  qed
qed

lemma slice_stable_sorted: "sorted_wrt (\<lambda>a b. \<not> lt b a) (slice_stable lt xs)"
  by (induction xs) (auto intro: insert_stable_sorted)

lemma insert_stable_filter:
  "sorted_wrt (\<lambda>a b. \<not> lt b a) xs \<Longrightarrow>
   filter (same z) (insert_stable lt x xs) = filter (same z) (x # xs)"
proof (induction xs)
  case Nil
  then show ?case by simp
next
  case (Cons y ys)
  show ?case
  proof (cases "lt y x")
    case True
    then have "\<not> (same z x \<and> same z y)"
      unfolding same_def using less_negtrans by blast
    with True Cons show ?thesis by auto
  qed simp
qed

lemma slice_stable_filter: "filter (same z) (slice_stable lt xs) = filter (same z) xs"
  by (induction xs) (auto simp: insert_stable_filter slice_stable_sorted)

lemma sorted_unique:
  assumes "sorted_wrt (\<lambda>a b. \<not> lt b a) xs" and "sorted_wrt (\<lambda>a b. \<not> lt b a) ys"
    and "mset xs = mset ys"
    and "\<And>a b. a \<in> set xs \<Longrightarrow> b \<in> set xs \<Longrightarrow> same a b \<Longrightarrow> a = b"
  shows "xs = ys"
  using assms
proof (induction xs arbitrary: ys)
  case Nil
  then show ?case by simp
next
  case (Cons x xs)
  then obtain y ys' where ys: "ys = y # ys'"
    by (cases ys) auto
  have mem: "x \<in> set ys" "y \<in> set (x # xs)"
    using Cons.prems(3) ys by (metis list.set_intros(1) mset_eq_setD)+
  then have "\<not> lt x y" "\<not> lt y x"
    using Cons.prems(1,2) ys less_irrefl by auto
  then have "x = y"
    using Cons.prems(4) mem by (auto simp: same_def)
  moreover have "xs = ys'"
    using Cons.prems ys \<open>x = y\<close> by (intro Cons.IH) auto
  ultimately show ?case using ys by simp
qed

text \<open>
  The clients' fact: where no two different elements tie, the sorted list does not
  depend on the order the elements came in.
\<close>

lemma slice_stable_order_free:
  assumes "mset xs = mset ys"
    and "\<And>a b. a \<in> set xs \<Longrightarrow> b \<in> set xs \<Longrightarrow> same a b \<Longrightarrow> a = b"
  shows "slice_stable lt xs = slice_stable lt ys"
  using assms by (intro sorted_unique) (auto intro: slice_stable_sorted)

lemma slice_stable_id:
  "sorted_wrt (\<lambda>a b. \<not> lt b a) xs \<Longrightarrow> slice_stable lt xs = xs"
proof (induction xs)
  case (Cons x xs)
  then show ?case by (cases xs) auto
qed simp

end

text \<open>
  The usual way to obtain a \<open>less\<close> function is to compare a key of a linear order;
  its ties are exactly the elements of one key.
\<close>

locale key_less =
  fixes key :: "'a \<Rightarrow> 'k::linorder" and lt :: "'a \<Rightarrow> 'a \<Rightarrow> bool"
  assumes less_key: "lt x y \<longleftrightarrow> key x < key y"

sublocale key_less \<subseteq> less_function lt
  by unfold_locales (auto simp: less_key)

context key_less
begin

lemma same_key: "same x y \<longleftrightarrow> key x = key y"
  by (auto simp: same_def less_key)

lemma sorted_keys: "sorted (map key (slice_stable lt xs))"
proof -
  have "sorted_wrt (\<lambda>a b. key a \<le> key b) (slice_stable lt xs)"
    using slice_stable_sorted [of xs] by (simp add: less_key not_less)
  then show ?thesis by (simp add: sorted_wrt_map)
qed

lemma key_order_free:
  assumes "mset xs = mset ys" and "inj_on key (set xs)"
  shows "slice_stable lt xs = slice_stable lt ys"
  using assms by (intro slice_stable_order_free) (auto simp: same_key inj_on_def)

end

section \<open>Keeping the first element of every key\<close>

text \<open>
  The loop \<open>if seen[key(x)] { continue }; seen[key(x)] = true; out = append(out, x)\<close>,
  started from the keys already seen.
\<close>

fun first_by :: "('a \<Rightarrow> 'k) \<Rightarrow> 'k list \<Rightarrow> 'a list \<Rightarrow> 'a list" where
  "first_by key seen [] = []"
| "first_by key seen (x # xs) =
     (if key x \<in> set seen then first_by key seen xs
      else x # first_by key (key x # seen) xs)"

lemma first_by_subset: "set (first_by key seen xs) \<subseteq> set xs"
  by (induction xs arbitrary: seen) (simp_all, blast)

lemma first_by_keys: "key ` set (first_by key seen xs) = key ` set xs - set seen"
  by (induction xs arbitrary: seen) auto

lemma first_by_distinct: "distinct (map key (first_by key seen xs))"
proof (induction xs arbitrary: seen)
  case (Cons x xs)
  have "key x \<notin> key ` set (first_by key (key x # seen) xs)"
    by (simp add: first_by_keys)
  with Cons show ?case by simp
qed simp

lemma first_by_id_set: "set (first_by (\<lambda>x. x) seen xs) = set xs - set seen"
  using first_by_keys [of "\<lambda>x. x" seen xs] by simp

lemma first_by_id_distinct: "distinct (first_by (\<lambda>x. x) seen xs)"
  using first_by_distinct [of "\<lambda>x. x" seen xs] by simp

end
