(* ===== verification/Go_Lib.thy ===== *)
theory Go_Lib
  imports Prelude
begin

text \<open>
  The part of Go's standard library the source computes with: \<open>strings\<close>,
  \<open>strconv\<close>, \<open>encoding/hex\<close>, \<open>encoding/binary\<close> and \<open>bytes.Compare\<close>. A Go string
  is a list of bytes, here \<open>string\<close>. White space and quoting are those of ASCII text:
  a byte above 127 is an ordinary character. \<open>binary.NativeEndian\<close> is little-endian,
  as on the two architectures a release is built for (amd64 and arm64).
\<close>

section \<open>Decimal and quoted text\<close>

definition digit_char :: "nat \<Rightarrow> char" where
  "digit_char d = char_of (48 + d)"

fun itoa :: "nat \<Rightarrow> string" where
  "itoa n = (if n < 10 then [digit_char n] else itoa (n div 10) @ [digit_char (n mod 10)])"

declare itoa.simps [simp del]

definition itoa_int :: "int \<Rightarrow> string" where
  "itoa_int i = (if i < 0 then ''-'' @ itoa (nat (- i)) else itoa (nat i))"

definition hex_char :: "nat \<Rightarrow> char" where
  "hex_char d = (if d < 10 then char_of (48 + d) else char_of (87 + d))"

definition quote_char :: "char \<Rightarrow> string" where
  "quote_char c =
     (let n = of_char c :: nat in
      if n = 34 then [char_of (92::nat), c]
      else if n = 92 then [char_of (92::nat), c]
      else if n = 7 then [char_of (92::nat), CHR ''a'']
      else if n = 8 then [char_of (92::nat), CHR ''b'']
      else if n = 12 then [char_of (92::nat), CHR ''f'']
      else if n = 10 then [char_of (92::nat), CHR ''n'']
      else if n = 13 then [char_of (92::nat), CHR ''r'']
      else if n = 9 then [char_of (92::nat), CHR ''t'']
      else if n = 11 then [char_of (92::nat), CHR ''v'']
      else if n < 32 \<or> n = 127 then
        [char_of (92::nat), CHR ''x'', hex_char (n div 16), hex_char (n mod 16)]
      else [c])"

text \<open>\<open>strconv.Quote\<close> and the verb \<open>%q\<close>.\<close>

definition quote :: "string \<Rightarrow> string" where
  "quote s = [char_of (34::nat)] @ concat (map quote_char s) @ [char_of (34::nat)]"

section \<open>Reading numbers\<close>

definition digit_value :: "char \<Rightarrow> nat option" where
  "digit_value c =
     (let n = of_char c :: nat in
      if 48 \<le> n \<and> n \<le> 57 then Some (n - 48)
      else if 97 \<le> n \<and> n \<le> 102 then Some (n - 87)
      else if 65 \<le> n \<and> n \<le> 70 then Some (n - 55)
      else None)"

fun digits_value :: "nat \<Rightarrow> nat \<Rightarrow> string \<Rightarrow> nat option" where
  "digits_value base acc [] = Some acc"
| "digits_value base acc (c # cs) =
     (case digit_value c of
        None \<Rightarrow> None
      | Some d \<Rightarrow> if d < base then digits_value base (acc * base + d) cs else None)"

text \<open>
  \<open>strconv.ParseUint(s, base, bits)\<close> for base 10 or 16: no sign, no prefix, no
  underscore, at least one digit, and a value that fits.
\<close>

definition parse_uint :: "nat \<Rightarrow> nat \<Rightarrow> string \<Rightarrow> nat option" where
  "parse_uint base bits s =
     (if s = [] then None
      else case digits_value base 0 s of
             None \<Rightarrow> None
           | Some n \<Rightarrow> if n < 2 ^ bits then Some n else None)"

section \<open>Hexadecimal text and byte order\<close>

fun hex_decode :: "string \<Rightarrow> bytes option" where
  "hex_decode [] = Some []"
| "hex_decode [c] = None"
| "hex_decode (c # d # cs) =
     (case (digit_value c, digit_value d) of
        (Some h, Some l) \<Rightarrow> map_option (\<lambda>bs. of_nat (h * 16 + l) # bs) (hex_decode cs)
      | _ \<Rightarrow> None)"

definition hex_encode :: "bytes \<Rightarrow> string" where
  "hex_encode bs = concat (map (\<lambda>b. [hex_char (unat b div 16), hex_char (unat b mod 16)]) bs)"

definition be_nat :: "bytes \<Rightarrow> nat" where
  "be_nat bs = foldl (\<lambda>n b. n * 256 + unat b) 0 bs"

definition be_put16 :: "u16 \<Rightarrow> bytes" where
  "be_put16 w = [ucast (drop_bit 8 w), ucast w]"

definition be_uint16 :: "bytes \<Rightarrow> u16" where
  "be_uint16 bs = of_nat (be_nat (take 2 bs))"

definition le_put32 :: "u32 \<Rightarrow> bytes" where
  "le_put32 w = [ucast w, ucast (drop_bit 8 w), ucast (drop_bit 16 w), ucast (drop_bit 24 w)]"

definition le_uint32 :: "bytes \<Rightarrow> u32" where
  "le_uint32 bs = of_nat (be_nat (rev (take 4 bs)))"

text \<open>\<open>bytes.Compare\<close>: -1, 0 or 1.\<close>

fun bytes_compare :: "bytes \<Rightarrow> bytes \<Rightarrow> int" where
  "bytes_compare [] [] = 0"
| "bytes_compare [] (b # bs) = -1"
| "bytes_compare (a # as) [] = 1"
| "bytes_compare (a # as) (b # bs) =
     (if a < b then -1 else if b < a then 1 else bytes_compare as bs)"

section \<open>strings\<close>

definition has_prefix :: "string \<Rightarrow> string \<Rightarrow> bool" where
  "has_prefix s p \<longleftrightarrow> take (length p) s = p"

definition has_suffix :: "string \<Rightarrow> string \<Rightarrow> bool" where
  "has_suffix s p \<longleftrightarrow> length p \<le> length s \<and> drop (length s - length p) s = p"

definition trim_prefix :: "string \<Rightarrow> string \<Rightarrow> string" where
  "trim_prefix s p = (if has_prefix s p then drop (length p) s else s)"

definition trim_suffix :: "string \<Rightarrow> string \<Rightarrow> string" where
  "trim_suffix s p = (if has_suffix s p then take (length s - length p) s else s)"

fun join :: "string \<Rightarrow> string list \<Rightarrow> string" where
  "join sep [] = []"
| "join sep [x] = x"
| "join sep (x # y # xs) = x @ sep @ join sep (y # xs)"

text \<open>\<open>strings.Cut\<close> on a one-byte separator.\<close>

fun cut :: "char \<Rightarrow> string \<Rightarrow> (string \<times> string) option" where
  "cut sep [] = None"
| "cut sep (c # cs) =
     (if c = sep then Some ([], cs)
      else map_option (\<lambda>(a, b). (c # a, b)) (cut sep cs))"

text \<open>\<open>strings.Split\<close> on a one-byte separator: never empty.\<close>

fun split :: "char \<Rightarrow> string \<Rightarrow> string list" where
  "split sep [] = [[]]"
| "split sep (c # cs) =
     (case split sep cs of
        [] \<Rightarrow> [[c]]
      | w # ws \<Rightarrow> if c = sep then [] # w # ws else (c # w) # ws)"

definition is_space :: "char \<Rightarrow> bool" where
  "is_space c \<longleftrightarrow> (let n = of_char c :: nat in n = 32 \<or> (9 \<le> n \<and> n \<le> 13))"

definition trim_space :: "string \<Rightarrow> string" where
  "trim_space s = rev (dropWhile is_space (rev (dropWhile is_space s)))"

text \<open>\<open>strings.Fields\<close>: the maximal runs of characters that are not white space.\<close>

function fields :: "string \<Rightarrow> string list" where
  "fields s =
     (let t = dropWhile is_space s in
      if t = [] then []
      else takeWhile (\<lambda>c. \<not> is_space c) t # fields (dropWhile (\<lambda>c. \<not> is_space c) t))"
  by pat_completeness auto
termination
proof (relation "measure length", simp)
  fix s t :: string
  assume t: "t = dropWhile is_space s" and "t \<noteq> []"
  then obtain c cs where cs: "t = c # cs" and "\<not> is_space c"
    by (metis hd_dropWhile list.collapse)
  have "length (dropWhile (\<lambda>c. \<not> is_space c) t) \<le> length cs"
    using \<open>\<not> is_space c\<close> cs by (simp add: length_dropWhile_le)
  moreover have "length t \<le> length s"
    by (simp add: t length_dropWhile_le)
  ultimately show "(dropWhile (\<lambda>c. \<not> is_space c) t, s) \<in> measure length"
    using cs by simp
qed

declare fields.simps [simp del]

section \<open>Lemmas\<close>

lemma itoa_nonempty: "itoa n \<noteq> []"
  by (subst itoa.simps) simp

lemma digit_value_digit_char: "d < 10 \<Longrightarrow> digit_value (digit_char d) = Some d"
  by (simp add: digit_value_def digit_char_def Let_def)

lemma digits_value_append:
  "digits_value base acc (xs @ ys) =
     Option.bind (digits_value base acc xs) (\<lambda>n. digits_value base n ys)"
  by (induction xs arbitrary: acc) (auto split: option.split)

lemma digits_value_itoa: "digits_value 10 0 (itoa n) = Some n"
proof (induction n rule: itoa.induct)
  case (1 n)
  show ?case
  proof (cases "n < 10")
    case True
    then show ?thesis by (subst itoa.simps) (simp add: digit_value_digit_char)
  next
    case False
    with "1.IH" have "digits_value 10 0 (itoa (n div 10)) = Some (n div 10)" by simp
    with False show ?thesis
      by (subst itoa.simps) (simp add: digits_value_append digit_value_digit_char)
  qed
qed

lemma parse_uint_itoa: "n < 2 ^ bits \<Longrightarrow> parse_uint 10 bits (itoa n) = Some n"
  by (simp add: parse_uint_def itoa_nonempty digits_value_itoa)

lemma itoa_digits: "c \<in> set (itoa n) \<Longrightarrow> \<exists>d < 10. c = digit_char d"
proof (induction n rule: itoa.induct)
  case (1 n)
  show ?case
  proof (cases "n < 10")
    case True
    with "1.prems" show ?thesis by (subst (asm) itoa.simps) auto
  next
    case False
    with "1.prems" have "c \<in> set (itoa (n div 10)) \<or> c = digit_char (n mod 10)"
      by (subst (asm) itoa.simps) auto
    with False "1.IH" show ?thesis
      by (metis mod_less_divisor zero_less_numeral)
  qed
qed

lemma parse_uint_bound: "parse_uint base bits s = Some n \<Longrightarrow> n < 2 ^ bits"
  by (auto simp: parse_uint_def split: if_splits option.splits)

lemma itoa_inj: "itoa m = itoa n \<longleftrightarrow> m = n"
  by (metis digits_value_itoa option.inject)

lemma digit_value_hex_char: "d < 16 \<Longrightarrow> digit_value (hex_char d) = Some d"
  by (auto simp: digit_value_def hex_char_def Let_def)

lemma hex_decode_encode: "hex_decode (hex_encode bs) = Some bs"
proof (induction bs)
  case Nil
  then show ?case by (simp add: hex_encode_def)
next
  case (Cons b bs)
  have "unat b < 256"
    by (rule unat_byte)
  then have "unat b div 16 < 16" by simp
  moreover have "of_nat (unat b div 16 * 16 + unat b mod 16) = b"
    by (simp add: div_mult_mod_eq)
  ultimately show ?case
    using Cons by (simp add: hex_encode_def digit_value_hex_char)
qed

lemma be_nat_Nil [simp]: "be_nat [] = 0"
  by (simp add: be_nat_def)

lemma be_nat_acc: "foldl (\<lambda>n b. n * 256 + unat b) n bs = n * 256 ^ length bs + be_nat (bs :: bytes)"
proof (induction bs arbitrary: n)
  case (Cons b bs)
  have "be_nat (b # bs) = unat b * 256 ^ length bs + be_nat bs"
    using Cons [of "unat b"] by (simp add: be_nat_def)
  then show ?case using Cons [of "n * 256 + unat b"] by (simp add: algebra_simps)
qed simp

lemma be_nat_Cons: "be_nat (b # bs) = unat b * 256 ^ length bs + be_nat bs"
  using be_nat_acc [of "unat b" bs] by (simp add: be_nat_def)

lemma be_nat_bound: "be_nat bs < 256 ^ length bs"
proof (induction bs)
  case (Cons b bs)
  have "Suc (unat b) * 256 ^ length bs \<le> 256 * 256 ^ length bs"
    by (rule mult_right_mono) (use unat_byte [of b] in simp_all)
  with Cons have "unat b * 256 ^ length bs + be_nat bs < 256 * 256 ^ length bs"
    by (simp only: mult_Suc)
  then show ?case by (simp add: be_nat_Cons)
qed simp

text \<open>
  Byte by byte comparison of two big-endian values of one width is the comparison of
  the numbers.
\<close>

lemma bytes_compare_be_nat:
  "length as = length bs \<Longrightarrow>
   bytes_compare as bs = (if be_nat as < be_nat bs then -1 else if be_nat bs < be_nat as then 1 else 0)"
proof (induction as bs rule: bytes_compare.induct)
  case (4 a as b bs)
  let ?k = "256 ^ length bs"
  have len: "length as = length bs" using 4 by simp
  have bound: "be_nat as < ?k" "be_nat bs < ?k"
    using be_nat_bound [of as] be_nat_bound [of bs] len by simp_all
  have step: "unat x * ?k + p < unat y * ?k + q"
    if "x < y" and "p < ?k" for x y :: byte and p q
  proof -
    have "Suc (unat x) * ?k \<le> unat y * ?k"
      using that(1) by (intro mult_right_mono) (simp_all add: word_less_nat_alt)
    then show ?thesis using that(2) by simp
  qed
  consider "a < b" | "b < a" | "a = b" by fastforce
  then show ?case
  proof cases
    case 1
    then show ?thesis using step [OF 1 bound(1), of "be_nat bs"] len by (simp add: be_nat_Cons)
  next
    case 2
    then show ?thesis using step [OF 2 bound(2), of "be_nat as"] len by (simp add: be_nat_Cons)
  next
    case 3
    then show ?thesis using 4 len by (simp add: be_nat_Cons)
  qed
qed simp_all

lemma bytes_compare_eq_0: "bytes_compare as bs = 0 \<longleftrightarrow> as = bs"
  by (induction as bs rule: bytes_compare.induct) auto

lemma be_nat_put16 [simp]: "be_nat (be_put16 w) = unat w"
proof -
  have "unat (ucast (drop_bit 8 w) :: byte) = unat w div 256"
    using unat_u16 [of w]
    by (simp add: unsigned_ucast_eq take_bit_eq_mod drop_bit_eq_div unat_div_distrib)
  moreover have "unat (ucast w :: byte) = unat w mod 256"
    by (simp add: unsigned_ucast_eq take_bit_eq_mod)
  ultimately show ?thesis by (simp add: be_put16_def be_nat_Cons)
qed

lemma length_be_put16 [simp]: "length (be_put16 w) = 2"
  by (simp add: be_put16_def)

lemma length_le_put32 [simp]: "length (le_put32 w) = 4"
  by (simp add: le_put32_def)

lemma be_uint16_put16 [simp]: "be_uint16 (be_put16 w) = w"
  by (simp add: be_uint16_def)

lemma join_split: "join [sep] (split sep s) = s"
proof (induction s)
  case (Cons c cs)
  then show ?case
    by (cases "split sep cs" rule: list.exhaust; cases "tl (split sep cs)") auto
qed simp

lemma split_nonempty: "split sep s \<noteq> []"
  by (induction s) (auto split: list.split)

lemma cut_append: "sep \<notin> set a \<Longrightarrow> cut sep (a @ sep # b) = Some (a, b)"
  by (induction a) auto

lemma cut_Some: "cut sep s = Some (a, b) \<Longrightarrow> s = a @ sep # b \<and> sep \<notin> set a"
  by (induction s arbitrary: a) (auto split: if_splits)

lemma itoa_no_slash: "CHR ''/'' \<notin> set (itoa n)"
proof
  assume "CHR ''/'' \<in> set (itoa n)"
  then obtain d where d: "d < 10" "CHR ''/'' = digit_char d" using itoa_digits by blast
  then have "of_char (CHR ''/'') = (48 + d :: nat)"
    by (simp add: digit_char_def)
  then show False by simp
qed

text \<open>A key of four parts determines them when three of its parts hold no separator.\<close>

lemma key_parts:
  fixes sep :: char
  assumes eq: "a @ sep # b @ sep # c @ sep # n = a' @ sep # b' @ sep # c' @ sep # n'"
    and "sep \<notin> set n" and "sep \<notin> set n'" and no: "sep \<notin> set a'" "sep \<notin> set b'" "sep \<notin> set c'"
  shows "a = a' \<and> b = b' \<and> c = c' \<and> n = n'"
proof -
  have count: "count_list (a @ sep # b @ sep # c @ sep # n) sep = count_list a sep + count_list b sep + count_list c sep + 3"
    if "sep \<notin> set n" for a b c n :: "char list"
    using that by (simp add: count_notin)
  have "count_list a sep + count_list b sep + count_list c sep = 0"
    using count [OF assms(2), of a b c] count [OF assms(3), of a' b' c'] no
    unfolding eq by (simp add: count_notin)
  then have none: "sep \<notin> set a" "sep \<notin> set b" "sep \<notin> set c"
    by (simp_all add: count_list_0_iff)
  have 1: "a = a'" "b @ sep # c @ sep # n = b' @ sep # c' @ sep # n'"
    using cut_append [OF none(1)] cut_append [OF no(1)] eq by (metis option.inject prod.inject)+
  have 2: "b = b'" "c @ sep # n = c' @ sep # n'"
    using cut_append [OF none(2)] cut_append [OF no(2)] 1(2) by (metis option.inject prod.inject)+
  have 3: "c = c'" "n = n'"
    using cut_append [OF none(3)] cut_append [OF no(3)] 2(2) by (metis option.inject prod.inject)+
  show ?thesis using 1(1) 2(1) 3 by simp
qed

lemma hex_encode_Nil [simp]: "hex_encode bs = [] \<longleftrightarrow> bs = []"
  by (cases bs) (simp_all add: hex_encode_def)

end
