(* ===== verification/Netip.thy ===== *)
theory Netip
  imports Go_Lib
begin

text \<open>
  The part of Go's \<open>net/netip\<close> the source computes with. An \<open>Addr\<close> is the zero value,
  an IPv4 address, or an IPv6 address with a zone; equality of addresses (\<open>==\<close>) is
  equality of these values, zone included. A \<open>Prefix\<close> carries its number of bits as
  \<open>None\<close> when \<open>PrefixFrom\<close> was given one that does not fit the address.
\<close>

datatype addr = AddrZero | Addr4 "32 word" | Addr6 "128 word" string

section \<open>Predicates and conversions\<close>

fun addr_IsValid :: "addr \<Rightarrow> bool" where
  "addr_IsValid AddrZero = False"
| "addr_IsValid _ = True"

fun addr_Is4 :: "addr \<Rightarrow> bool" where
  "addr_Is4 (Addr4 _) = True"
| "addr_Is4 _ = False"

fun addr_Is6 :: "addr \<Rightarrow> bool" where
  "addr_Is6 (Addr6 _ _) = True"
| "addr_Is6 _ = False"

definition v4_mapped :: "128 word \<Rightarrow> bool" where
  "v4_mapped w \<longleftrightarrow> drop_bit 32 w = 0xffff"

fun addr_Is4In6 :: "addr \<Rightarrow> bool" where
  "addr_Is4In6 (Addr6 w _) = v4_mapped w"
| "addr_Is4In6 _ = False"

fun addr_Unmap :: "addr \<Rightarrow> addr" where
  "addr_Unmap (Addr6 w z) = (if v4_mapped w then Addr4 (ucast w) else Addr6 w z)"
| "addr_Unmap a = a"

text \<open>The bytes of an address, most significant first.\<close>

definition word_bytes :: "nat \<Rightarrow> 'a::len word \<Rightarrow> bytes" where
  "word_bytes n w = map (\<lambda>i. ucast (drop_bit (8 * (n - Suc i)) w)) [0..<n]"

definition bytes_word :: "bytes \<Rightarrow> 'a::len word" where
  "bytes_word bs = of_nat (be_nat bs)"

fun addr_AsSlice :: "addr \<Rightarrow> bytes" where
  "addr_AsSlice AddrZero = []"
| "addr_AsSlice (Addr4 w) = word_bytes 4 w"
| "addr_AsSlice (Addr6 w _) = word_bytes 16 w"

definition AddrFromSlice :: "bytes \<Rightarrow> addr option" where
  "AddrFromSlice bs =
     (if length bs = 4 then Some (Addr4 (bytes_word bs))
      else if length bs = 16 then Some (Addr6 (bytes_word bs) [])
      else None)"

section \<open>Prefixes\<close>

record prefix =
  px_Addr :: addr
  px_Bits :: "nat option"

fun bit_len :: "addr \<Rightarrow> nat" where
  "bit_len AddrZero = 0"
| "bit_len (Addr4 _) = 32"
| "bit_len (Addr6 _ _) = 128"

fun without_zone :: "addr \<Rightarrow> addr" where
  "without_zone (Addr6 w _) = Addr6 w []"
| "without_zone a = a"

definition PrefixFrom :: "addr \<Rightarrow> int \<Rightarrow> prefix" where
  "PrefixFrom a bits =
     \<lparr>px_Addr = without_zone a,
      px_Bits = (if a \<noteq> AddrZero \<and> 0 \<le> bits \<and> bits \<le> int (bit_len a)
                 then Some (nat bits) else None)\<rparr>"

definition prefix_IsValid :: "prefix \<Rightarrow> bool" where
  "prefix_IsValid p \<longleftrightarrow> px_Bits p \<noteq> None"

definition prefix_Contains :: "prefix \<Rightarrow> addr \<Rightarrow> bool" where
  "prefix_Contains p ip =
     (case (px_Bits p, px_Addr p, ip) of
        (Some n, Addr4 w, Addr4 v) \<Rightarrow> drop_bit (32 - n) (w XOR v) = 0
      | (Some n, Addr6 w _, Addr6 v z) \<Rightarrow> z = [] \<and> drop_bit (128 - n) (w XOR v) = 0
      | _ \<Rightarrow> False)"

section \<open>Parsing\<close>

text \<open>One field of a dotted quad: digits only, no leading zero, at most 255.\<close>

definition parse_octet :: "string \<Rightarrow> nat option" where
  "parse_octet s =
     (if length s > 1 \<and> hd s = CHR ''0'' then None
      else case parse_uint 10 8 s of None \<Rightarrow> None | Some n \<Rightarrow> Some n)"

definition parse_v4_fields :: "string \<Rightarrow> bytes option" where
  "parse_v4_fields s =
     (case map parse_octet (split (CHR ''.'') s) of
        [Some a, Some b, Some c, Some d] \<Rightarrow> Some [of_nat a, of_nat b, of_nat c, of_nat d]
      | _ \<Rightarrow> None)"

definition parse_v4 :: "string \<Rightarrow> addr option" where
  "parse_v4 s = map_option (\<lambda>bs. Addr4 (bytes_word bs)) (parse_v4_fields s)"

text \<open>
  The loop of \<open>parseIPv6\<close>: \<open>n\<close> 16-bit groups may still follow the bytes \<open>ip\<close> read
  so far, and \<open>ell\<close> is the index of the ellipsis, if one was seen. The result is the
  bytes, the ellipsis and what is left of the text.
\<close>

definition is_hex :: "char \<Rightarrow> bool" where
  "is_hex c \<longleftrightarrow> digit_value c \<noteq> None"

fun v6_groups :: "nat \<Rightarrow> bytes \<Rightarrow> nat option \<Rightarrow> string \<Rightarrow> (bytes \<times> nat option \<times> string) option" where
  "v6_groups 0 ip ell s = Some (ip, ell, s)"
| "v6_groups (Suc n) ip ell s =
     (let h = takeWhile is_hex s; r = dropWhile is_hex s in
      if h = [] \<or> length h > 4 then None
      else if r \<noteq> [] \<and> hd r = CHR ''.'' then
        (if (ell = None \<and> length ip \<noteq> 12) \<or> length ip + 4 > 16 then None
         else map_option (\<lambda>bs. (ip @ bs, ell, [])) (parse_v4_fields s))
      else
        case digits_value 16 0 h of
          None \<Rightarrow> None
        | Some v \<Rightarrow>
            (let ip' = ip @ be_put16 (of_nat v) in
             case r of
               [] \<Rightarrow> Some (ip', ell, [])
             | [c] \<Rightarrow> None
             | c # d # cs \<Rightarrow>
                 if c \<noteq> CHR '':'' then None
                 else if d = CHR '':'' then
                   (if ell \<noteq> None then None
                    else if cs = [] then Some (ip', Some (length ip'), [])
                    else v6_groups n ip' (Some (length ip')) cs)
                 else v6_groups n ip' ell (d # cs)))"

definition v6_finish :: "bytes \<Rightarrow> nat option \<Rightarrow> string \<Rightarrow> string \<Rightarrow> addr option" where
  "v6_finish ip ell rest zone =
     (if rest \<noteq> [] then None
      else if length ip < 16 then
        (case ell of
           None \<Rightarrow> None
         | Some k \<Rightarrow> Some (Addr6 (bytes_word
             (take k ip @ replicate (16 - length ip) 0 @ drop k ip)) zone))
      else if ell \<noteq> None then None
      else Some (Addr6 (bytes_word ip) zone))"

definition parse_v6 :: "string \<Rightarrow> addr option" where
  "parse_v6 txt =
     (let (s, z) = (case cut (CHR ''%'') txt of None \<Rightarrow> (txt, None) | Some (a, b) \<Rightarrow> (a, Some b));
          zone = (case z of None \<Rightarrow> [] | Some b \<Rightarrow> b) in
      if z = Some [] then None
      else if has_prefix s ''::'' then
        (if drop 2 s = [] then Some (Addr6 0 zone)
         else case v6_groups 8 [] (Some 0) (drop 2 s) of
                None \<Rightarrow> None
              | Some (ip, ell, rest) \<Rightarrow> v6_finish ip ell rest zone)
      else case v6_groups 8 [] None s of
             None \<Rightarrow> None
           | Some (ip, ell, rest) \<Rightarrow> v6_finish ip ell rest zone)"

definition ParseAddr :: "string \<Rightarrow> addr option" where
  "ParseAddr s =
     (case filter (\<lambda>c. c = CHR ''.'' \<or> c = CHR '':'' \<or> c = CHR ''%'') s of
        [] \<Rightarrow> None
      | c # _ \<Rightarrow>
          if c = CHR ''.'' then parse_v4 s
          else if c = CHR '':'' then parse_v6 s
          else None)"

section \<open>Printing\<close>

definition v4_text :: "bytes \<Rightarrow> string" where
  "v4_text bs = join ''.'' (map (\<lambda>b. itoa (unat b)) bs)"

text \<open>A 16-bit group in lower-case hexadecimal, without leading zeros.\<close>

fun hex_nat :: "nat \<Rightarrow> string" where
  "hex_nat n = (if n < 16 then [hex_char n] else hex_nat (n div 16) @ [hex_char (n mod 16)])"

declare hex_nat.simps [simp del]

definition v6_words :: "128 word \<Rightarrow> nat list" where
  "v6_words w = map (\<lambda>i. unat (take_bit 16 (drop_bit (16 * (7 - i)) w))) [0..<8]"

text \<open>The first longest run of at least two zero groups, as start and end.\<close>

definition zero_run :: "nat list \<Rightarrow> nat \<times> nat" where
  "zero_run ws =
     foldl (\<lambda>(s, e) i. let l = length (takeWhile (\<lambda>v. v = 0) (drop i ws)) in
              if 2 \<le> l \<and> e - s < l then (i, i + l) else (s, e))
       (255, 255) [0..<length ws]"

definition v6_text :: "128 word \<Rightarrow> string" where
  "v6_text w =
     (let ws = v6_words w; (s, e) = zero_run ws in
      if s = 255 then join '':'' (map hex_nat ws)
      else join '':'' (map hex_nat (take s ws)) @ ''::'' @ join '':'' (map hex_nat (drop e ws)))"

definition zone_text :: "string \<Rightarrow> string" where
  "zone_text z = (if z = [] then [] else ''%'' @ z)"

fun addr_String :: "addr \<Rightarrow> string" where
  "addr_String AddrZero = ''invalid IP''"
| "addr_String (Addr4 w) = v4_text (word_bytes 4 w)"
| "addr_String (Addr6 w z) =
     (if v4_mapped w then ''::ffff:'' @ v4_text (word_bytes 4 (ucast w :: 32 word)) @ zone_text z
      else v6_text w @ zone_text z)"

section \<open>Lemmas\<close>

lemma length_word_bytes [simp]: "length (word_bytes n w) = n"
  by (simp add: word_bytes_def)

lemma length_addr_AsSlice: "length (addr_AsSlice a) = bit_len a div 8"
  by (cases a) simp_all

lemma prefix_Contains_family:
  "prefix_Contains p ip \<Longrightarrow> bit_len (px_Addr p) = bit_len ip \<and> addr_IsValid ip"
  by (cases "px_Addr p"; cases ip) (auto simp: prefix_Contains_def split: option.splits)

lemma prefix_Contains_zero:
  "bit_len a = bit_len ip \<Longrightarrow> addr_IsValid ip \<Longrightarrow> without_zone ip = ip \<Longrightarrow> without_zone a = a \<Longrightarrow>
   prefix_Contains (PrefixFrom a 0) ip"
  by (cases a; cases ip) (auto simp: prefix_Contains_def PrefixFrom_def)

end
