(* ===== verification/Facts.thy ===== *)
theory Facts
  imports Netip
begin

text \<open>
  The facts document (\<open>internal/facts/facts.go\<close>), field by field: one record per Go
  struct, its fields prefixed with a tag of the struct because record fields share one
  name space. A pointer field is an \<open>option\<close>, \<open>None\<close> being nil. \<open>Expr.Kind\<close> is a
  string in Go; its constants are the constructors of \<open>expr_kind\<close> and any other string
  is \<open>ExprFuture\<close>. With it, the two functions that decide whether a document may be
  evaluated at all: \<open>SupportedSchema\<close> and \<open>Validate\<close> (\<open>internal/facts/validate.go\<close>).
  The JSON encoding itself is outside the model.
\<close>

section \<open>The host\<close>

record warning =
  w_Source :: string
  w_Message :: string

record route =
  rt_Dest :: string
  rt_PrefixLen :: int
  rt_Family :: string
  rt_Device :: string

record iface_addr =
  ad_IP :: string
  ad_Prefix :: int
  ad_Family :: string
  ad_Scope :: string

record iface =
  if_Name :: string
  if_Index :: int
  if_Up :: bool
  if_Addresses :: "iface_addr list"
  if_IPv4Forwarding :: bool
  if_IPv6Forwarding :: bool

record sysctls =
  sc_IPv4Forward :: bool
  sc_IPv6Forward :: bool
  sc_BindV6Only :: bool

record host =
  h_Hostname :: string
  h_Interfaces :: "iface list"
  h_Sysctls :: sysctls
  h_Routes :: "route list"

record socket =
  so_Family :: string
  so_Proto :: string
  so_BindIP :: string
  so_Port :: u16
  so_Inode :: u32
  so_UID :: u32
  so_PID :: int
  so_Process :: string
  so_Unit :: string
  so_Container :: string

record publish =
  pb_HostIP :: string
  pb_HostPort :: u16
  pb_ContainerIP :: string
  pb_ContainerPort :: u16
  pb_Proto :: string

record container =
  ct_ID :: string
  ct_Name :: string
  ct_Publishes :: "publish list"

record docker =
  dk_Available :: bool
  dk_Containers :: "container list"

section \<open>Expressions\<close>

datatype expr_kind =
    ExprPayload | ExprCmp | ExprMeta | ExprBitwise | ExprCt | ExprLookup | ExprRange
  | ExprFib | ExprImmediate | ExprNAT | ExprVerdict | ExprXt | ExprOther | ExprUnknown
  | ExprFuture string

fun kind_text :: "expr_kind \<Rightarrow> string" where
  "kind_text ExprPayload = ''payload''"
| "kind_text ExprCmp = ''cmp''"
| "kind_text ExprMeta = ''meta''"
| "kind_text ExprBitwise = ''bitwise''"
| "kind_text ExprCt = ''ct''"
| "kind_text ExprLookup = ''lookup''"
| "kind_text ExprRange = ''range''"
| "kind_text ExprFib = ''fib''"
| "kind_text ExprImmediate = ''immediate''"
| "kind_text ExprNAT = ''nat''"
| "kind_text ExprVerdict = ''verdict''"
| "kind_text ExprXt = ''xt''"
| "kind_text ExprOther = ''other''"
| "kind_text ExprUnknown = ''unknown''"
| "kind_text (ExprFuture s) = s"

record immediate_expr =
  im_Register :: u32
  im_Data :: string

record nat_expr =
  nt_Type :: string
  nt_Family :: string
  nt_AddrRegister :: u32
  nt_ProtoRegister :: u32

record fib_expr =
  fb_Query :: string
  fb_Register :: u32
  fb_Source :: string
  fb_MatchesIface :: bool

record range_expr =
  rg_Op :: string
  rg_Register :: u32
  rg_From :: string
  rg_To :: string

record payload_expr =
  pl_DestRegister :: u32
  pl_Base :: string
  pl_Offset :: u32
  pl_Len :: u32

record cmp_expr =
  cm_Op :: string
  cm_Register :: u32
  cm_Data :: string

record meta_expr =
  mt_Key :: string
  mt_Register :: u32

record bitwise_expr =
  bw_SourceRegister :: u32
  bw_DestRegister :: u32
  bw_Len :: u32
  bw_Mask :: string
  bw_Xor :: string

record ct_expr =
  ce_Key :: string
  ce_Register :: u32

record lookup_expr =
  lk_SourceRegister :: u32
  lk_Set :: string
  lk_SetID :: u32
  lk_Invert :: bool
  lk_IsDestRegSet :: bool

record verdict_expr =
  ve_Kind :: string
  ve_Chain :: string

record dnat_info =
  di_MinIP :: string
  di_MaxIP :: string
  di_MinPort :: u16
  di_MaxPort :: u16

record conntrack_info =
  ci_MatchesState :: bool
  ci_States :: "string list"
  ci_Invert :: bool

record addrtype_info =
  ai_DestTypes :: "string list"
  ai_SourceTypes :: "string list"
  ai_InvertDest :: bool
  ai_InvertSource :: bool

record recent_info =
  ri_Mode :: string
  ri_Seconds :: u32
  ri_HitCount :: u32
  ri_Invert :: bool
  ri_Name :: string

record xt_expr =
  xt_Kind :: string
  xt_Name :: string
  xt_Rev :: u32
  xt_Decoded :: bool
  xt_DNAT :: "dnat_info option"
  xt_Conntrack :: "conntrack_info option"
  xt_AddrType :: "addrtype_info option"
  xt_Recent :: "recent_info option"
  xt_Raw :: string

record expr =
  e_Kind :: expr_kind
  e_Payload :: "payload_expr option"
  e_Cmp :: "cmp_expr option"
  e_Meta :: "meta_expr option"
  e_Bitwise :: "bitwise_expr option"
  e_Ct :: "ct_expr option"
  e_Lookup :: "lookup_expr option"
  e_Range :: "range_expr option"
  e_Fib :: "fib_expr option"
  e_Immediate :: "immediate_expr option"
  e_NAT :: "nat_expr option"
  e_Verdict :: "verdict_expr option"
  e_Xt :: "xt_expr option"
  e_Note :: string

text \<open>The zero value of \<open>Expr\<close>, which literals of the source start from.\<close>

definition expr0 :: "expr_kind \<Rightarrow> expr" where
  "expr0 k = \<lparr>e_Kind = k, e_Payload = None, e_Cmp = None, e_Meta = None, e_Bitwise = None,
     e_Ct = None, e_Lookup = None, e_Range = None, e_Fib = None, e_Immediate = None,
     e_NAT = None, e_Verdict = None, e_Xt = None, e_Note = []\<rparr>"

section \<open>The ruleset\<close>

record rule =
  r_Handle :: u64
  r_Exprs :: "expr list"

record chain =
  ch_Name :: string
  ch_Base :: bool
  ch_Hook :: string
  ch_Priority :: int
  ch_Devices :: "string list"
  ch_Policy :: string
  ch_Rules :: "rule list"

record set_element =
  se_Key :: string
  se_Val :: string
  se_KeyEnd :: string
  se_IntervalEnd :: bool

record nft_set =
  st_Name :: string
  st_Anonymous :: bool
  st_ID :: u32
  st_Interval :: bool
  st_IsMap :: bool
  st_Concatenation :: bool
  st_Elements :: "set_element list"

record table =
  t_Family :: string
  t_Name :: string
  t_Chains :: "chain list"
  t_Sets :: "nft_set list"

record ruleset =
  rs_Tables :: "table list"
  rs_ReadFailed :: bool

record facts =
  f_SchemaVersion :: int
  f_CapturedAt :: string
  f_Host :: host
  f_Sockets :: "socket list"
  f_Ruleset :: ruleset
  f_Docker :: docker
  f_Warnings :: "warning list"

section \<open>The schema version\<close>

definition SchemaVersion :: int where
  "SchemaVersion = 1"

definition SupportedSchema :: "int \<Rightarrow> string option" where
  "SupportedSchema v =
     (if v < 1 then
        Some (''no usable schema_version ('' @ itoa_int v @ ''), so this is not a facts document whyopen wrote'')
      else if v > SchemaVersion then
        Some (''facts schema version '' @ itoa_int v @ '' is newer than the '' @ itoa_int SchemaVersion @
              '' this build reads; upgrade whyopen'')
      else None)"

section \<open>Structural validation\<close>

definition expr_missing :: "expr \<Rightarrow> bool" where
  "expr_missing e =
     (case e_Kind e of
        ExprPayload \<Rightarrow> e_Payload e = None
      | ExprCmp \<Rightarrow> e_Cmp e = None
      | ExprMeta \<Rightarrow> e_Meta e = None
      | ExprBitwise \<Rightarrow> e_Bitwise e = None
      | ExprCt \<Rightarrow> e_Ct e = None
      | ExprLookup \<Rightarrow> e_Lookup e = None
      | ExprRange \<Rightarrow> e_Range e = None
      | ExprFib \<Rightarrow> e_Fib e = None
      | ExprImmediate \<Rightarrow> e_Immediate e = None
      | ExprNAT \<Rightarrow> e_NAT e = None
      | ExprVerdict \<Rightarrow> e_Verdict e = None
      | ExprXt \<Rightarrow> e_Xt e = None
      | ExprOther \<Rightarrow> False
      | ExprUnknown \<Rightarrow> False
      | ExprFuture s \<Rightarrow> False)"

definition expr_validate :: "expr \<Rightarrow> string option" where
  "expr_validate e =
     (if expr_missing e then
        Some (''kind '' @ quote (kind_text (e_Kind e)) @ '' carries no '' @ quote (kind_text (e_Kind e)) @
              '' object, which the evaluator would dereference'')
      else None)"

text \<open>The four nested loops of \<open>Validate\<close>; the first error found returns.\<close>

fun validate_exprs :: "string \<Rightarrow> string \<Rightarrow> u64 \<Rightarrow> nat \<Rightarrow> expr list \<Rightarrow> string option" where
  "validate_exprs tn cn h i [] = None"
| "validate_exprs tn cn h i (e # es) =
     (case expr_validate e of
        Some err \<Rightarrow> Some (''table '' @ tn @ '', chain '' @ cn @ '', rule '' @ itoa (unat h) @
                      '', expression '' @ itoa i @ '': '' @ err)
      | None \<Rightarrow> validate_exprs tn cn h (Suc i) es)"

fun validate_rules :: "string \<Rightarrow> string \<Rightarrow> rule list \<Rightarrow> string option" where
  "validate_rules tn cn [] = None"
| "validate_rules tn cn (r # rs) =
     (case validate_exprs tn cn (r_Handle r) 0 (r_Exprs r) of
        Some err \<Rightarrow> Some err
      | None \<Rightarrow> validate_rules tn cn rs)"

fun validate_chains :: "string \<Rightarrow> chain list \<Rightarrow> string option" where
  "validate_chains tn [] = None"
| "validate_chains tn (c # cs) =
     (case validate_rules tn (ch_Name c) (ch_Rules c) of
        Some err \<Rightarrow> Some err
      | None \<Rightarrow> validate_chains tn cs)"

fun validate_tables :: "table list \<Rightarrow> string option" where
  "validate_tables [] = None"
| "validate_tables (t # ts) =
     (case validate_chains (t_Name t) (t_Chains t) of
        Some err \<Rightarrow> Some err
      | None \<Rightarrow> validate_tables ts)"

definition Validate :: "facts \<Rightarrow> string option" where
  "Validate f = validate_tables (rs_Tables (f_Ruleset f))"

section \<open>What a validated document guarantees\<close>

text \<open>
  \<open>wf_expr\<close> says that the object an expression's kind promises is there; the other
  predicates lift it to rules, chains and rulesets. The rest of the development relies
  on these predicates and never on how \<open>Validate\<close> finds a fault.
\<close>

definition wf_expr :: "expr \<Rightarrow> bool" where
  "wf_expr e \<longleftrightarrow> \<not> expr_missing e"

definition wf_rule :: "rule \<Rightarrow> bool" where
  "wf_rule r \<longleftrightarrow> (\<forall>e \<in> set (r_Exprs r). wf_expr e)"

definition wf_chain :: "chain \<Rightarrow> bool" where
  "wf_chain c \<longleftrightarrow> (\<forall>r \<in> set (ch_Rules c). wf_rule r)"

definition wf_ruleset :: "ruleset \<Rightarrow> bool" where
  "wf_ruleset rs \<longleftrightarrow> (\<forall>t \<in> set (rs_Tables rs). \<forall>c \<in> set (t_Chains t). wf_chain c)"

lemma first_error_None [simp]:
  "(case x of None \<Rightarrow> y | Some err \<Rightarrow> Some err) = None \<longleftrightarrow> x = None \<and> y = None"
  by (cases x) simp_all

lemma validate_exprs_None:
  "validate_exprs tn cn h i es = None \<longleftrightarrow> (\<forall>e \<in> set es. wf_expr e)"
  by (induction es arbitrary: i) (auto simp: expr_validate_def wf_expr_def)

lemma validate_rules_None: "validate_rules tn cn rs = None \<longleftrightarrow> (\<forall>r \<in> set rs. wf_rule r)"
  by (induction rs) (simp_all add: validate_exprs_None wf_rule_def)

lemma validate_chains_None: "validate_chains tn cs = None \<longleftrightarrow> (\<forall>c \<in> set cs. wf_chain c)"
  by (induction cs) (simp_all add: validate_rules_None wf_chain_def)

lemma validate_tables_None:
  "validate_tables ts = None \<longleftrightarrow> (\<forall>t \<in> set ts. \<forall>c \<in> set (t_Chains t). wf_chain c)"
  by (induction ts) (simp_all add: validate_chains_None)

lemma Validate_wf: "Validate f = None \<longleftrightarrow> wf_ruleset (f_Ruleset f)"
  by (simp add: Validate_def wf_ruleset_def validate_tables_None)

lemma wf_chain_rule [wf_intros]: "wf_chain c \<Longrightarrow> r \<in> set (ch_Rules c) \<Longrightarrow> wf_rule r"
  by (simp add: wf_chain_def)

lemma wf_rule_expr [wf_intros]: "wf_rule r \<Longrightarrow> e \<in> set (r_Exprs r) \<Longrightarrow> wf_expr e"
  by (simp add: wf_rule_def)

lemma wf_ruleset_chain [wf_intros]:
  "wf_ruleset rs \<Longrightarrow> t \<in> set (rs_Tables rs) \<Longrightarrow> c \<in> set (t_Chains t) \<Longrightarrow> wf_chain c"
  by (auto simp: wf_ruleset_def)

end
