(* ===== verification/Packet.thy ===== *)
theory Packet
  imports Facts
begin

text \<open>
  The synthetic packet, what a matching rule does and what evaluating a rule yields
  (\<open>internal/model/packet.go\<close>). \<open>Action.Kind\<close> stays a string, because the walker
  takes it unchecked from a document's verdict expression.
\<close>

record packet =
  p_Family :: string
  p_Proto :: string
  p_Src :: addr
  p_Dst :: addr
  p_SrcPort :: u16
  p_DstPort :: u16
  p_InIface :: string
  p_OutIface :: string
  p_CtState :: string
  p_DstIsLocal :: bool
  p_DNATApplied :: bool
  p_SrcRouteDev :: string
  p_InIfaceIndex :: u32
  p_OutIfaceIndex :: u32

record dnat =
  dn_IP :: addr
  dn_Port :: u16

record action =
  a_Kind :: string
  a_Chain :: string
  a_DNAT :: "dnat option"

datatype outcome = OutcomeMatch | OutcomeNoMatch | OutcomeUnknown | OutcomeSkipped

fun outcome_String :: "outcome \<Rightarrow> string" where
  "outcome_String OutcomeMatch = ''match''"
| "outcome_String OutcomeNoMatch = ''no-match''"
| "outcome_String OutcomeSkipped = ''skipped''"
| "outcome_String OutcomeUnknown = ''unknown''"

text \<open>\<open>Action{Kind: k}\<close>.\<close>

definition act :: "string \<Rightarrow> action" where
  "act k = \<lparr>a_Kind = k, a_Chain = [], a_DNAT = None\<rparr>"

abbreviation none_action :: action where
  "none_action \<equiv> act ''none''"

lemma act_simps [simp]: "a_Kind (act k) = k" "a_Chain (act k) = []" "a_DNAT (act k) = None"
  by (simp_all add: act_def)

end
