(* ===== verification/Match_Loads.thy ===== *)
theory Match_Loads
  imports Packet
begin

text \<open>
  What an expression loads into a register (\<open>internal/model/match.go\<close>): header bytes,
  meta keys, conntrack metadata and fib lookups. A result of \<open>None\<close> is the source's
  second result \<open>false\<close>, "whyopen cannot say", which makes the rule unresolvable.
\<close>

section \<open>Header bytes\<close>

definition protoNumber :: "string \<Rightarrow> byte" where
  "protoNumber proto = (if proto = ''udp'' then 17 else 6)"

definition tcpFlagSyn :: byte where
  "tcpFlagSyn = 0x02"

definition addrBytes :: "addr \<Rightarrow> nat \<Rightarrow> bytes option" where
  "addrBytes a want =
     (let b = addr_AsSlice a in if length b \<noteq> want then None else Some b)"

text \<open>
  The comparison \<open>p.Offset < fieldOffset\<close> and the subtraction are those of \<open>uint32\<close>;
  the sum is of Go \<open>int\<close>s, which do not overflow here.
\<close>

definition addrWindow :: "addr \<Rightarrow> nat \<Rightarrow> u32 \<Rightarrow> payload_expr \<Rightarrow> bytes option" where
  "addrWindow a n fieldOffset p =
     (if pl_Len p = 0 \<or> pl_Offset p < fieldOffset then None
      else
        let start = pl_Offset p - fieldOffset in
        if unat start + unat (pl_Len p) > n then None
        else
          case addrBytes a n of
            None \<Rightarrow> None
          | Some b \<Rightarrow> Some (take (unat (pl_Len p)) (drop (unat start) b)))"

definition payloadBytes :: "packet \<Rightarrow> payload_expr \<Rightarrow> bytes option" where
  "payloadBytes pkt p =
     (if pl_Base p = ''network'' then
        (if p_Family pkt = ''ip'' then
           (if pl_Offset p = 9 \<and> pl_Len p = 1 then Some [protoNumber (p_Proto pkt)]
            else case addrWindow (p_Src pkt) 4 12 p of
                   Some b \<Rightarrow> Some b
                 | None \<Rightarrow> addrWindow (p_Dst pkt) 4 16 p)
         else
           (if pl_Offset p = 6 \<and> pl_Len p = 1 then Some [protoNumber (p_Proto pkt)]
            else case addrWindow (p_Src pkt) 16 8 p of
                   Some b \<Rightarrow> Some b
                 | None \<Rightarrow> addrWindow (p_Dst pkt) 16 24 p))
      else if pl_Base p = ''transport'' then
        (if pl_Offset p = 0 \<and> pl_Len p = 2 then
           Some [ucast (drop_bit 8 (p_SrcPort pkt)), ucast (p_SrcPort pkt)]
         else if pl_Offset p = 2 \<and> pl_Len p = 2 then
           Some [ucast (drop_bit 8 (p_DstPort pkt)), ucast (p_DstPort pkt)]
         else if pl_Offset p = 13 \<and> pl_Len p = 1 \<and> p_Proto pkt = ''tcp'' then
           Some [tcpFlagSyn]
         else None)
      else None)"

section \<open>Meta keys\<close>

definition metaAbsent :: "string \<Rightarrow> bool" where
  "metaAbsent key \<longleftrightarrow> key = ''skuid'' \<or> key = ''skgid''"

definition ifnameLen :: nat where
  "ifnameLen = 16"

text \<open>\<open>copy\<close> into a zeroed buffer: at most 16 bytes of the name.\<close>

definition ifname :: "string \<Rightarrow> bytes" where
  "ifname s =
     (let b = take ifnameLen (map (\<lambda>c. of_nat (of_char c)) s) in
      b @ replicate (ifnameLen - length b) 0)"

definition ifindex :: "u32 \<Rightarrow> bytes option" where
  "ifindex idx = (if idx = 0 then None else Some (le_put32 idx))"

definition metaBytes :: "packet \<Rightarrow> string \<Rightarrow> bytes option" where
  "metaBytes pkt key =
     (if key = ''iifname'' then Some (ifname (p_InIface pkt))
      else if key = ''oifname'' then Some (ifname (p_OutIface pkt))
      else if key = ''iif'' then ifindex (p_InIfaceIndex pkt)
      else if key = ''oif'' then ifindex (p_OutIfaceIndex pkt)
      else if key = ''l4proto'' then Some [protoNumber (p_Proto pkt)]
      else if key = ''nfproto'' then
        (if p_Family pkt = ''ip'' then Some [2] else Some [10])
      else None)"

section \<open>Conntrack and fib\<close>

definition ctStateNewBit :: u32 where
  "ctStateNewBit = 0x8"

definition ctStatusDstNatBit :: u32 where
  "ctStatusDstNatBit = 0x20"

definition ctBytes :: "packet \<Rightarrow> string \<Rightarrow> bytes option" where
  "ctBytes pkt key =
     (if key = ''state'' then
        (if p_CtState pkt \<noteq> ''new'' then None else Some (le_put32 ctStateNewBit))
      else if key = ''status'' then
        (let status = (0 :: u32);
             status = (if p_DNATApplied pkt then status OR ctStatusDstNatBit else status) in
         Some (le_put32 status))
      else None)"

definition rtnUnicastValue :: u32 where
  "rtnUnicastValue = 1"

definition rtnLocalValue :: u32 where
  "rtnLocalValue = 2"

definition fibBytes :: "packet \<Rightarrow> fib_expr \<Rightarrow> bytes option" where
  "fibBytes pkt f =
     (if fb_Query f = ''addrtype'' then
        (let v = (if fb_Source f = ''daddr'' \<and> p_DstIsLocal pkt then rtnLocalValue
                  else rtnUnicastValue) in
         Some (le_put32 v))
      else if fb_Query f = ''oif-present'' then
        (if p_SrcRouteDev pkt = [] then None
         else if fb_MatchesIface f \<and> p_InIface pkt \<noteq> [] \<and> p_SrcRouteDev pkt \<noteq> p_InIface pkt
         then None
         else Some (le_put32 1))
      else None)"

section \<open>Lemmas\<close>

lemma length_ifname [simp]: "length (ifname s) = 16"
  by (simp add: ifname_def ifnameLen_def Let_def)

text \<open>An address load yields exactly the bytes asked for.\<close>

lemma addrWindow_length:
  assumes "addrWindow a n fo p = Some b" shows "length b = unat (pl_Len p)"
proof -
  obtain bs where bs: "addrBytes a n = Some bs"
    and b: "b = take (unat (pl_Len p)) (drop (unat (pl_Offset p - fo)) bs)"
    and fits: "unat (pl_Offset p - fo) + unat (pl_Len p) \<le> n"
    using assms by (auto simp: addrWindow_def Let_def split: if_splits option.splits)
  have "length bs = n"
    using bs by (auto simp: addrBytes_def Let_def split: if_splits)
  with b fits show ?thesis by simp
qed

lemma payloadBytes_length: "payloadBytes pkt p = Some b \<Longrightarrow> length b = unat (pl_Len p)"
  by (auto simp: payloadBytes_def dest: addrWindow_length split: if_splits option.splits)

lemma dport_be: "[ucast (drop_bit 8 p), ucast (p :: u16)] = be_put16 p"
  by (simp add: be_put16_def)

lemma payloadBytes_dport:
  "pl_Base p = ''transport'' \<Longrightarrow> pl_Offset p = 2 \<Longrightarrow> pl_Len p = 2 \<Longrightarrow>
   payloadBytes pkt p = Some (be_put16 (p_DstPort pkt))"
  by (simp add: payloadBytes_def dport_be)

lemma payloadBytes_sport:
  "pl_Base p = ''transport'' \<Longrightarrow> pl_Offset p = 0 \<Longrightarrow> pl_Len p = 2 \<Longrightarrow>
   payloadBytes pkt p = Some (be_put16 (p_SrcPort pkt))"
  by (simp add: payloadBytes_def dport_be)

text \<open>The whole source address of an IPv4 packet, and a leading part of it.\<close>

lemma payloadBytes_saddr4:
  assumes "p_Family pkt = ''ip''" and "p_Src pkt = Addr4 w"
    and "pl_Base p = ''network''" and "pl_Offset p = 12"
    and "0 < pl_Len p" and "pl_Len p \<le> 4"
  shows "payloadBytes pkt p = Some (take (unat (pl_Len p)) (word_bytes 4 w))"
proof -
  have "unat (pl_Len p) \<le> 4"
    using assms(6) by (simp add: word_le_nat_alt)
  then show ?thesis
    using assms by (simp add: payloadBytes_def addrWindow_def addrBytes_def)
qed

text \<open>A route lookup is only ever answered "present".\<close>

lemma fibBytes_present:
  "fb_Query f = ''oif-present'' \<Longrightarrow> fibBytes pkt f = Some b \<Longrightarrow> b = le_put32 1"
  by (auto simp: fibBytes_def split: if_splits)

lemma fibBytes_present_route:
  "fb_Query f = ''oif-present'' \<Longrightarrow> fibBytes pkt f = Some b \<Longrightarrow> p_SrcRouteDev pkt \<noteq> []"
  by (auto simp: fibBytes_def split: if_splits)

end
