(* ===== verification/Match_Sets.thy ===== *)
theory Match_Sets
  imports Packet
begin

text \<open>
  Set lookups (\<open>findSet\<close>, \<open>lookupMatch\<close>, \<open>intervalMatch\<close> of
  \<open>internal/model/match.go\<close>). The result \<open>None\<close> is \<open>ok = false\<close>: the set cannot be
  read as a membership test. \<open>slices.SortFunc\<close> does not promise an order for bounds
  with equal keys; the model keeps their order, as Go's implementation does for the
  dozen elements it sorts by insertion.
\<close>

section \<open>Finding the set\<close>

definition set_named :: "lookup_expr \<Rightarrow> nft_set \<Rightarrow> bool" where
  "set_named lk s \<longleftrightarrow>
     (lk_Set lk \<noteq> [] \<and> st_Name s = lk_Set lk)
     \<or> (lk_Set lk = [] \<and> lk_SetID lk \<noteq> 0 \<and> st_ID s = lk_SetID lk)"

fun findSet :: "lookup_expr \<Rightarrow> nft_set list \<Rightarrow> nft_set option" where
  "findSet lk [] = None"
| "findSet lk (s # ss) = (if set_named lk s then Some s else findSet lk ss)"

section \<open>Reading the elements\<close>

text \<open>
  The loop both readers share: refuse an element that carries a value or a closing key,
  a key that is not hex, and keys of different lengths. \<open>keyLen\<close> is \<open>None\<close> before the
  first key, the source's \<open>-1\<close>.
\<close>

fun set_keys :: "nat option \<Rightarrow> set_element list \<Rightarrow> ((bytes \<times> bool) list \<times> nat option) option" where
  "set_keys keyLen [] = Some ([], keyLen)"
| "set_keys keyLen (e # es) =
     (if se_Val e \<noteq> [] \<or> se_KeyEnd e \<noteq> [] then None
      else
        case hex_decode (se_Key e) of
          None \<Rightarrow> None
        | Some key \<Rightarrow>
            (case keyLen of
               None \<Rightarrow>
                 map_option (\<lambda>(ks, n). ((key, se_IntervalEnd e) # ks, n)) (set_keys (Some (length key)) es)
             | Some n \<Rightarrow>
                 if length key \<noteq> n then None
                 else map_option (\<lambda>(ks, n). ((key, se_IntervalEnd e) # ks, n)) (set_keys keyLen es)))"

definition bound_less :: "bytes \<times> bool \<Rightarrow> bytes \<times> bool \<Rightarrow> bool" where
  "bound_less a b \<longleftrightarrow> bytes_compare (fst a) (fst b) < 0"

text \<open>
  The sweep over the sorted bounds; \<open>start\<close> is the interval open at this point. At the
  end an open interval runs to the top of the key space.
\<close>

fun interval_sweep :: "bytes \<Rightarrow> bytes option \<Rightarrow> bool \<Rightarrow> (bytes \<times> bool) list \<Rightarrow> bool option" where
  "interval_sweep v start member [] =
     Some (case start of
             None \<Rightarrow> member
           | Some s \<Rightarrow> if bytes_compare v s \<ge> 0 then True else member)"
| "interval_sweep v start member ((key, is_end) # bs) =
     (if \<not> is_end then
        (case start of
           Some s \<Rightarrow> None
         | None \<Rightarrow> interval_sweep v (Some key) member bs)
      else
        (case start of
           None \<Rightarrow> interval_sweep v None member bs
         | Some s \<Rightarrow>
             interval_sweep v None
               (if bytes_compare v s \<ge> 0 \<and> bytes_compare v key < 0 then True else member) bs))"

definition intervalMatch :: "bytes \<Rightarrow> lookup_expr \<Rightarrow> nft_set \<Rightarrow> bool option" where
  "intervalMatch reg lk s =
     (case set_keys None (st_Elements s) of
        None \<Rightarrow> None
      | Some (bounds, keyLen) \<Rightarrow>
          (case keyLen of
             None \<Rightarrow> None
           | Some n \<Rightarrow>
               if length reg < n then None
               else
                 case interval_sweep (take n reg) None False (slice_stable bound_less bounds) of
                   None \<Rightarrow> None
                 | Some member \<Rightarrow> Some (if lk_Invert lk then \<not> member else member)))"

definition lookupMatch :: "bytes \<Rightarrow> lookup_expr \<Rightarrow> nft_set list \<Rightarrow> bool option" where
  "lookupMatch reg lk sets =
     (case findSet lk sets of
        None \<Rightarrow> None
      | Some s \<Rightarrow>
          if st_IsMap s \<or> st_Concatenation s \<or> length (st_Elements s) = 0 then None
          else if st_Interval s then intervalMatch reg lk s
          else
            case set_keys None (st_Elements s) of
              None \<Rightarrow> None
            | Some (keys, keyLen) \<Rightarrow>
                (case keyLen of
                   None \<Rightarrow> None
                 | Some n \<Rightarrow>
                     if length reg < n then None
                     else
                       let member = list_ex (\<lambda>(key, _). take n reg = key) keys in
                       Some (if lk_Invert lk then \<not> member else member)))"

section \<open>Lemmas: reading elements\<close>

lemma set_keys_len:
  "set_keys kl es = Some (ks, n) \<Longrightarrow> es \<noteq> [] \<or> kl \<noteq> None \<Longrightarrow>
   \<exists>m. n = Some m \<and> (\<forall>k \<in> set ks. length (fst k) = m) \<and> (\<forall>j. kl = Some j \<longrightarrow> m = j)"
proof (induction kl es arbitrary: ks n rule: set_keys.induct)
  case (2 kl e es)
  then show ?case
    by (fastforce split: if_splits option.splits)
qed auto

lemma set_keys_map:
  "set_keys kl es = Some (ks, n) \<Longrightarrow>
   map (\<lambda>e. (hex_decode (se_Key e), se_IntervalEnd e)) es = map (\<lambda>(k, b). (Some k, b)) ks"
proof (induction kl es arbitrary: ks n rule: set_keys.induct)
  case (2 kl e es)
  then show ?case
    by (fastforce split: if_splits option.splits)
qed auto

section \<open>Lemmas: the interval sweep\<close>

text \<open>
  The order of bounds: a \<open>less\<close> function whose ties are the bounds of one key.
\<close>

lemma bytes_compare_less_trans:
  "bytes_compare a c < 0 \<Longrightarrow> bytes_compare a b < 0 \<or> bytes_compare b c < 0"
proof (induction a b arbitrary: c rule: bytes_compare.induct)
  case (2 b bs)
  then show ?case by (cases c) simp_all
next
  case (3 a as)
  then show ?case by (cases c) (auto split: if_splits)
next
  case (4 a as b bs)
  then show ?case by (cases c) (auto split: if_splits)
qed simp_all

lemma bytes_compare_neg_asym: "bytes_compare a b < 0 \<Longrightarrow> \<not> bytes_compare b a < 0"
  by (induction a b rule: bytes_compare.induct) (auto split: if_splits)

lemma bytes_compare_antisym: "bytes_compare a b = - bytes_compare b a"
  by (induction a b rule: bytes_compare.induct) auto

interpretation bounds: less_function bound_less
  by unfold_locales
    (auto simp: bound_less_def dest: bytes_compare_neg_asym bytes_compare_less_trans)

lemma bounds_same: "bounds.same a b \<longleftrightarrow> fst a = fst b"
  using bytes_compare_antisym [of "fst a" "fst b"] bytes_compare_eq_0 [of "fst a" "fst b"]
  by (auto simp: bounds.same_def bound_less_def)

text \<open>
  An interval set as the kernel lists it: intervals \<open>[lo, hi)\<close>, the last one possibly
  open at the top (\<open>None\<close>), in ascending order and not touching. The bounds of such a
  list, and the values it stands for.
\<close>

fun interval_bounds :: "(bytes \<times> bytes option) list \<Rightarrow> (bytes \<times> bool) list" where
  "interval_bounds [] = []"
| "interval_bounds ((lo, Some hi) # is) = (lo, False) # (hi, True) # interval_bounds is"
| "interval_bounds ((lo, None) # is) = (lo, False) # interval_bounds is"

definition in_interval :: "bytes \<Rightarrow> bytes \<times> bytes option \<Rightarrow> bool" where
  "in_interval v i \<longleftrightarrow>
     be_nat (fst i) \<le> be_nat v \<and> (case snd i of None \<Rightarrow> True | Some hi \<Rightarrow> be_nat v < be_nat hi)"

fun open_last :: "(bytes \<times> bytes option) list \<Rightarrow> bool" where
  "open_last [] = True"
| "open_last [i] = True"
| "open_last (i # is) = (snd i \<noteq> None \<and> open_last is)"

lemma bytes_compare_ge: "length a = length b \<Longrightarrow> bytes_compare a b \<ge> 0 \<longleftrightarrow> be_nat b \<le> be_nat a"
  by (simp add: bytes_compare_be_nat)

lemma bytes_compare_lt: "length a = length b \<Longrightarrow> bytes_compare a b < 0 \<longleftrightarrow> be_nat a < be_nat b"
  by (simp add: bytes_compare_be_nat)

lemma interval_sweep_bounds:
  assumes "open_last is"
    and "\<forall>k \<in> set (interval_bounds is). length (fst k) = length v"
  shows "interval_sweep v None m (interval_bounds is) = Some (m \<or> (\<exists>i \<in> set is. in_interval v i))"
  using assms
proof (induction "is" arbitrary: m rule: open_last.induct)
  case 1
  then show ?case by simp
next
  case (2 i)
  obtain lo hi where "i = (lo, hi)" by (cases i)
  with 2 show ?case
    by (cases hi) (auto simp: in_interval_def bytes_compare_ge bytes_compare_lt)
next
  case (3 i j js)
  obtain lo hi where i: "i = (lo, Some hi)"
    using "3.prems"(1) by (cases i) auto
  with 3 show ?case
    by (auto simp: in_interval_def bytes_compare_ge bytes_compare_lt)
qed

end
