(* ===== verification/Match_Xt.thy ===== *)
theory Match_Xt
  imports Packet
begin

text \<open>
  The iptables-nft compatibility expressions (\<open>xtExpr\<close> of
  \<open>internal/model/match.go\<close>). \<open>None\<close> is \<open>ok = false\<close>: the expression cannot be
  resolved. A resolved expression matches or does not, and a target also yields an
  action.
\<close>

section \<open>Targets\<close>

definition xt_target :: "xt_expr \<Rightarrow> (outcome \<times> action) option" where
  "xt_target x =
     (if xt_Name x = ''DNAT'' then
        (case xt_DNAT x of
           None \<Rightarrow> None
         | Some d \<Rightarrow>
             if \<not> xt_Decoded x then None
             else
               case ParseAddr (di_MinIP d) of
                 None \<Rightarrow> None
               | Some ip \<Rightarrow>
                   Some (OutcomeMatch,
                     \<lparr>a_Kind = ''dnat'', a_Chain = [],
                      a_DNAT = Some \<lparr>dn_IP = ip, dn_Port = di_MinPort d\<rparr>\<rparr>))
      else if xt_Name x = ''REJECT'' then Some (OutcomeMatch, act ''drop'')
      else if xt_Name x = ''LOG'' then Some (OutcomeMatch, none_action)
      else if xt_Name x = ''MASQUERADE'' then Some (OutcomeMatch, act ''accept'')
      else None)"

section \<open>Matches\<close>

definition hit_outcome :: "bool \<Rightarrow> (outcome \<times> action) option" where
  "hit_outcome hit = Some (if hit then OutcomeMatch else OutcomeNoMatch, none_action)"

definition knownAddrTypes :: "string list \<Rightarrow> bool" where
  "knownAddrTypes types =
     list_all (\<lambda>t. t \<in> set [''unspec'', ''unicast'', ''local'', ''broadcast'', ''anycast'', ''multicast'']) types"

definition xt_conntrack_match :: "packet \<Rightarrow> xt_expr \<Rightarrow> (outcome \<times> action) option" where
  "xt_conntrack_match pkt x =
     (case xt_Conntrack x of
        None \<Rightarrow> None
      | Some c \<Rightarrow>
          if \<not> xt_Decoded x \<or> \<not> ci_MatchesState c then None
          else
            let hit = p_CtState pkt \<in> set (ci_States c) in
            hit_outcome (if ci_Invert c then \<not> hit else hit))"

text \<open>One side of an addrtype match: no demand, or the role is among the types.\<close>

definition addrtype_hit :: "string list \<Rightarrow> string \<Rightarrow> bool \<Rightarrow> bool" where
  "addrtype_hit types role invert =
     (if length types > 0 then
        (let hit = role \<in> set types in if invert then \<not> hit else hit)
      else True)"

definition xt_addrtype_match :: "packet \<Rightarrow> xt_expr \<Rightarrow> (outcome \<times> action) option" where
  "xt_addrtype_match pkt x =
     (case xt_AddrType x of
        None \<Rightarrow> None
      | Some a \<Rightarrow>
          if \<not> xt_Decoded x then None
          else
            let dst = ai_DestTypes a; src = ai_SourceTypes a in
            if length dst = 0 \<and> length src = 0 then None
            else if \<not> knownAddrTypes dst \<or> \<not> knownAddrTypes src then None
            else
              let dstRole = (if p_DstIsLocal pkt then ''local'' else ''unicast'');
                  srcRole = ''unicast'' in
              hit_outcome (addrtype_hit dst dstRole (ai_InvertDest a)
                           \<and> addrtype_hit src srcRole (ai_InvertSource a)))"

definition xt_recent_match :: "xt_expr \<Rightarrow> (outcome \<times> action) option" where
  "xt_recent_match x =
     (case xt_Recent x of
        None \<Rightarrow> None
      | Some r \<Rightarrow>
          if \<not> xt_Decoded x then None
          else if ri_Mode r = ''set'' then hit_outcome (if ri_Invert r then False else True)
          else if ri_Mode r \<in> set [''check'', ''rcheck'', ''update'', ''remove''] then
            hit_outcome (if ri_Invert r then True else False)
          else None)"

definition xtExpr :: "packet \<Rightarrow> xt_expr \<Rightarrow> (outcome \<times> action) option" where
  "xtExpr pkt x =
     (if xt_Kind x = ''target'' then xt_target x
      else if xt_Name x = ''conntrack'' then xt_conntrack_match pkt x
      else if xt_Name x = ''addrtype'' then xt_addrtype_match pkt x
      else if xt_Name x = ''recent'' then xt_recent_match x
      else if xt_Name x = ''icmp'' \<or> xt_Name x = ''icmp6'' then hit_outcome False
      else if xt_Name x = ''rt'' then hit_outcome False
      else if xt_Name x = ''hl'' then hit_outcome False
      else None)"

section \<open>Lemmas\<close>

lemma hit_outcome_Some: "hit_outcome h = Some (out, a) \<longleftrightarrow>
   out = (if h then OutcomeMatch else OutcomeNoMatch) \<and> a = none_action"
  by (auto simp: hit_outcome_def)

text \<open>A resolved expression answers match or no match; only a target acts.\<close>

lemma xtExpr_outcome:
  "xtExpr pkt x = Some (out, a) \<Longrightarrow> out = OutcomeMatch \<or> out = OutcomeNoMatch"
  by (auto simp: xtExpr_def xt_target_def xt_conntrack_match_def xt_addrtype_match_def
      xt_recent_match_def hit_outcome_def Let_def split: if_splits option.splits)

lemma xtExpr_match_no_action:
  "xtExpr pkt x = Some (out, a) \<Longrightarrow> xt_Kind x \<noteq> ''target'' \<Longrightarrow> a = none_action"
  by (auto simp: xtExpr_def xt_conntrack_match_def xt_addrtype_match_def
      xt_recent_match_def hit_outcome_def Let_def split: if_splits option.splits)

lemma xtExpr_target_kinds:
  "xtExpr pkt x = Some (out, a) \<Longrightarrow> a_Kind a \<in> {''dnat'', ''drop'', ''none'', ''accept''}"
  by (auto simp: xtExpr_def xt_target_def xt_conntrack_match_def xt_addrtype_match_def
      xt_recent_match_def hit_outcome_def Let_def split: if_splits option.splits)

lemma xtExpr_nomatch_none:
  "xtExpr pkt x = Some (OutcomeNoMatch, a) \<Longrightarrow> a = none_action"
  by (auto simp: xtExpr_def xt_target_def xt_conntrack_match_def xt_addrtype_match_def
      xt_recent_match_def hit_outcome_def Let_def split: if_splits option.splits)

lemma xtExpr_dnat:
  "xtExpr pkt x = Some (out, a) \<Longrightarrow> (a_Kind a = ''dnat'') = (a_DNAT a \<noteq> None)"
  by (auto simp: xtExpr_def xt_target_def xt_conntrack_match_def xt_addrtype_match_def
      xt_recent_match_def hit_outcome_def Let_def act_def split: if_splits option.splits)

end
