(* ===== verification/Match.thy ===== *)
theory Match
  imports Match_Loads Match_Sets Match_Xt
begin

text \<open>
  Rule evaluation (\<open>MatchRule\<close>, \<open>skippableUnresolvedMatch\<close>, \<open>natAction\<close> of
  \<open>internal/model/match.go\<close>). The registers are a map from register numbers to bytes;
  each case of the loop's \<open>switch\<close> is a definition of its own that either ends the
  rule or hands the registers and the action to the next expression.
\<close>

section \<open>The cases of the loop\<close>

type_synonym registers = "u32 \<rightharpoonup> bytes"

datatype step = Stop outcome action | Next registers action

definition natAction :: "packet \<Rightarrow> nat_expr \<Rightarrow> registers \<Rightarrow> action option" where
  "natAction pkt n regs =
     (if nt_Type n \<noteq> ''dnat'' then None
      else
        do { raw \<leftarrow> regs (nt_AddrRegister n);
             ip \<leftarrow> AddrFromSlice raw;
             port \<leftarrow> (if nt_ProtoRegister n \<noteq> 0 then
                       (case regs (nt_ProtoRegister n) of
                          None \<Rightarrow> None
                        | Some p \<Rightarrow> if length p \<noteq> 2 then None else Some (be_uint16 p))
                     else Some (p_DstPort pkt));
             Some \<lparr>a_Kind = ''dnat'', a_Chain = [], a_DNAT = Some \<lparr>dn_IP = ip, dn_Port = port\<rparr>\<rparr> })"

definition load :: "registers \<Rightarrow> action \<Rightarrow> u32 \<Rightarrow> bytes option \<Rightarrow> step" where
  "load regs a reg v =
     (case v of None \<Rightarrow> Stop OutcomeUnknown a | Some b \<Rightarrow> Next (regs(reg \<mapsto> b)) a)"

definition match_payload :: "packet \<Rightarrow> payload_expr \<Rightarrow> registers \<Rightarrow> action \<Rightarrow> step" where
  "match_payload pkt p regs a = load regs a (pl_DestRegister p) (payloadBytes pkt p)"

definition match_meta :: "packet \<Rightarrow> meta_expr \<Rightarrow> registers \<Rightarrow> action \<Rightarrow> step" where
  "match_meta pkt m regs a =
     (if metaAbsent (mt_Key m) then Stop OutcomeNoMatch a
      else load regs a (mt_Register m) (metaBytes pkt (mt_Key m)))"

definition match_bitwise :: "bitwise_expr \<Rightarrow> registers \<Rightarrow> action \<Rightarrow> step" where
  "match_bitwise b regs a =
     (case (regs (bw_SourceRegister b), hex_decode (bw_Mask b), hex_decode (bw_Xor b)) of
        (Some src, Some msk, Some xor0) \<Rightarrow>
          (let xr = (if length xor0 = 0 then replicate (length msk) 0 else xor0) in
           if length msk \<noteq> length xr \<or> length src < length msk then Stop OutcomeUnknown a
           else Next (regs(bw_DestRegister b \<mapsto>
                   map (\<lambda>i. (src ! i AND msk ! i) XOR xr ! i) [0..<length msk])) a)
      | _ \<Rightarrow> Stop OutcomeUnknown a)"

definition match_ct :: "packet \<Rightarrow> ct_expr \<Rightarrow> registers \<Rightarrow> action \<Rightarrow> step" where
  "match_ct pkt c regs a = load regs a (ce_Register c) (ctBytes pkt (ce_Key c))"

definition match_lookup :: "lookup_expr \<Rightarrow> nft_set list \<Rightarrow> registers \<Rightarrow> action \<Rightarrow> step" where
  "match_lookup lk sets regs a =
     (if lk_IsDestRegSet lk then Stop OutcomeUnknown a
      else
        case regs (lk_SourceRegister lk) of
          None \<Rightarrow> Stop OutcomeUnknown a
        | Some reg \<Rightarrow>
            (case lookupMatch reg lk sets of
               None \<Rightarrow> Stop OutcomeUnknown a
             | Some hit \<Rightarrow> if \<not> hit then Stop OutcomeNoMatch a else Next regs a))"

text \<open>The operator of a comparison, applied to the result of \<open>bytes.Compare\<close>.\<close>

definition cmp_holds :: "string \<Rightarrow> int \<Rightarrow> bool option" where
  "cmp_holds op c =
     (if op = ''eq'' then Some (\<not> c \<noteq> 0)
      else if op = ''neq'' then Some (\<not> c = 0)
      else if op = ''gte'' then Some (\<not> c < 0)
      else if op = ''lte'' then Some (\<not> c > 0)
      else if op = ''gt'' then Some (\<not> c \<le> 0)
      else if op = ''lt'' then Some (\<not> c \<ge> 0)
      else None)"

definition match_cmp :: "cmp_expr \<Rightarrow> registers \<Rightarrow> action \<Rightarrow> step" where
  "match_cmp c regs a =
     (case (hex_decode (cm_Data c), regs (cm_Register c)) of
        (Some data, Some reg) \<Rightarrow>
          (if length reg < length data then Stop OutcomeUnknown a
           else
             case cmp_holds (cm_Op c) (bytes_compare (take (length data) reg) data) of
               None \<Rightarrow> Stop OutcomeUnknown a
             | Some b \<Rightarrow> if b then Next regs a else Stop OutcomeNoMatch a)
      | _ \<Rightarrow> Stop OutcomeUnknown a)"

definition match_immediate :: "immediate_expr \<Rightarrow> registers \<Rightarrow> action \<Rightarrow> step" where
  "match_immediate i regs a = load regs a (im_Register i) (hex_decode (im_Data i))"

definition match_nat :: "packet \<Rightarrow> nat_expr \<Rightarrow> registers \<Rightarrow> action \<Rightarrow> step" where
  "match_nat pkt n regs a =
     (case natAction pkt n regs of
        None \<Rightarrow> Stop OutcomeUnknown a
      | Some a' \<Rightarrow> Next regs a')"

definition match_fib :: "packet \<Rightarrow> fib_expr \<Rightarrow> registers \<Rightarrow> action \<Rightarrow> step" where
  "match_fib pkt f regs a = load regs a (fb_Register f) (fibBytes pkt f)"

definition match_range :: "range_expr \<Rightarrow> registers \<Rightarrow> action \<Rightarrow> step" where
  "match_range r regs a =
     (case (hex_decode (rg_From r), hex_decode (rg_To r), regs (rg_Register r)) of
        (Some lo, Some hi, Some reg) \<Rightarrow>
          (if length lo \<noteq> length hi \<or> length reg < length lo then Stop OutcomeUnknown a
           else
             let v = take (length lo) reg;
                 inside = (bytes_compare v lo \<ge> 0 \<and> bytes_compare v hi \<le> 0) in
             if rg_Op r = ''eq'' then (if \<not> inside then Stop OutcomeNoMatch a else Next regs a)
             else if rg_Op r = ''neq'' then (if inside then Stop OutcomeNoMatch a else Next regs a)
             else Stop OutcomeUnknown a)
      | _ \<Rightarrow> Stop OutcomeUnknown a)"

section \<open>Skipping an unresolved match\<close>

text \<open>
  The expressions of the rule paired with their index, as \<open>range r.Exprs\<close> yields them.
  The kinds are tried in the order of the \<open>switch\<close>; an \<open>xt\<close> expression without its
  object makes \<open>xtExpr\<close> dereference nil.
\<close>

fun skippable_rest :: "packet \<Rightarrow> nat \<Rightarrow> nat \<Rightarrow> expr list \<Rightarrow> bool panics" where
  "skippable_rest pkt idx i [] = Some True"
| "skippable_rest pkt idx i (e # es) =
     (if i = idx then skippable_rest pkt idx (Suc i) es
      else if e_Kind e \<in> set [ExprPayload, ExprCmp, ExprMeta, ExprBitwise, ExprOther] then
        skippable_rest pkt idx (Suc i) es
      else if e_Kind e = ExprXt then
        do { x \<leftarrow> e_Xt e;
             case xtExpr pkt x of
               None \<Rightarrow> Some False
             | Some (_, a) \<Rightarrow>
                 if a_Kind a \<noteq> ''none'' then Some False else skippable_rest pkt idx (Suc i) es }
      else Some False)"

definition skippableUnresolvedMatch :: "packet \<Rightarrow> rule \<Rightarrow> nat \<Rightarrow> bool panics" where
  "skippableUnresolvedMatch pkt r idx =
     (if idx \<ge> length (r_Exprs r) then None
      else
        case e_Xt (r_Exprs r ! idx) of
          None \<Rightarrow> Some False
        | Some x \<Rightarrow>
            if xt_Kind x \<noteq> ''match'' then Some False
            else skippable_rest pkt idx 0 (r_Exprs r))"

definition match_xt :: "packet \<Rightarrow> rule \<Rightarrow> nat \<Rightarrow> xt_expr \<Rightarrow> registers \<Rightarrow> action \<Rightarrow> step panics" where
  "match_xt pkt r i x regs a =
     (case xtExpr pkt x of
        None \<Rightarrow>
          do { s \<leftarrow> skippableUnresolvedMatch pkt r i;
               Some (if s then Stop OutcomeSkipped a else Stop OutcomeUnknown a) }
      | Some (out, a') \<Rightarrow>
          Some (if out = OutcomeNoMatch then Stop OutcomeNoMatch a
                else if a_Kind a' \<noteq> ''none'' then Next regs a'
                else Next regs a))"

section \<open>The loop\<close>

definition match_expr ::
  "packet \<Rightarrow> nft_set list \<Rightarrow> rule \<Rightarrow> nat \<Rightarrow> expr \<Rightarrow> registers \<Rightarrow> action \<Rightarrow> step panics" where
  "match_expr pkt sets r i e regs a =
     (case e_Kind e of
        ExprPayload \<Rightarrow> do { p \<leftarrow> e_Payload e; Some (match_payload pkt p regs a) }
      | ExprMeta \<Rightarrow> do { m \<leftarrow> e_Meta e; Some (match_meta pkt m regs a) }
      | ExprBitwise \<Rightarrow> do { b \<leftarrow> e_Bitwise e; Some (match_bitwise b regs a) }
      | ExprCt \<Rightarrow> do { c \<leftarrow> e_Ct e; Some (match_ct pkt c regs a) }
      | ExprLookup \<Rightarrow> do { lk \<leftarrow> e_Lookup e; Some (match_lookup lk sets regs a) }
      | ExprCmp \<Rightarrow> do { c \<leftarrow> e_Cmp e; Some (match_cmp c regs a) }
      | ExprImmediate \<Rightarrow> do { im \<leftarrow> e_Immediate e; Some (match_immediate im regs a) }
      | ExprNAT \<Rightarrow> do { n \<leftarrow> e_NAT e; Some (match_nat pkt n regs a) }
      | ExprFib \<Rightarrow> do { f \<leftarrow> e_Fib e; Some (match_fib pkt f regs a) }
      | ExprRange \<Rightarrow> do { rg \<leftarrow> e_Range e; Some (match_range rg regs a) }
      | ExprXt \<Rightarrow> do { x \<leftarrow> e_Xt e; match_xt pkt r i x regs a }
      | ExprVerdict \<Rightarrow>
          do { v \<leftarrow> e_Verdict e;
               Some (Next regs \<lparr>a_Kind = ve_Kind v, a_Chain = ve_Chain v, a_DNAT = None\<rparr>) }
      | ExprOther \<Rightarrow> Some (Next regs a)
      | ExprUnknown \<Rightarrow> Some (Stop OutcomeUnknown a)
      | ExprFuture k \<Rightarrow> Some (Stop OutcomeUnknown a))"

fun match_loop ::
  "packet \<Rightarrow> nft_set list \<Rightarrow> rule \<Rightarrow> nat \<Rightarrow> expr list \<Rightarrow> registers \<Rightarrow> action \<Rightarrow> (outcome \<times> action) panics" where
  "match_loop pkt sets r i [] regs a = Some (OutcomeMatch, a)"
| "match_loop pkt sets r i (e # es) regs a =
     do { s \<leftarrow> match_expr pkt sets r i e regs a;
          case s of
            Stop out a' \<Rightarrow> Some (out, a')
          | Next regs' a' \<Rightarrow> match_loop pkt sets r (Suc i) es regs' a' }"

definition MatchRule :: "packet \<Rightarrow> rule \<Rightarrow> nft_set list \<Rightarrow> (outcome \<times> action) panics" where
  "MatchRule pkt r sets = match_loop pkt sets r 0 (r_Exprs r) Map.empty none_action"

section \<open>Lemmas: totality\<close>

lemma match_loop_ConsE:
  assumes "match_loop pkt sets r i (e # es) regs a = Some (out, a')"
  obtains (Stop) b where "match_expr pkt sets r i e regs a = Some (Stop out b)" and "a' = b"
  | (Next) regs' b where "match_expr pkt sets r i e regs a = Some (Next regs' b)"
      and "match_loop pkt sets r (Suc i) es regs' b = Some (out, a')"
proof -
  obtain s where "match_expr pkt sets r i e regs a = Some s"
    using assms by (cases "match_expr pkt sets r i e regs a") auto
  with assms that show ?thesis by (cases s) auto
qed

lemmas step_defs = match_payload_def match_meta_def match_bitwise_def match_ct_def
  match_lookup_def match_cmp_def match_immediate_def match_nat_def match_fib_def match_range_def
  load_def

lemma wf_xt: "wf_expr e \<Longrightarrow> e_Kind e = ExprXt \<Longrightarrow> \<exists>x. e_Xt e = Some x"
  by (auto simp: wf_expr_def expr_missing_def)

lemma skippable_rest_total [nopanic]:
  "\<forall>e \<in> set es. wf_expr e \<Longrightarrow> skippable_rest pkt idx i es \<noteq> None"
proof (induction es arbitrary: i)
  case (Cons e es)
  show ?case
  proof (cases "e_Kind e = ExprXt")
    case True
    with Cons.prems obtain x where "e_Xt e = Some x"
      using wf_xt by fastforce
    with True Cons show ?thesis
      by (cases "xtExpr pkt x") (auto split: prod.splits)
  next
    case False
    with Cons show ?thesis by auto
  qed
qed simp

lemma skippable_total [nopanic]:
  "wf_rule r \<Longrightarrow> i < length (r_Exprs r) \<Longrightarrow> skippableUnresolvedMatch pkt r i \<noteq> None"
  using skippable_rest_total [of "r_Exprs r" pkt i 0]
  by (cases "e_Xt (r_Exprs r ! i)") (auto simp: skippableUnresolvedMatch_def wf_rule_def)

lemma match_xt_total:
  assumes "wf_rule r" and "i < length (r_Exprs r)"
  shows "match_xt pkt r i x regs a \<noteq> None"
proof -
  obtain b where "skippableUnresolvedMatch pkt r i = Some b"
    using skippable_total [OF assms] by blast
  then show ?thesis
    by (cases "xtExpr pkt x") (auto simp: match_xt_def)
qed

lemma match_expr_total [nopanic]:
  assumes "wf_expr e" and "wf_rule r" and "i < length (r_Exprs r)"
  shows "match_expr pkt sets r i e regs a \<noteq> None"
  using assms(1) match_xt_total [OF assms(2,3)]
  by (cases "e_Kind e") (auto simp: match_expr_def wf_expr_def expr_missing_def simp del: not_None_eq)

lemma match_loop_total:
  assumes "wf_rule r" and "\<forall>e \<in> set es. wf_expr e" and "i + length es = length (r_Exprs r)"
  shows "match_loop pkt sets r i es regs a \<noteq> None"
  using assms(2,3)
proof (induction es arbitrary: i regs a)
  case (Cons e es)
  obtain s where "match_expr pkt sets r i e regs a = Some s"
    using match_expr_total [of e r i pkt sets regs a] Cons.prems assms(1) by auto
  with Cons show ?case by (cases s) auto
qed simp

lemma MatchRule_total [nopanic]: "wf_rule r \<Longrightarrow> MatchRule pkt r sets \<noteq> None"
  unfolding MatchRule_def by (rule match_loop_total) (auto simp: wf_rule_def)

lemma MatchRule_cases [nopanic]:
  assumes "wf_rule r" obtains out a where "MatchRule pkt r sets = Some (out, a)"
  using MatchRule_total [OF assms, of pkt sets] by auto

section \<open>Lemmas: what a rule with an unreadable expression yields\<close>

definition opaque :: "expr \<Rightarrow> bool" where
  "opaque e \<longleftrightarrow> e_Kind e = ExprUnknown \<or> (\<exists>k. e_Kind e = ExprFuture k)"

lemma opaque_stops: "opaque e \<Longrightarrow> match_expr pkt sets r i e regs a = Some (Stop OutcomeUnknown a)"
  by (auto simp: opaque_def match_expr_def)

lemma skippable_rest_plain:
  "skippable_rest pkt idx i es = Some True \<Longrightarrow> j < length es \<Longrightarrow> i + j \<noteq> idx \<Longrightarrow>
   e_Kind (es ! j) \<in> {ExprPayload, ExprCmp, ExprMeta, ExprBitwise, ExprOther}
   \<or> (e_Kind (es ! j) = ExprXt \<and>
       (\<exists>x out a. e_Xt (es ! j) = Some x \<and> xtExpr pkt x = Some (out, a) \<and> a_Kind a = ''none''))"
proof (induction es arbitrary: i j)
  case (Cons e es)
  show ?case
  proof (cases j)
    case 0
    with Cons.prems show ?thesis
      by (cases "e_Xt e"; cases "xtExpr pkt (the (e_Xt e))") (auto split: if_splits)
  next
    case (Suc k)
    have "skippable_rest pkt idx (Suc i) es = Some True"
      using Cons.prems(1)
      by (cases "e_Xt e"; cases "xtExpr pkt (the (e_Xt e))") (auto split: if_splits)
    from Cons.IH [OF this, of k] Cons.prems Suc show ?thesis by simp
  qed
qed simp

text \<open>
  An expression that can never give its rule an action: the plain kinds, an \<open>xt\<close>
  match, and an \<open>xt\<close> target that resolves to no action.
\<close>

definition inert :: "packet \<Rightarrow> expr \<Rightarrow> bool" where
  "inert pkt e \<longleftrightarrow>
     e_Kind e \<in> {ExprPayload, ExprCmp, ExprMeta, ExprBitwise, ExprOther}
     \<or> (e_Kind e = ExprXt \<and>
         (\<forall>x out a. e_Xt e = Some x \<longrightarrow> xtExpr pkt x = Some (out, a) \<longrightarrow> a_Kind a = ''none''))"

lemma inert_xt_match: "e_Kind e = ExprXt \<Longrightarrow> e_Xt e = Some x \<Longrightarrow> xt_Kind x \<noteq> ''target'' \<Longrightarrow> inert pkt e"
  by (auto simp: inert_def dest: xtExpr_match_no_action)

lemma skippable_inert:
  assumes "skippableUnresolvedMatch pkt r idx = Some True"
    and "e_Kind (r_Exprs r ! idx) = ExprXt" and "e \<in> set (r_Exprs r)"
  shows "inert pkt e"
proof -
  obtain j where j: "j < length (r_Exprs r)" "e = r_Exprs r ! j"
    using assms(3) by (auto simp: in_set_conv_nth)
  obtain x where x: "e_Xt (r_Exprs r ! idx) = Some x" "xt_Kind x = ''match''"
    and rest: "skippable_rest pkt idx 0 (r_Exprs r) = Some True"
    using assms(1) by (auto simp: skippableUnresolvedMatch_def split: if_splits option.splits)
  show ?thesis
  proof (cases "j = idx")
    case True
    with x j assms(2) show ?thesis by (auto intro: inert_xt_match)
  next
    case False
    with skippable_rest_plain [OF rest, of j] j show ?thesis
      by (auto simp: inert_def)
  qed
qed

fun step_action :: "step \<Rightarrow> action" where
  "step_action (Stop out a) = a"
| "step_action (Next regs a) = a"

text \<open>The outcomes a step can end a rule with.\<close>

fun step_outcomes :: "step \<Rightarrow> outcome set" where
  "step_outcomes (Stop out a) = {out}"
| "step_outcomes (Next regs a) = {}"

definition plain_step :: "step \<Rightarrow> bool" where
  "plain_step s \<longleftrightarrow> step_outcomes s \<subseteq> {OutcomeUnknown, OutcomeNoMatch}"

lemma step_action_load [simp]: "step_action (load regs a n v) = a"
  by (cases v) (simp_all add: load_def)

lemma step_action_simple [simp]:
  "step_action (match_payload pkt p regs a) = a"
  "step_action (match_meta pkt m regs a) = a"
  "step_action (match_ct pkt c regs a) = a"
  "step_action (match_immediate im regs a) = a"
  "step_action (match_fib pkt f regs a) = a"
  by (simp_all add: match_payload_def match_meta_def match_ct_def match_immediate_def match_fib_def)

lemma step_action_bitwise [simp]: "step_action (match_bitwise b regs a) = a"
  by (auto simp: match_bitwise_def Let_def split: option.splits)

lemma step_action_cmp [simp]: "step_action (match_cmp c regs a) = a"
  by (auto simp: match_cmp_def split: option.splits)

lemma step_action_range [simp]: "step_action (match_range rg regs a) = a"
  by (auto simp: match_range_def Let_def split: option.splits)

lemma step_action_lookup [simp]: "step_action (match_lookup lk sets regs a) = a"
  by (auto simp: match_lookup_def split: option.splits)

lemma plain_step_load [simp]: "plain_step (load regs a n v)"
  by (cases v) (simp_all add: load_def plain_step_def)

lemma plain_step_simple [simp]:
  "plain_step (match_payload pkt p regs a)"
  "plain_step (match_meta pkt m regs a)"
  "plain_step (match_ct pkt c regs a)"
  "plain_step (match_immediate im regs a)"
  "plain_step (match_fib pkt f regs a)"
  by (simp_all add: match_payload_def match_meta_def match_ct_def match_immediate_def
      match_fib_def plain_step_def [of "Stop _ _"])

lemma plain_step_bitwise [simp]: "plain_step (match_bitwise b regs a)"
  by (auto simp: match_bitwise_def plain_step_def Let_def split: option.splits)

lemma plain_step_cmp [simp]: "plain_step (match_cmp c regs a)"
  by (auto simp: match_cmp_def plain_step_def Let_def split: option.splits)

lemma plain_step_range [simp]: "plain_step (match_range rg regs a)"
  by (auto simp: match_range_def plain_step_def Let_def split: option.splits)

lemma plain_step_lookup [simp]: "plain_step (match_lookup lk sets regs a)"
  by (auto simp: match_lookup_def plain_step_def Let_def split: option.splits)

lemma plain_step_nat [simp]: "plain_step (match_nat pkt n regs a)"
  by (auto simp: match_nat_def plain_step_def Let_def split: option.splits)

lemma match_xt_outcomes:
  "match_xt pkt r i x regs a = Some s \<Longrightarrow>
   plain_step s
   \<or> (s = Stop OutcomeSkipped a \<and> skippableUnresolvedMatch pkt r i = Some True)"
  by (cases "xtExpr pkt x") (auto simp: match_xt_def plain_step_def split: if_splits prod.splits)

text \<open>A step ends its rule without a match: undecided, not matching, or skipped.\<close>

lemma match_expr_outcomes:
  assumes "match_expr pkt sets r i e regs a = Some s"
  shows "plain_step s
    \<or> (s = Stop OutcomeSkipped a \<and> e_Kind e = ExprXt \<and> skippableUnresolvedMatch pkt r i = Some True)"
  using assms
proof (cases "e_Kind e = ExprXt")
  case True
  with assms show ?thesis
    by (auto simp: match_expr_def dest: match_xt_outcomes)
next
  case False
  with assms have "plain_step s"
    by (cases "e_Kind e") (auto simp: match_expr_def plain_step_def [of "Stop _ _"] plain_step_def [of "Next _ _"])
  then show ?thesis ..
qed

lemma match_xt_action:
  "match_xt pkt r i x regs a = Some s \<Longrightarrow>
   \<forall>out a'. xtExpr pkt x = Some (out, a') \<longrightarrow> a_Kind a' = ''none'' \<Longrightarrow> step_action s = a"
  by (cases "xtExpr pkt x") (auto simp: match_xt_def split: if_splits prod.splits)

lemma inert_step:
  assumes "inert pkt e" and "match_expr pkt sets r i e regs a = Some s"
  shows "step_action s = a"
proof (cases "e_Kind e = ExprXt")
  case True
  with assms show ?thesis
    by (auto simp: match_expr_def inert_def intro: match_xt_action)
next
  case False
  with assms show ?thesis
    by (auto simp: match_expr_def inert_def)
qed

lemma inert_loop:
  "\<forall>e \<in> set es. inert pkt e \<Longrightarrow> match_loop pkt sets r i es regs a = Some (out, a') \<Longrightarrow> a' = a"
proof (induction es arbitrary: i regs a)
  case (Cons e es)
  from Cons.prems(2) show ?case
  proof (cases rule: match_loop_ConsE)
    case (Stop b)
    with inert_step [of pkt e] Cons.prems(1) show ?thesis by fastforce
  next
    case (Next regs' b)
    with inert_step [of pkt e] Cons.prems(1) have "b = a" by fastforce
    with Cons.IH [OF _ Next(2)] Cons.prems(1) show ?thesis by simp
  qed
qed simp

text \<open>Where a skipped outcome comes from: an \<open>xt\<close> match of a rule of inert expressions.\<close>

lemma match_expr_skipped:
  "match_expr pkt sets r i e regs a = Some (Stop OutcomeSkipped a') \<Longrightarrow>
   e_Kind e = ExprXt \<and> skippableUnresolvedMatch pkt r i = Some True"
  using match_expr_outcomes [of pkt sets r i e regs a "Stop OutcomeSkipped a'"]
  by (auto simp: plain_step_def)

lemma match_loop_skipped:
  assumes "match_loop pkt sets r i es regs a = Some (OutcomeSkipped, a')"
    and "es = drop i (r_Exprs r)"
  shows "\<exists>j < length (r_Exprs r). e_Kind (r_Exprs r ! j) = ExprXt \<and>
           skippableUnresolvedMatch pkt r j = Some True"
  using assms
proof (induction es arbitrary: i regs a)
  case (Cons e es)
  then have i: "i < length (r_Exprs r)" "e = r_Exprs r ! i" "es = drop (Suc i) (r_Exprs r)"
    by (metis drop_all list.distinct(1) not_le_imp_less, metis nth_via_drop, metis drop_Suc tl_drop list.sel(3))
  from Cons.prems(1) show ?case
  proof (cases rule: match_loop_ConsE)
    case (Stop b)
    from match_expr_skipped [OF Stop(1)] i show ?thesis by auto
  next
    case (Next regs' b)
    from Cons.IH [OF Next(2) i(3)] show ?thesis .
  qed
qed simp

lemma MatchRule_skipped_inert:
  assumes "MatchRule pkt r sets = Some (OutcomeSkipped, a)" and "e \<in> set (r_Exprs r)"
  shows "inert pkt e"
  using match_loop_skipped [OF assms(1) [unfolded MatchRule_def]] assms(2)
  by (auto intro: skippable_inert)

lemma MatchRule_skipped_none:
  "MatchRule pkt r sets = Some (OutcomeSkipped, a) \<Longrightarrow> a = none_action"
  using inert_loop [of "r_Exprs r" pkt sets r 0 Map.empty none_action OutcomeSkipped a]
    MatchRule_skipped_inert [of pkt r sets a]
  by (simp add: MatchRule_def)

text \<open>A rule that matches has no opaque expression, and neither has a skipped one.\<close>

lemma match_loop_no_opaque:
  "match_loop pkt sets r i es regs a = Some (OutcomeMatch, a') \<Longrightarrow> e \<in> set es \<Longrightarrow> \<not> opaque e"
proof (induction es arbitrary: i regs a)
  case (Cons f fs)
  from Cons.prems(1) show ?case
  proof (cases rule: match_loop_ConsE)
    case (Stop b)
    with match_expr_outcomes [OF Stop(1)] show ?thesis by (auto simp: plain_step_def)
  next
    case (Next regs' b)
    then have "\<not> opaque f"
      using opaque_stops [of f] by auto
    with Cons.IH [OF Next(2)] Cons.prems(2) show ?thesis by auto
  qed
qed simp

lemma inert_not_opaque: "inert pkt e \<Longrightarrow> \<not> opaque e"
  by (auto simp: inert_def opaque_def)

end
