(* ===== verification/Match_Specs.thy ===== *)
theory Match_Specs
  imports Match
begin

text \<open>
  What the register programs of nftables mean to \<open>MatchRule\<close>: ordered comparisons are
  numeric, a port range is a range of ports, a subnet match is prefix containment in
  both encodings nft uses, a set lookup is membership, and the native and the
  iptables-nft spelling of a condition agree. The rules below are the shapes the
  collector writes for such a match; they are specification, not code.
\<close>

section \<open>Expressions as the collector writes them\<close>

definition payload_e :: "string \<Rightarrow> u32 \<Rightarrow> u32 \<Rightarrow> u32 \<Rightarrow> expr" where
  "payload_e base off len reg =
     (expr0 ExprPayload)\<lparr>e_Payload :=
        Some \<lparr>pl_DestRegister = reg, pl_Base = base, pl_Offset = off, pl_Len = len\<rparr>\<rparr>"

definition cmp_e :: "string \<Rightarrow> u32 \<Rightarrow> bytes \<Rightarrow> expr" where
  "cmp_e op reg data =
     (expr0 ExprCmp)\<lparr>e_Cmp := Some \<lparr>cm_Op = op, cm_Register = reg, cm_Data = hex_encode data\<rparr>\<rparr>"

definition range_e :: "string \<Rightarrow> u32 \<Rightarrow> bytes \<Rightarrow> bytes \<Rightarrow> expr" where
  "range_e op reg lo hi =
     (expr0 ExprRange)\<lparr>e_Range :=
        Some \<lparr>rg_Op = op, rg_Register = reg, rg_From = hex_encode lo, rg_To = hex_encode hi\<rparr>\<rparr>"

definition bitwise_e :: "u32 \<Rightarrow> bytes \<Rightarrow> expr" where
  "bitwise_e reg msk =
     (expr0 ExprBitwise)\<lparr>e_Bitwise :=
        Some \<lparr>bw_SourceRegister = reg, bw_DestRegister = reg, bw_Len = of_nat (length msk),
              bw_Mask = hex_encode msk, bw_Xor = []\<rparr>\<rparr>"

definition meta_e :: "string \<Rightarrow> u32 \<Rightarrow> expr" where
  "meta_e key reg = (expr0 ExprMeta)\<lparr>e_Meta := Some \<lparr>mt_Key = key, mt_Register = reg\<rparr>\<rparr>"

definition ct_e :: "string \<Rightarrow> u32 \<Rightarrow> expr" where
  "ct_e key reg = (expr0 ExprCt)\<lparr>e_Ct := Some \<lparr>ce_Key = key, ce_Register = reg\<rparr>\<rparr>"

definition fib_e :: "string \<Rightarrow> string \<Rightarrow> bool \<Rightarrow> u32 \<Rightarrow> expr" where
  "fib_e query src iif reg =
     (expr0 ExprFib)\<lparr>e_Fib :=
        Some \<lparr>fb_Query = query, fb_Register = reg, fb_Source = src, fb_MatchesIface = iif\<rparr>\<rparr>"

definition verdict_e :: "string \<Rightarrow> string \<Rightarrow> expr" where
  "verdict_e k c = (expr0 ExprVerdict)\<lparr>e_Verdict := Some \<lparr>ve_Kind = k, ve_Chain = c\<rparr>\<rparr>"

definition xt_e :: "xt_expr \<Rightarrow> expr" where
  "xt_e x = (expr0 ExprXt)\<lparr>e_Xt := Some x\<rparr>"

definition verdict_action :: "string \<Rightarrow> string \<Rightarrow> action" where
  "verdict_action k c = \<lparr>a_Kind = k, a_Chain = c, a_DNAT = None\<rparr>"

definition decided :: "bool \<Rightarrow> action \<Rightarrow> (outcome \<times> action) panics" where
  "decided b a = Some (if b then (OutcomeMatch, a) else (OutcomeNoMatch, none_action))"

lemmas e_shapes = payload_e_def cmp_e_def range_e_def bitwise_e_def meta_e_def ct_e_def fib_e_def
  verdict_e_def xt_e_def expr0_def

lemma match_expr_shapes [simp]:
  "match_expr pkt sets r i (payload_e base off len reg) regs a =
     Some (match_payload pkt \<lparr>pl_DestRegister = reg, pl_Base = base, pl_Offset = off, pl_Len = len\<rparr> regs a)"
  "match_expr pkt sets r i (cmp_e op reg data) regs a =
     Some (match_cmp \<lparr>cm_Op = op, cm_Register = reg, cm_Data = hex_encode data\<rparr> regs a)"
  "match_expr pkt sets r i (range_e op reg lo hi) regs a =
     Some (match_range \<lparr>rg_Op = op, rg_Register = reg, rg_From = hex_encode lo, rg_To = hex_encode hi\<rparr> regs a)"
  "match_expr pkt sets r i (bitwise_e reg msk) regs a =
     Some (match_bitwise \<lparr>bw_SourceRegister = reg, bw_DestRegister = reg, bw_Len = of_nat (length msk),
              bw_Mask = hex_encode msk, bw_Xor = []\<rparr> regs a)"
  "match_expr pkt sets r i (meta_e key reg) regs a =
     Some (match_meta pkt \<lparr>mt_Key = key, mt_Register = reg\<rparr> regs a)"
  "match_expr pkt sets r i (ct_e key reg) regs a =
     Some (match_ct pkt \<lparr>ce_Key = key, ce_Register = reg\<rparr> regs a)"
  "match_expr pkt sets r i (fib_e query src iif reg) regs a =
     Some (match_fib pkt \<lparr>fb_Query = query, fb_Register = reg, fb_Source = src, fb_MatchesIface = iif\<rparr> regs a)"
  "match_expr pkt sets r i (verdict_e k c) regs a = Some (Next regs (verdict_action k c))"
  "match_expr pkt sets r i (xt_e x) regs a = match_xt pkt r i x regs a"
  by (simp_all add: match_expr_def e_shapes verdict_action_def)

text \<open>A packet to evaluate examples on.\<close>

definition probe_packet :: packet where
  "probe_packet = \<lparr>p_Family = ''ip'', p_Proto = ''tcp'', p_Src = Addr4 0x01010101,
    p_Dst = Addr4 0x0a000001, p_SrcPort = 40000, p_DstPort = 22, p_InIface = ''eth0'', p_OutIface = [],
    p_CtState = ''new'', p_DstIsLocal = True, p_DNATApplied = False, p_SrcRouteDev = ''eth0'',
    p_InIfaceIndex = 2, p_OutIfaceIndex = 0\<rparr>"

section \<open>Comparisons\<close>

definition num_rel :: "string \<Rightarrow> nat \<Rightarrow> nat \<Rightarrow> bool" where
  "num_rel op x y =
     (if op = ''eq'' then x = y else if op = ''neq'' then x \<noteq> y
      else if op = ''gte'' then y \<le> x else if op = ''lte'' then x \<le> y
      else if op = ''gt'' then y < x else x < y)"

definition cmp_op :: "string \<Rightarrow> bool" where
  "cmp_op op \<longleftrightarrow> op \<in> set [''eq'', ''neq'', ''gte'', ''lte'', ''gt'', ''lt'']"

lemma be_nat_inj: "length a = length b \<Longrightarrow> be_nat a = be_nat b \<longleftrightarrow> a = b"
  using bytes_compare_be_nat [of a b] bytes_compare_eq_0 [of a b] by (auto split: if_splits)

lemma cmp_holds_num:
  "length x = length y \<Longrightarrow> cmp_op op \<Longrightarrow>
   cmp_holds op (bytes_compare x y) = Some (num_rel op (be_nat x) (be_nat y))"
  by (auto simp: cmp_op_def cmp_holds_def num_rel_def bytes_compare_be_nat)

lemma match_cmp_num:
  assumes "hex_decode (cm_Data c) = Some d" and "regs (cm_Register c) = Some reg"
    and "length d \<le> length reg" and "cmp_op (cm_Op c)"
  shows "match_cmp c regs a =
     (if num_rel (cm_Op c) (be_nat (take (length d) reg)) (be_nat d) then Next regs a
      else Stop OutcomeNoMatch a)"
  using assms cmp_holds_num [of "take (length d) reg" d "cm_Op c"]
  by (simp add: match_cmp_def)

lemma match_range_num:
  assumes "hex_decode (rg_From r) = Some lo" and "hex_decode (rg_To r) = Some hi"
    and "regs (rg_Register r) = Some reg" and "length lo = length hi" and "length lo \<le> length reg"
    and "rg_Op r = ''eq'' \<or> rg_Op r = ''neq''"
  shows "match_range r regs a =
     (let v = be_nat (take (length lo) reg); inside = (be_nat lo \<le> v \<and> v \<le> be_nat hi) in
      if inside = (rg_Op r = ''eq'') then Next regs a else Stop OutcomeNoMatch a)"
  using assms by (auto simp: match_range_def Let_def bytes_compare_be_nat)

section \<open>Ports\<close>

text \<open>
  \<open>tcp dport lo-hi\<close> and \<open>tcp dport != lo-hi\<close> of an inet table, with a verdict.
\<close>

definition dport_head :: "expr list" where
  "dport_head = [meta_e ''l4proto'' 1, cmp_e ''eq'' 1 [6], payload_e ''transport'' 2 2 1]"

definition dport_range_rule :: "u16 \<Rightarrow> u16 \<Rightarrow> string \<Rightarrow> string \<Rightarrow> rule" where
  "dport_range_rule lo hi k c =
     \<lparr>r_Handle = 1, r_Exprs = dport_head @
        [cmp_e ''gte'' 1 (be_put16 lo), cmp_e ''lte'' 1 (be_put16 hi), verdict_e k c]\<rparr>"

definition dport_not_range_rule :: "u16 \<Rightarrow> u16 \<Rightarrow> string \<Rightarrow> string \<Rightarrow> rule" where
  "dport_not_range_rule lo hi k c =
     \<lparr>r_Handle = 1, r_Exprs = dport_head @
        [range_e ''neq'' 1 (be_put16 lo) (be_put16 hi), verdict_e k c]\<rparr>"

lemma num_rel_simps [simp]:
  "num_rel ''eq'' x y \<longleftrightarrow> x = y" "num_rel ''neq'' x y \<longleftrightarrow> x \<noteq> y"
  "num_rel ''gte'' x y \<longleftrightarrow> y \<le> x" "num_rel ''lte'' x y \<longleftrightarrow> x \<le> y"
  by (simp_all add: num_rel_def)

lemma cmp_op_simps [simp]: "cmp_op ''eq''" "cmp_op ''neq''" "cmp_op ''gte''" "cmp_op ''lte''"
  by (simp_all add: cmp_op_def)

lemma match_cmp_e:
  "regs reg = Some v \<Longrightarrow> length d \<le> length v \<Longrightarrow> cmp_op op \<Longrightarrow>
   match_cmp \<lparr>cm_Op = op, cm_Register = reg, cm_Data = hex_encode d\<rparr> regs a =
     (if num_rel op (be_nat (take (length d) v)) (be_nat d) then Next regs a
      else Stop OutcomeNoMatch a)"
  by (subst match_cmp_num [where d = d and reg = v]) (simp_all add: hex_decode_encode)

lemma be_nat_single [simp]: "be_nat [b] = unat b"
  by (simp add: be_nat_def)

lemma match_l4proto_tcp:
  "match_loop pkt sets r i (meta_e ''l4proto'' 1 # cmp_e ''eq'' 1 [6] # es) regs a =
     (if p_Proto pkt = ''udp'' then Some (OutcomeNoMatch, a)
      else match_loop pkt sets r (i + 2) es (regs(1 \<mapsto> [6])) a)"
  by (simp add: match_meta_def metaAbsent_def metaBytes_def load_def match_cmp_e protoNumber_def)

lemma match_dport_load:
  "match_loop pkt sets r i (payload_e ''transport'' 2 2 1 # es) regs a =
     match_loop pkt sets r (Suc i) es (regs(1 \<mapsto> be_put16 (p_DstPort pkt))) a"
  by (simp add: match_payload_def payloadBytes_dport load_def)

text \<open>Supporting (dport_range_rule_matches): a \<open>tcp dport lo-hi\<close> rule, which nft compiles to two ordered
  comparisons on one register, matches exactly the TCP packets whose destination port is a
  number in the range, and then carries its verdict; any other packet it does not match.\<close>

theorem dport_range_rule_matches:
  "MatchRule pkt (dport_range_rule lo hi k c) sets =
     decided (p_Proto pkt \<noteq> ''udp'' \<and> unat lo \<le> unat (p_DstPort pkt) \<and> unat (p_DstPort pkt) \<le> unat hi)
       (verdict_action k c)"
  by (simp add: MatchRule_def dport_range_rule_def dport_head_def match_l4proto_tcp match_dport_load
      match_cmp_e decided_def del: match_loop.simps(2))
     (simp add: match_cmp_e)

text \<open>Supporting (dport_not_range_rule_matches): the negated range, which nft compiles to a range expression,
  matches exactly the TCP packets whose destination port is outside the range, so it is the
  complement of the positive form among TCP packets.\<close>

theorem dport_not_range_rule_matches:
  "MatchRule pkt (dport_not_range_rule lo hi k c) sets =
     decided (p_Proto pkt \<noteq> ''udp'' \<and> \<not> (unat lo \<le> unat (p_DstPort pkt) \<and> unat (p_DstPort pkt) \<le> unat hi))
       (verdict_action k c)"
  by (simp add: MatchRule_def dport_not_range_rule_def dport_head_def match_l4proto_tcp match_dport_load
      decided_def del: match_loop.simps(2))
     (simp add: match_range_num [where lo = "be_put16 lo" and hi = "be_put16 hi" and reg = "be_put16 (p_DstPort pkt)"]
        hex_decode_encode Let_def)

section \<open>Subnets\<close>

lemma nth_word_bytes:
  "i < n \<Longrightarrow> word_bytes n w ! i = ucast (drop_bit (8 * (n - Suc i)) w)"
  by (simp add: word_bytes_def)

lemma bit_word_bytes:
  "i < n \<Longrightarrow> j < 8 \<Longrightarrow> 8 * n \<le> LENGTH('a) \<Longrightarrow>
   bit (word_bytes n (w :: 'a::len word) ! i) j \<longleftrightarrow> bit w (8 * (n - Suc i) + j)"
  by (simp add: nth_word_bytes bit_ucast_iff bit_drop_bit_eq)

text \<open>Two addresses agree on their first \<open>k\<close> bytes when they agree on those bits.\<close>

lemma take_word_bytes_eq:
  fixes w v :: "'a::len word"
  assumes len: "LENGTH('a) = 8 * n" and "k \<le> n"
  shows "take k (word_bytes n w) = take k (word_bytes n v)
    \<longleftrightarrow> drop_bit (8 * (n - k)) w = drop_bit (8 * (n - k)) v"
proof
  assume eq: "take k (word_bytes n w) = take k (word_bytes n v)"
  show "drop_bit (8 * (n - k)) w = drop_bit (8 * (n - k)) v"
  proof (rule bit_eqI)
    fix m
    show "bit (drop_bit (8 * (n - k)) w) m = bit (drop_bit (8 * (n - k)) v) m"
    proof (cases "m < 8 * k")
      case True
      define i where "i = k - Suc (m div 8)"
      have div: "m div 8 < k" using True by simp
      then have i: "i < k" "i < n" using assms(2) by (auto simp: i_def)
      have pos: "8 * (n - Suc i) + m mod 8 = 8 * (n - k) + m"
        using div assms(2) by (simp add: i_def algebra_simps)
      have "take k (word_bytes n w) ! i = take k (word_bytes n v) ! i"
        using eq by simp
      then have "word_bytes n w ! i = word_bytes n v ! i"
        using i by simp
      then show ?thesis
        using bit_word_bytes [OF i(2), of "m mod 8" w] bit_word_bytes [OF i(2), of "m mod 8" v] len pos
        by (simp add: bit_drop_bit_eq)
    next
      case False
      then have "LENGTH('a) \<le> 8 * (n - k) + m"
        using assms by simp
      then show ?thesis
        by (auto simp: bit_drop_bit_eq dest: bit_imp_le_length)
    qed
  qed
next
  assume eq: "drop_bit (8 * (n - k)) w = drop_bit (8 * (n - k)) v"
  show "take k (word_bytes n w) = take k (word_bytes n v)"
  proof (rule nth_equalityI)
    fix i assume "i < length (take k (word_bytes n w))"
    then have i: "i < k" "i < n" by simp_all
    have "word_bytes n w ! i = word_bytes n v ! i"
    proof (rule bit_eqI)
      fix j
      show "bit (word_bytes n w ! i) j = bit (word_bytes n v ! i) j"
      proof (cases "j < 8")
        case True
        obtain d where d: "8 * (n - Suc i) + j = 8 * (n - k) + d"
        proof
          show "8 * (n - Suc i) + j = 8 * (n - k) + (8 * (k - Suc i) + j)"
            using i assms(2) by simp
        qed
        have "bit (drop_bit (8 * (n - k)) w) d = bit (drop_bit (8 * (n - k)) v) d"
          using eq by simp
        then show ?thesis
          using True i len d by (simp add: bit_word_bytes bit_drop_bit_eq)
      next
        case False
        then show ?thesis by (auto dest: bit_imp_le_length)
      qed
    qed
    with i show "take k (word_bytes n w) ! i = take k (word_bytes n v) ! i" by simp
  qed simp
qed

lemma word_bytes_and:
  "map (\<lambda>i. word_bytes n w ! i AND word_bytes n m ! i) [0..<n] = word_bytes n (w AND m)"
  by (rule nth_equalityI) (simp_all add: nth_word_bytes drop_bit_and unsigned_and_eq)

lemma word_bytes_inj:
  "LENGTH('a) = 8 * n \<Longrightarrow> word_bytes n (w :: 'a::len word) = word_bytes n v \<longleftrightarrow> w = v"
  using take_word_bytes_eq [of n n w v] by simp

lemma word_xor_eq_0: "(a :: 'a::len word) XOR b = 0 \<longleftrightarrow> a = b"
  by (auto simp: bit_eq_iff bit_xor_iff)

text \<open>The network mask of \<open>n\<close> leading bits.\<close>

definition net_mask :: "nat \<Rightarrow> 32 word" where
  "net_mask n = NOT (Bit_Operations.mask (32 - n))"

lemma masked_eq:
  assumes "n \<le> 32" and "net AND net_mask n = net"
  shows "src AND net_mask n = net \<longleftrightarrow> drop_bit (32 - n) (net XOR src) = 0"
proof -
  have bits: "bit net j \<Longrightarrow> 32 - n \<le> j" for j
    using assms(2) by (metis bit_and_iff bit_mask_iff bit_not_iff net_mask_def not_le_imp_less
        bit_imp_le_length)
  have "src AND net_mask n = net \<longleftrightarrow> (\<forall>j < 32. (bit src j \<and> 32 - n \<le> j) = bit net j)"
    by (auto simp: bit_eq_iff bit_and_iff bit_not_iff bit_mask_iff net_mask_def dest: bit_imp_le_length)
  also have "\<dots> \<longleftrightarrow> (\<forall>j < 32. 32 - n \<le> j \<longrightarrow> bit src j = bit net j)"
    using bits by blast
  also have "\<dots> \<longleftrightarrow> drop_bit (32 - n) (net XOR src) = 0"
  proof
    assume all: "\<forall>j < 32. 32 - n \<le> j \<longrightarrow> bit src j = bit net j"
    show "drop_bit (32 - n) (net XOR src) = 0"
    proof (rule bit_eqI)
      fix m
      show "bit (drop_bit (32 - n) (net XOR src)) m = bit 0 m"
        using all by (cases "32 - n + m < 32") (auto simp: bit_drop_bit_eq bit_xor_iff dest: bit_imp_le_length)
    qed
  next
    assume z: "drop_bit (32 - n) (net XOR src) = 0"
    show "\<forall>j < 32. 32 - n \<le> j \<longrightarrow> bit src j = bit net j"
    proof (intro allI impI)
      fix j :: nat assume "j < 32" and "32 - n \<le> j"
      then have "\<not> bit (drop_bit (32 - n) (net XOR src)) (j - (32 - n))"
        using z by simp
      with \<open>32 - n \<le> j\<close> show "bit src j = bit net j"
        by (auto simp: bit_drop_bit_eq bit_xor_iff)
    qed
  qed
  finally show ?thesis .
qed

text \<open>
  \<open>ip saddr net/n\<close>: nft loads the whole address and masks it, or, when \<open>n\<close> is a
  multiple of eight, loads only the leading bytes.
\<close>

definition saddr_masked_rule :: "32 word \<Rightarrow> nat \<Rightarrow> string \<Rightarrow> string \<Rightarrow> rule" where
  "saddr_masked_rule net n k c =
     \<lparr>r_Handle = 1, r_Exprs = [payload_e ''network'' 12 4 1, bitwise_e 1 (word_bytes 4 (net_mask n)),
        cmp_e ''eq'' 1 (word_bytes 4 net), verdict_e k c]\<rparr>"

definition saddr_bytes_rule :: "32 word \<Rightarrow> nat \<Rightarrow> string \<Rightarrow> string \<Rightarrow> rule" where
  "saddr_bytes_rule net j k c =
     \<lparr>r_Handle = 1, r_Exprs = [payload_e ''network'' 12 (of_nat j) 1,
        cmp_e ''eq'' 1 (take j (word_bytes 4 net)), verdict_e k c]\<rparr>"

lemma match_bitwise_e:
  assumes "regs reg = Some v" and "length v = length m"
  shows "match_bitwise \<lparr>bw_SourceRegister = reg, bw_DestRegister = reg, bw_Len = l,
      bw_Mask = hex_encode m, bw_Xor = []\<rparr> regs a =
    Next (regs(reg \<mapsto> map (\<lambda>i. v ! i AND m ! i) [0..<length m])) a"
proof -
  have "map (\<lambda>i. (v ! i AND m ! i) XOR replicate (length m) 0 ! i) [0..<length m]
      = map (\<lambda>i. v ! i AND m ! i) [0..<length m]"
    by (rule map_cong) simp_all
  then show ?thesis
    using assms by (simp add: match_bitwise_def hex_decode_encode Let_def del: map_eq_conv)
qed

lemma match_cmp_bytes:
  "regs reg = Some v \<Longrightarrow> length v = length d \<Longrightarrow>
   match_cmp \<lparr>cm_Op = ''eq'', cm_Register = reg, cm_Data = hex_encode d\<rparr> regs a =
     (if v = d then Next regs a else Stop OutcomeNoMatch a)"
  by (simp add: match_cmp_e be_nat_inj)

lemma match_saddr_load:
  assumes "p_Family pkt = ''ip''" and "p_Src pkt = Addr4 src" and "0 < j" and "j \<le> 4"
  shows "match_payload pkt \<lparr>pl_DestRegister = reg, pl_Base = ''network'', pl_Offset = 12,
      pl_Len = of_nat j\<rparr> regs a = Next (regs(reg \<mapsto> take j (word_bytes 4 src))) a"
proof -
  have u: "unat (of_nat j :: u32) = j"
    using assms(4) by (simp add: unsigned_of_nat take_bit_nat_eq_self)
  then have "0 < (of_nat j :: u32)" "(of_nat j :: u32) \<le> 4"
    using assms(3,4) by (simp_all add: word_less_nat_alt word_le_nat_alt)
  with assms u show ?thesis
    by (simp add: match_payload_def load_def payloadBytes_saddr4 [where w = src])
qed

text \<open>C12 (saddr_masked_rule_matches): an \<open>ip saddr net/n\<close> rule in its masked form (load four
  bytes, mask, compare) matches an IPv4 packet exactly when \<open>netip\<close>'s prefix \<open>net/n\<close>
  contains the packet's source.\<close>

theorem saddr_masked_rule_matches:
  assumes "p_Family pkt = ''ip''" and "p_Src pkt = Addr4 src"
    and "n \<le> 32" and "net AND net_mask n = net"
  shows "MatchRule pkt (saddr_masked_rule net n k c) sets =
    decided (prefix_Contains (PrefixFrom (Addr4 net) (int n)) (p_Src pkt)) (verdict_action k c)"
proof -
  have load4: "match_payload pkt \<lparr>pl_DestRegister = 1, pl_Base = ''network'', pl_Offset = 12,
      pl_Len = 4\<rparr> regs a = Next (regs(1 \<mapsto> word_bytes 4 src)) a" for regs a
    using match_saddr_load [OF assms(1,2), of 4 1 regs a] by simp
  show ?thesis
    using assms masked_eq [OF assms(3,4), of src]
    by (simp add: MatchRule_def saddr_masked_rule_def load4 match_bitwise_e word_bytes_and match_cmp_bytes
        word_bytes_inj decided_def prefix_Contains_def PrefixFrom_def)
qed

theorem saddr_masked_rule_matches_witness:
  "\<exists>pkt. p_Src pkt = Addr4 0x0a010203 \<and>
     MatchRule pkt (saddr_masked_rule 0x0a000000 8 ''accept'' []) [] =
       Some (OutcomeMatch, verdict_action ''accept'' [])"
proof -
  define pkt where "pkt = \<lparr>p_Family = ''ip'', p_Proto = ''tcp'', p_Src = Addr4 0x0a010203,
    p_Dst = Addr4 0, p_SrcPort = 1, p_DstPort = 2, p_InIface = [], p_OutIface = [],
    p_CtState = ''new'', p_DstIsLocal = True, p_DNATApplied = False, p_SrcRouteDev = [],
    p_InIfaceIndex = 0, p_OutIfaceIndex = 0\<rparr>"
  have "MatchRule pkt (saddr_masked_rule 0x0a000000 8 ''accept'' []) [] =
      decided (prefix_Contains (PrefixFrom (Addr4 0x0a000000) (int 8)) (p_Src pkt)) (verdict_action ''accept'' [])"
    by (rule saddr_masked_rule_matches) (simp_all add: pkt_def net_mask_def mask_eq_exp_minus_1)
  then show ?thesis
    by (intro exI [of _ pkt]) (simp add: pkt_def decided_def prefix_Contains_def PrefixFrom_def)
qed

text \<open>Supporting (saddr_forms_agree): the two encodings nft chooses between for a byte-aligned prefix,
  the masked load and the load of the leading bytes only, give the same result for every
  IPv4 packet.\<close>

theorem saddr_forms_agree:
  assumes "p_Family pkt = ''ip''" and "p_Src pkt = Addr4 src"
    and "0 < j" and "j \<le> 4" and "net AND net_mask (8 * j) = net"
  shows "MatchRule pkt (saddr_bytes_rule net j k c) sets =
    MatchRule pkt (saddr_masked_rule net (8 * j) k c) sets"
proof -
  have load4: "match_payload pkt \<lparr>pl_DestRegister = 1, pl_Base = ''network'', pl_Offset = 12,
      pl_Len = 4\<rparr> regs a = Next (regs(1 \<mapsto> word_bytes 4 src)) a" for regs a
    using match_saddr_load [OF assms(1,2), of 4 1 regs a] by simp
  have "drop_bit (8 * (4 - j)) src = drop_bit (8 * (4 - j)) net
      \<longleftrightarrow> drop_bit (32 - 8 * j) (net XOR src) = 0"
    by (auto simp: drop_bit_xor word_xor_eq_0 algebra_simps)
  then have "(take j (word_bytes 4 src) = take j (word_bytes 4 net)) = (src AND net_mask (8 * j) = net)"
    using take_word_bytes_eq [of 4 j src net] masked_eq [of "8 * j" net src] assms(4,5) by simp
  with assms show ?thesis
    by (simp add: MatchRule_def saddr_masked_rule_def saddr_bytes_rule_def load4 match_saddr_load
        match_bitwise_e word_bytes_and match_cmp_bytes word_bytes_inj)
qed

theorem saddr_forms_agree_witness:
  "\<exists>pkt. p_Family pkt = ''ip'' \<and> p_Src pkt = Addr4 0x0a010203 \<and>
     MatchRule pkt (saddr_bytes_rule 0x0a000000 1 ''accept'' []) [] =
     MatchRule pkt (saddr_masked_rule 0x0a000000 8 ''accept'' []) []"
proof -
  define pkt where "pkt = \<lparr>p_Family = ''ip'', p_Proto = ''tcp'', p_Src = Addr4 0x0a010203,
    p_Dst = Addr4 0, p_SrcPort = 1, p_DstPort = 2, p_InIface = [], p_OutIface = [],
    p_CtState = ''new'', p_DstIsLocal = True, p_DNATApplied = False, p_SrcRouteDev = [],
    p_InIfaceIndex = 0, p_OutIfaceIndex = 0\<rparr>"
  have "MatchRule pkt (saddr_bytes_rule 0x0a000000 1 ''accept'' []) [] =
      MatchRule pkt (saddr_masked_rule 0x0a000000 (8 * 1) ''accept'' []) []"
    by (rule saddr_forms_agree) (simp_all add: pkt_def net_mask_def mask_eq_exp_minus_1)
  then show ?thesis
    by (intro exI [of _ pkt]) (simp add: pkt_def)
qed

section \<open>Sets\<close>

text \<open>
  The elements the kernel lists for an interval set, in any order: one element for each
  bound, and possibly the zero-keyed end below the first interval.
\<close>

definition element_of :: "bytes \<times> bool \<Rightarrow> set_element" where
  "element_of b = \<lparr>se_Key = hex_encode (fst b), se_Val = [], se_KeyEnd = [], se_IntervalEnd = snd b\<rparr>"

definition interval_set :: "u32 \<Rightarrow> (bytes \<times> bool) list \<Rightarrow> nft_set" where
  "interval_set n bs =
     \<lparr>st_Name = [], st_Anonymous = True, st_ID = n, st_Interval = True, st_IsMap = False,
      st_Concatenation = False, st_Elements = map element_of bs\<rparr>"

definition flat_set :: "u32 \<Rightarrow> bytes list \<Rightarrow> nft_set" where
  "flat_set n ks =
     \<lparr>st_Name = [], st_Anonymous = True, st_ID = n, st_Interval = False, st_IsMap = False,
      st_Concatenation = False, st_Elements = map (\<lambda>k. element_of (k, False)) ks\<rparr>"

definition set_ref :: "u32 \<Rightarrow> u32 \<Rightarrow> bool \<Rightarrow> lookup_expr" where
  "set_ref reg n neg =
     \<lparr>lk_SourceRegister = reg, lk_Set = [], lk_SetID = n, lk_Invert = neg, lk_IsDestRegSet = False\<rparr>"

lemma set_keys_elements:
  "(\<forall>b \<in> set bs. length (fst b) = n) \<Longrightarrow> kl = None \<or> kl = Some n \<Longrightarrow>
   set_keys kl (map element_of bs) = Some (bs, if bs = [] then kl else Some n)"
  by (induction bs arbitrary: kl) (auto simp: element_of_def hex_decode_encode)

lemma bounds_sorted_id:
  assumes "sorted_wrt (\<lambda>a b. be_nat (fst a) < be_nat (fst b)) bs"
    and "\<forall>b \<in> set bs. length (fst b) = n" and "mset bs' = mset bs"
  shows "slice_stable bound_less bs' = bs"
proof -
  have less: "bound_less a b \<longleftrightarrow> be_nat (fst a) < be_nat (fst b)" if "a \<in> set bs" "b \<in> set bs" for a b
    using that assms(2) by (simp add: bound_less_def bytes_compare_be_nat)
  have "sorted_wrt (\<lambda>a b. \<not> bound_less b a) bs"
    using assms(1) by (rule sorted_wrt_mono_rel [rotated]) (auto simp: less)
  moreover have "a = b" if "a \<in> set bs" "b \<in> set bs" "bounds.same a b" for a b
  proof -
    have "distinct (map (be_nat \<circ> fst) bs)"
      using assms(1) by (induction bs) auto
    then have "inj_on (be_nat \<circ> fst) (set bs)"
      by (simp add: distinct_map)
    moreover have "be_nat (fst a) = be_nat (fst b)"
      using that(3) by (simp add: bounds_same)
    ultimately show ?thesis
      using that(1,2) by (simp add: inj_on_def)
  qed
  ultimately show ?thesis
    using bounds.slice_stable_order_free [of bs bs'] bounds.slice_stable_id [of bs] assms(3) by simp
qed

text \<open>The sentinel end below the first interval opens and closes nothing.\<close>

lemma interval_sweep_sentinel:
  "interval_sweep v None m ((k, True) # bs) = interval_sweep v None m bs"
  by simp

definition with_sentinel :: "bytes option \<Rightarrow> (bytes \<times> bool) list \<Rightarrow> (bytes \<times> bool) list" where
  "with_sentinel z bs = (case z of None \<Rightarrow> bs | Some k \<Rightarrow> (k, True) # bs)"

text \<open>C11 (interval_lookup_membership): a lookup in an interval set answers whether the register
  lies in the union of the set's half-open intervals (the last one possibly running to the top
  of the key space), whatever order the kernel returned the bounds in and with or without the
  zero-keyed sentinel; an inverted lookup answers the opposite.\<close>

theorem interval_lookup_membership:
  assumes "sorted_wrt (\<lambda>a b. be_nat (fst a) < be_nat (fst b)) (with_sentinel z (interval_bounds ivs))"
    and "\<forall>b \<in> set (with_sentinel z (interval_bounds ivs)). length (fst b) = n"
    and "open_last ivs" and "ivs \<noteq> []" and "n \<le> length reg" and "ident \<noteq> 0"
    and "mset bs = mset (with_sentinel z (interval_bounds ivs))"
  shows "lookupMatch reg (set_ref src ident neg) [interval_set ident bs] =
    Some ((\<exists>i \<in> set ivs. in_interval (take n reg) i) \<noteq> neg)"
proof -
  let ?all = "with_sentinel z (interval_bounds ivs)"
  have sorted: "slice_stable bound_less bs = ?all"
    by (rule bounds_sorted_id [OF assms(1,2,7)])
  have "interval_bounds ivs \<noteq> []"
    using assms(4) by (cases ivs rule: interval_bounds.cases) auto
  then have "?all \<noteq> []"
    by (auto simp: with_sentinel_def split: option.splits)
  then have ne: "bs \<noteq> []"
    using assms(7) by auto
  have "\<forall>b \<in> set bs. length (fst b) = n"
    using assms(2,7) by (metis mset_eq_setD)
  from set_keys_elements [OF this, of None] ne
  have keys: "set_keys None (map element_of bs) = Some (bs, Some n)" by simp
  have "interval_sweep (take n reg) None False ?all = interval_sweep (take n reg) None False (interval_bounds ivs)"
    by (simp add: with_sentinel_def split: option.split)
  also have "\<dots> = Some (\<exists>i \<in> set ivs. in_interval (take n reg) i)"
    using interval_sweep_bounds [OF assms(3), of "take n reg" False] assms(2,5)
    by (auto simp: with_sentinel_def split: option.splits)
  finally show ?thesis
    using assms(5,6) ne keys sorted
    by (simp add: lookupMatch_def set_ref_def interval_set_def set_named_def intervalMatch_def)
qed

theorem interval_lookup_membership_witness:
  "lookupMatch [0x1f, 0x91] (set_ref 1 7 False)
     [interval_set 7 [([0x1f, 0x92], True), ([0, 0], True), ([0x1f, 0x90], False)]] = Some True"
proof -
  have "lookupMatch [0x1f, 0x91] (set_ref 1 7 False)
     [interval_set 7 [([0x1f, 0x92], True), ([0, 0], True), ([0x1f, 0x90], False)]]
     = Some ((\<exists>i \<in> set [([0x1f, 0x90], Some [0x1f, 0x92])]. in_interval (take 2 [0x1f, 0x91]) i) \<noteq> False)"
    by (rule interval_lookup_membership [where z = "Some [0, 0]"])
      (simp_all add: with_sentinel_def be_nat_def)
  then show ?thesis by (simp add: in_interval_def be_nat_def)
qed

text \<open>Supporting (flat_lookup_membership): a lookup in a plain set answers whether the register equals one
  of its keys, of which there is at least one and all of one length.\<close>

theorem flat_lookup_membership:
  assumes "\<forall>k \<in> set ks. length k = n" and "ks \<noteq> []" and "n \<le> length reg" and "ident \<noteq> 0"
  shows "lookupMatch reg (set_ref src ident neg) [flat_set ident ks] =
    Some ((take n reg \<in> set ks) \<noteq> neg)"
proof -
  have "set_keys None (map element_of (map (\<lambda>k. (k, False)) ks)) =
      Some (map (\<lambda>k. (k, False)) ks, Some n)"
    using set_keys_elements [of "map (\<lambda>k. (k, False)) ks" n None] assms(1,2) by auto
  then have keys: "set_keys None (map (\<lambda>k. element_of (k, False)) ks) =
      Some (map (\<lambda>k. (k, False)) ks, Some n)"
    by (simp add: comp_def)
  have mem: "list_ex (\<lambda>(key, _). take n reg = key) (map (\<lambda>k. (k, False)) ks) \<longleftrightarrow> take n reg \<in> set ks"
    by (auto simp: list_ex_iff)
  show ?thesis
    using assms(2-4) keys mem
    by (auto simp: lookupMatch_def set_ref_def flat_set_def set_named_def Let_def)
qed

theorem flat_lookup_membership_witness:
  "lookupMatch [0, 22] (set_ref 1 7 True) [flat_set 7 [[0, 80], [1, 187]]] = Some True"
  using flat_lookup_membership [of "[[0, 80], [1, 187]]" 2 "[0, 22]" 7 1 True] by simp

section \<open>Expressions that must not be read past\<close>

text \<open>C10 (opaque_never_matches): a rule holding an expression without a decoder, or of a kind this
  build does not know, is never reported as matching and never skipped, wherever the expression
  stands: nothing behind it takes effect.\<close>

theorem opaque_never_matches:
  assumes "MatchRule pkt r sets = Some (out, a)" and "e \<in> set (r_Exprs r)" and "opaque e"
  shows "out = OutcomeUnknown \<or> out = OutcomeNoMatch"
proof -
  have "out \<noteq> OutcomeMatch"
    using match_loop_no_opaque [of pkt sets r 0 "r_Exprs r"] assms by (auto simp: MatchRule_def)
  moreover have "out \<noteq> OutcomeSkipped"
    using MatchRule_skipped_inert inert_not_opaque assms by blast
  ultimately show ?thesis by (cases out) auto
qed

definition opaque_rule :: rule where
  "opaque_rule = \<lparr>r_Handle = 1, r_Exprs = [expr0 ExprUnknown, verdict_e ''drop'' []]\<rparr>"

theorem opaque_never_matches_witness:
  "MatchRule probe_packet opaque_rule [] = Some (OutcomeUnknown, none_action)
   \<and> (OutcomeUnknown = OutcomeUnknown \<or> OutcomeUnknown = OutcomeNoMatch)"
proof -
  have m: "MatchRule probe_packet opaque_rule [] = Some (OutcomeUnknown, none_action)"
    by (simp add: MatchRule_def opaque_rule_def match_expr_def expr0_def)
  have "OutcomeUnknown = OutcomeUnknown \<or> OutcomeUnknown = OutcomeNoMatch"
    by (rule opaque_never_matches [OF m, of "expr0 ExprUnknown"])
      (simp_all add: opaque_rule_def opaque_def expr0_def)
  with m show ?thesis by blast
qed

text \<open>Supporting (skipped_decides_nothing): when a rule is skipped because of an \<open>xt\<close> match that cannot be
  resolved, no answer of any unresolved match could have given the rule an effect: every
  rule that differs only in the content of its \<open>xt\<close> matches also ends without an action.\<close>

theorem skipped_decides_nothing:
  assumes "MatchRule pkt r sets = Some (OutcomeSkipped, a)"
    and "length (r_Exprs r') = length (r_Exprs r)"
    and "\<forall>j < length (r_Exprs r). r_Exprs r' ! j = r_Exprs r ! j
      \<or> (e_Kind (r_Exprs r' ! j) = ExprXt \<and> (\<exists>x. e_Xt (r_Exprs r' ! j) = Some x \<and> xt_Kind x \<noteq> ''target''))"
    and "MatchRule pkt r' sets = Some (out, a')"
  shows "a = none_action \<and> a' = none_action"
proof
  show "a = none_action"
    using assms(1) by (rule MatchRule_skipped_none)
  have "inert pkt e" if e: "e \<in> set (r_Exprs r')" for e
  proof -
    obtain j where j: "j < length (r_Exprs r)" "e = r_Exprs r' ! j"
      using e assms(2) by (auto simp: in_set_conv_nth)
    show ?thesis
    proof (cases "e = r_Exprs r ! j")
      case True
      with j have "e \<in> set (r_Exprs r)" by (metis nth_mem)
      with assms(1) show ?thesis by (rule MatchRule_skipped_inert)
    next
      case False
      with assms(3) j show ?thesis by (auto intro: inert_xt_match)
    qed
  qed
  with assms(4) show "a' = none_action"
    using inert_loop [of "r_Exprs r'" pkt sets r' 0 Map.empty none_action out a']
    by (auto simp: MatchRule_def)
qed

definition xt_match_named :: "string \<Rightarrow> xt_expr" where
  "xt_match_named n = \<lparr>xt_Kind = ''match'', xt_Name = n, xt_Rev = 0, xt_Decoded = True, xt_DNAT = None,
     xt_Conntrack = None, xt_AddrType = None, xt_Recent = None, xt_Raw = []\<rparr>"

theorem skipped_decides_nothing_witness:
  "MatchRule probe_packet \<lparr>r_Handle = 1, r_Exprs = [xt_e (xt_match_named ''owner'')]\<rparr> [] = Some (OutcomeSkipped, none_action)
   \<and> MatchRule probe_packet \<lparr>r_Handle = 1, r_Exprs = [xt_e (xt_match_named ''rt'')]\<rparr> [] = Some (OutcomeNoMatch, none_action)
   \<and> none_action = act ''none''"
proof -
  let ?r = "\<lparr>r_Handle = 1, r_Exprs = [xt_e (xt_match_named ''owner'')]\<rparr> :: rule"
  let ?r' = "\<lparr>r_Handle = 1, r_Exprs = [xt_e (xt_match_named ''rt'')]\<rparr> :: rule"
  have 1: "MatchRule probe_packet ?r [] = Some (OutcomeSkipped, act ''none'')"
    by (simp add: MatchRule_def match_xt_def xt_match_named_def xtExpr_def skippableUnresolvedMatch_def
        xt_e_def expr0_def match_expr_def)
  have 2: "MatchRule probe_packet ?r' [] = Some (OutcomeNoMatch, act ''none'')"
    by (simp add: MatchRule_def match_xt_def xt_match_named_def xtExpr_def
        xt_e_def expr0_def match_expr_def hit_outcome_def)
  have "act ''none'' = none_action \<and> act ''none'' = none_action"
    by (rule skipped_decides_nothing [OF 1 _ _ 2]) (simp_all add: xt_e_def expr0_def xt_match_named_def)
  with 1 2 show ?thesis by simp
qed

section \<open>Routes\<close>

text \<open>Supporting (fib_missing_never_matches): a reverse-path rule that asks for a missing route (firewalld's
  \<open>fib saddr . iif oif missing drop\<close>) never matches, whatever the captured routes, the packet and
  the rest of the rule: whyopen never reports a port closed on the strength of its routing table.\<close>

theorem fib_missing_never_matches:
  assumes "1 \<le> n" and "n \<le> 4"
    and "r_Exprs r = fib_e ''oif-present'' src iif reg # cmp_e ''eq'' reg (replicate n 0) # es"
    and "MatchRule pkt r sets = Some (out, a)"
  shows "(out = OutcomeUnknown \<or> out = OutcomeNoMatch) \<and> a = none_action"
proof -
  have "take n (le_put32 1) = 1 # take (n - 1) [0, 0, 0]"
    using assms(1) by (cases n) (simp_all add: le_put32_def)
  then have ne: "take n (le_put32 1) \<noteq> replicate n 0"
    using assms(1) by (cases n) simp_all
  let ?f = "\<lparr>fb_Query = ''oif-present'', fb_Register = reg, fb_Source = src, fb_MatchesIface = iif\<rparr> :: fib_expr"
  show ?thesis
  proof (cases "fibBytes pkt ?f")
    case None
    with assms(3,4) show ?thesis by (simp add: MatchRule_def match_fib_def load_def)
  next
    case (Some b)
    then have "b = le_put32 1" by (auto dest: fibBytes_present [rotated])
    with Some assms ne show ?thesis
      by (simp add: MatchRule_def match_fib_def load_def match_cmp_e be_nat_inj)
  qed
qed

theorem fib_missing_never_matches_witness:
  "MatchRule probe_packet \<lparr>r_Handle = 1, r_Exprs =
      [fib_e ''oif-present'' ''saddr'' True 1, cmp_e ''eq'' 1 [0], verdict_e ''drop'' []]\<rparr> []
     = Some (OutcomeNoMatch, none_action)
   \<and> (OutcomeNoMatch = OutcomeUnknown \<or> OutcomeNoMatch = OutcomeNoMatch)"
proof -
  let ?r = "\<lparr>r_Handle = 1, r_Exprs =
      [fib_e ''oif-present'' ''saddr'' True 1, cmp_e ''eq'' 1 [0], verdict_e ''drop'' []]\<rparr> :: rule"
  have m: "MatchRule probe_packet ?r [] = Some (OutcomeNoMatch, none_action)"
    by (simp add: MatchRule_def match_fib_def load_def fibBytes_def probe_packet_def match_cmp_e
        be_nat_def le_put32_def)
  have "(OutcomeNoMatch = OutcomeUnknown \<or> OutcomeNoMatch = OutcomeNoMatch) \<and> none_action = none_action"
    by (rule fib_missing_never_matches [where n = 1 and r = ?r, OF _ _ _ m]) simp_all
  with m show ?thesis by simp
qed

section \<open>Native and iptables-nft spellings agree\<close>

definition xt_addrtype_local :: xt_expr where
  "xt_addrtype_local = (xt_match_named ''addrtype'')\<lparr>xt_AddrType :=
     Some \<lparr>ai_DestTypes = [''local''], ai_SourceTypes = [], ai_InvertDest = False, ai_InvertSource = False\<rparr>\<rparr>"

text \<open>Supporting (addrtype_forms_agree): \<open>fib daddr type local\<close> and the iptables-nft match
  \<open>addrtype --dst-type LOCAL\<close> decide every packet alike, with any verdict behind them.\<close>

theorem addrtype_forms_agree:
  "MatchRule pkt \<lparr>r_Handle = h, r_Exprs =
       [fib_e ''addrtype'' ''daddr'' False 1, cmp_e ''eq'' 1 (le_put32 rtnLocalValue), verdict_e k c]\<rparr> sets =
   MatchRule pkt \<lparr>r_Handle = h, r_Exprs = [xt_e xt_addrtype_local, verdict_e k c]\<rparr> sets"
proof -
  have "le_put32 rtnUnicastValue \<noteq> le_put32 rtnLocalValue"
    by (simp add: le_put32_def rtnUnicastValue_def rtnLocalValue_def)
  then show ?thesis
    by (simp add: MatchRule_def match_fib_def load_def fibBytes_def match_cmp_bytes match_xt_def
        xtExpr_def xt_addrtype_local_def xt_match_named_def xt_addrtype_match_def knownAddrTypes_def
        addrtype_hit_def hit_outcome_def Let_def)
qed

end
