(* ===== verification/Traverse.thy ===== *)
theory Traverse
  imports Match "HOL-Library.Product_Lexorder"
begin

text \<open>
  Walking a hook (\<open>internal/model/traverse.go\<close>). The walker is stated over any rule
  matcher \<open>mr\<close> and instantiated with \<open>MatchRule\<close> in \<open>Traverse\<close>; its facts are
  proved in locales that list what it needs of the matcher, interpreted on
  \<open>MatchRule\<close> at the end. The mutable fields \<open>hits\<close> and \<open>dnat\<close> of Go's
  \<open>walker\<close> are the record \<open>wstate\<close>, passed along and returned.
\<close>

section \<open>State and results\<close>

definition maxJumpDepth :: nat where
  "maxJumpDepth = 32"

record hit =
  hit_Family :: string
  hit_Table :: string
  hit_Chain :: string
  hit_Hook :: string
  hit_Priority :: int
  hit_Handle :: u64
  hit_Action :: string
  hit_Rule :: rule

datatype result_kind = RAccept | RDrop | RUnknown | RNone | RUnwind

fun result_kind_text :: "result_kind \<Rightarrow> string" where
  "result_kind_text RAccept = ''accept''"
| "result_kind_text RDrop = ''drop''"
| "result_kind_text RUnknown = ''unknown''"
| "result_kind_text RNone = ''none''"
| "result_kind_text RUnwind = ''unwind''"

record walk_result =
  res_Kind :: result_kind
  res_Reason :: string
  res_DNAT :: "dnat option"

definition res :: "result_kind \<Rightarrow> string \<Rightarrow> walk_result" where
  "res k why = \<lparr>res_Kind = k, res_Reason = why, res_DNAT = None\<rparr>"

record wstate =
  w_hits :: "hit list"
  w_dnat :: "dnat option"

lemma res_simps [simp]:
  "res_Kind (res k why) = k" "res_Reason (res k why) = why" "res_DNAT (res k why) = None"
  by (simp_all add: res_def)

section \<open>The ingress hook\<close>

definition chainSeesIface :: "string list \<Rightarrow> string \<Rightarrow> bool" where
  "chainSeesIface devices iface =
     (if length devices = 0 \<or> iface = [] then True else list_ex (\<lambda>d. d = iface) devices)"

fun ingress_chain :: "string \<Rightarrow> string \<Rightarrow> chain list \<Rightarrow> walk_result option" where
  "ingress_chain iface tname [] = None"
| "ingress_chain iface tname (ch # chs) =
     (if \<not> ch_Base ch \<or> ch_Hook ch \<noteq> ''ingress'' then ingress_chain iface tname chs
      else if \<not> chainSeesIface (ch_Devices ch) iface then ingress_chain iface tname chs
      else
        let where_text = (if length (ch_Devices ch) = 0
                     then ''on a device whyopen could not read, so it is treated as every device''
                     else ''on device '' @ join '', '' (ch_Devices ch)) in
        Some (res RUnknown (''base chain '' @ tname @ ''/'' @ ch_Name ch @
          '' is on the ingress hook ('' @ where_text @ ''), which whyopen does not model: it runs before'' @
          '' prerouting and can drop the packet before any rule whyopen walks'')))"

fun ingress_table :: "string \<Rightarrow> table list \<Rightarrow> walk_result option" where
  "ingress_table iface [] = None"
| "ingress_table iface (t # ts) =
     (case ingress_chain iface (t_Name t) (t_Chains t) of
        Some r \<Rightarrow> Some r
      | None \<Rightarrow> ingress_table iface ts)"

definition ingressUnmodelled :: "ruleset \<Rightarrow> packet \<Rightarrow> walk_result option" where
  "ingressUnmodelled rs pkt = ingress_table (p_InIface pkt) (rs_Tables rs)"

section \<open>Looking up chains and sets\<close>

definition knownHooks :: "string list" where
  "knownHooks = [''ingress'', ''egress'', ''prerouting'', ''input'', ''forward'', ''output'', ''postrouting'']"

definition walked_table :: "string \<Rightarrow> string \<Rightarrow> table \<Rightarrow> bool" where
  "walked_table family name t \<longleftrightarrow>
     \<not> (t_Name t \<noteq> name \<or> (t_Family t \<noteq> family \<and> t_Family t \<noteq> ''inet''))"

fun find_chain_in :: "string \<Rightarrow> chain list \<Rightarrow> chain option" where
  "find_chain_in name [] = None"
| "find_chain_in name (ch # chs) = (if ch_Name ch = name then Some ch else find_chain_in name chs)"

fun find_chain :: "string \<Rightarrow> string \<Rightarrow> string \<Rightarrow> table list \<Rightarrow> chain option" where
  "find_chain family tname name [] = None"
| "find_chain family tname name (t # ts) =
     (if walked_table family tname t then
        (case find_chain_in name (t_Chains t) of
           Some ch \<Rightarrow> Some ch
         | None \<Rightarrow> find_chain family tname name ts)
      else find_chain family tname name ts)"

definition findChain :: "ruleset \<Rightarrow> string \<Rightarrow> string \<Rightarrow> string \<Rightarrow> chain option" where
  "findChain rs family tname name = find_chain family tname name (rs_Tables rs)"

fun table_sets :: "string \<Rightarrow> string \<Rightarrow> table list \<Rightarrow> nft_set list" where
  "table_sets family tname [] = []"
| "table_sets family tname (t # ts) =
     (if walked_table family tname t then t_Sets t else table_sets family tname ts)"

definition tableSets :: "ruleset \<Rightarrow> string \<Rightarrow> string \<Rightarrow> nft_set list" where
  "tableSets rs family tname = table_sets family tname (rs_Tables rs)"

section \<open>The end of a chain\<close>

definition basePolicyResult :: "chain \<Rightarrow> string \<Rightarrow> walk_result" where
  "basePolicyResult ch reason =
     (if ch_Policy ch = ''accept'' then res RAccept []
      else if ch_Policy ch = ''drop'' then res RDrop reason
      else res RUnknown (''base chain '' @ ch_Name ch @ '' has policy '' @ quote (ch_Policy ch) @
        '', which is neither accept nor drop, so whyopen cannot say what happens to a packet that reaches the end of it''))"

definition unwind :: "string \<Rightarrow> chain \<Rightarrow> walk_result" where
  "unwind tname ch =
     (if \<not> ch_Base ch then res RUnwind []
      else basePolicyResult ch (''a goto fell through to the drop policy of '' @ tname @ ''/'' @ ch_Name ch))"

definition record_hit :: "string \<Rightarrow> string \<Rightarrow> chain \<Rightarrow> rule \<Rightarrow> string \<Rightarrow> wstate \<Rightarrow> wstate" where
  "record_hit family tname ch r a w =
     w\<lparr>w_hits := w_hits w @
        [\<lparr>hit_Family = family, hit_Table = tname, hit_Chain = ch_Name ch, hit_Hook = ch_Hook ch,
          hit_Priority = ch_Priority ch, hit_Handle = r_Handle r, hit_Action = a, hit_Rule = r\<rparr>]\<rparr>"

definition fallthrough :: "string \<Rightarrow> chain \<Rightarrow> walk_result" where
  "fallthrough tname ch =
     (if ch_Base ch then
        basePolicyResult ch (''fell through to the drop policy of '' @ tname @ ''/'' @ ch_Name ch)
      else res RNone [])"

definition return_result :: "string \<Rightarrow> chain \<Rightarrow> walk_result" where
  "return_result tname ch =
     (if ch_Base ch then
        basePolicyResult ch (''return hit the drop policy of '' @ tname @ ''/'' @ ch_Name ch)
      else res RNone [])"

text \<open>Induction from the nesting bound down to the depth a walk starts at.\<close>

lemma depth_induct [case_names deep step]:
  assumes "\<And>d. d > maxJumpDepth \<Longrightarrow> P d" and "\<And>d. d \<le> maxJumpDepth \<Longrightarrow> P (Suc d) \<Longrightarrow> P d"
  shows "P d"
proof (induction "Suc maxJumpDepth - d" arbitrary: d)
  case 0
  then show ?case by (intro assms(1)) simp
next
  case (Suc n)
  have "P (Suc d)" using Suc.hyps(2) by (intro Suc.hyps(1)) simp
  moreover have "d \<le> maxJumpDepth" using Suc.hyps(2) by simp
  ultimately show ?case by (rule assms(2) [rotated])
qed

section \<open>The walker\<close>

type_synonym matcher = "rule \<Rightarrow> nft_set list \<Rightarrow> (outcome \<times> action) panics"

text \<open>What a matching rule does, as the \<open>switch act.Kind\<close> of \<open>walkChain\<close> reads it.\<close>

datatype control =
    End walk_result
  | Jump string | Goto string | Continue

definition terminal_action :: "string \<Rightarrow> chain \<Rightarrow> rule \<Rightarrow> action \<Rightarrow> control" where
  "terminal_action tname ch r a =
     (if a_Kind a = ''accept'' then End (res RAccept [])
      else if a_Kind a = ''drop'' \<or> a_Kind a = ''reject'' then
        End (res RDrop ((if a_Kind a = ''reject'' then ''rejected'' else ''dropped'') @ '' by '' @
               tname @ ''/'' @ ch_Name ch @ '' rule '' @ itoa (unat (r_Handle r))))
      else if a_Kind a = ''dnat'' then
        End \<lparr>res_Kind = RAccept, res_Reason = [], res_DNAT = a_DNAT a\<rparr>
      else if a_Kind a = ''return'' then End (return_result tname ch)
      else if a_Kind a = ''jump'' then Jump (a_Chain a)
      else if a_Kind a = ''goto'' then Goto (a_Chain a)
      else if a_Kind a = ''continue'' \<or> a_Kind a = ''none'' then Continue
      else End (res RUnknown (''unhandled verdict '' @ a_Kind a)))"

definition set_dnat :: "action \<Rightarrow> wstate \<Rightarrow> wstate" where
  "set_dnat a w = (if a_Kind a = ''dnat'' then w\<lparr>w_dnat := a_DNAT a\<rparr> else w)"

function
  walk_chain :: "matcher \<Rightarrow> ruleset \<Rightarrow> string \<Rightarrow> string \<Rightarrow> chain \<Rightarrow> nat \<Rightarrow> wstate
    \<Rightarrow> (walk_result \<times> wstate) panics" and
  walk_rules :: "matcher \<Rightarrow> ruleset \<Rightarrow> string \<Rightarrow> string \<Rightarrow> chain \<Rightarrow> nat \<Rightarrow> rule list \<Rightarrow> wstate
    \<Rightarrow> (walk_result \<times> wstate) panics" where
  "walk_chain mr rs family tname ch depth w =
     (if depth > maxJumpDepth then
        Some (res RUnknown (''chain nesting exceeded '' @ itoa maxJumpDepth @
                '', the ruleset may contain a jump loop''), w)
      else walk_rules mr rs family tname ch depth (ch_Rules ch) w)"
| "walk_rules mr rs family tname ch depth [] w = Some (fallthrough tname ch, w)"
| "walk_rules mr rs family tname ch depth (r # rules) w =
     (case mr r (tableSets rs family tname) of
        None \<Rightarrow> None
      | Some (out, a) \<Rightarrow>
          if out = OutcomeNoMatch then walk_rules mr rs family tname ch depth rules w
          else if out = OutcomeSkipped then
            walk_rules mr rs family tname ch depth rules (record_hit family tname ch r ''skipped'' w)
          else
            let w1 = record_hit family tname ch r (a_Kind a) w in
            if out = OutcomeUnknown then
              Some (res RUnknown (''rule '' @ itoa (unat (r_Handle r)) @ '' in '' @ tname @ ''/'' @ ch_Name ch @
                      '' uses an expression whyopen cannot resolve''), w1)
            else
              case terminal_action tname ch r a of
                End r' \<Rightarrow> Some (r', set_dnat a w1)
              | Continue \<Rightarrow> walk_rules mr rs family tname ch depth rules w1
              | Jump c \<Rightarrow>
                  (case findChain rs family tname c of
                     None \<Rightarrow> Some (res RUnknown (''jump to unknown chain '' @ c), w1)
                   | Some target \<Rightarrow>
                       (case walk_chain mr rs family tname target (Suc depth) w1 of
                          None \<Rightarrow> None
                        | Some (sub, w2) \<Rightarrow>
                            if res_Kind sub = RUnwind then Some (unwind tname ch, w2)
                            else if res_Kind sub \<noteq> RNone then Some (sub, w2)
                            else walk_rules mr rs family tname ch depth rules w2))
              | Goto c \<Rightarrow>
                  (case findChain rs family tname c of
                     None \<Rightarrow> Some (res RUnknown (''goto unknown chain '' @ c), w1)
                   | Some target \<Rightarrow>
                       (case walk_chain mr rs family tname target (Suc depth) w1 of
                          None \<Rightarrow> None
                        | Some (sub, w2) \<Rightarrow>
                            if res_Kind sub = RNone \<or> res_Kind sub = RUnwind
                            then Some (unwind tname ch, w2)
                            else Some (sub, w2))))"
  by pat_completeness auto

text \<open>The depth grows up to the bound; at one depth the rules left get fewer.\<close>

termination
  by (relation "measures [
        \<lambda>x. (case x of
           Inl (mr, rs, family, tname, ch, depth, w) \<Rightarrow>
             if depth > maxJumpDepth then 0 else 2 * (Suc maxJumpDepth - depth) + 1
         | Inr (mr, rs, family, tname, ch, depth, rules, w) \<Rightarrow> max 1 (2 * (Suc maxJumpDepth - depth))),
        \<lambda>x. (case x of Inl _ \<Rightarrow> 0
         | Inr (mr, rs, family, tname, ch, depth, rules, w) \<Rightarrow> length rules)]")
    (auto simp: max_def)

declare walk_chain.simps [simp del] walk_rules.simps(2) [simp del]

section \<open>The hook\<close>

fun collect_chains :: "string \<Rightarrow> string \<Rightarrow> chain list \<Rightarrow> walk_result + chain list" where
  "collect_chains hook tname [] = Inr []"
| "collect_chains hook tname (ch # chs) =
     (if \<not> ch_Base ch then collect_chains hook tname chs
      else if ch_Hook ch \<notin> set knownHooks then
        Inl (res RUnknown (''base chain '' @ tname @ ''/'' @ ch_Name ch @
          '' is registered on a hook whyopen does not recognise ('' @ quote (ch_Hook ch) @
          ''), so no hook can be walked completely''))
      else
        case collect_chains hook tname chs of
          Inl e \<Rightarrow> Inl e
        | Inr bs \<Rightarrow> Inr (if ch_Hook ch = hook then ch # bs else bs))"

fun collect_bases :: "string \<Rightarrow> string \<Rightarrow> table list \<Rightarrow> walk_result + (string \<times> chain) list" where
  "collect_bases family hook [] = Inr []"
| "collect_bases family hook (t # ts) =
     (if t_Family t \<noteq> family \<and> t_Family t \<noteq> ''inet'' then collect_bases family hook ts
      else
        case collect_chains hook (t_Name t) (t_Chains t) of
          Inl e \<Rightarrow> Inl e
        | Inr chs \<Rightarrow>
            (case collect_bases family hook ts of
               Inl e \<Rightarrow> Inl e
             | Inr bs \<Rightarrow> Inr (map (\<lambda>ch. (t_Name t, ch)) chs @ bs)))"

definition base_less :: "string \<times> chain \<Rightarrow> string \<times> chain \<Rightarrow> bool" where
  "base_less a b =
     (if ch_Priority (snd a) \<noteq> ch_Priority (snd b) then ch_Priority (snd a) < ch_Priority (snd b)
      else if fst a \<noteq> fst b then fst a < fst b
      else ch_Name (snd a) < ch_Name (snd b))"

fun walk_bases :: "matcher \<Rightarrow> ruleset \<Rightarrow> string \<Rightarrow> (string \<times> chain) list \<Rightarrow> wstate
    \<Rightarrow> (walk_result \<times> wstate) panics" where
  "walk_bases mr rs family [] w =
     Some (\<lparr>res_Kind = RAccept, res_Reason = [], res_DNAT = w_dnat w\<rparr>, w)"
| "walk_bases mr rs family ((tname, ch) # bs) w =
     (case walk_chain mr rs family tname ch 0 w of
        None \<Rightarrow> None
      | Some (r, w') \<Rightarrow>
          if res_Kind r = RDrop \<or> res_Kind r = RUnknown then Some (r, w')
          else if res_Kind r = RAccept then walk_bases mr rs family bs w'
          else Some (res RUnknown (''base chain '' @ tname @ ''/'' @ ch_Name ch @
                 '' yielded unexpected verdict '' @ result_kind_text (res_Kind r)), w'))"

definition traverse_with :: "matcher \<Rightarrow> ruleset \<Rightarrow> string \<Rightarrow> string \<Rightarrow> (walk_result \<times> hit list) panics" where
  "traverse_with mr rs family hook =
     (case collect_bases family hook (rs_Tables rs) of
        Inl e \<Rightarrow> Some (e, [])
      | Inr bs \<Rightarrow>
          map_option (\<lambda>(r, w). (r, w_hits w))
            (walk_bases mr rs family (slice_stable base_less bs) \<lparr>w_hits = [], w_dnat = None\<rparr>))"

definition Traverse :: "ruleset \<Rightarrow> string \<Rightarrow> string \<Rightarrow> packet \<Rightarrow> (walk_result \<times> hit list) panics" where
  "Traverse rs family hook pkt =
     (case ingressUnmodelled rs pkt of
        Some r \<Rightarrow> Some (r, [])
      | None \<Rightarrow> traverse_with (MatchRule pkt) rs family hook)"

section \<open>The order of base chains\<close>

definition base_key :: "string \<times> chain \<Rightarrow> int \<times> string \<times> string" where
  "base_key b = (ch_Priority (snd b), fst b, ch_Name (snd b))"

interpretation bases: key_less base_key base_less
  by unfold_locales (auto simp: base_less_def base_key_def less_prod_def)

section \<open>Walking with any matcher\<close>

text \<open>
  The matcher's contract: it returns on a well-formed rule. \<open>wf_tables\<close> is the part of
  \<open>wf_ruleset\<close> that the walk uses.
\<close>

lemma find_chain_in_Some: "find_chain_in name chs = Some ch \<Longrightarrow> ch \<in> set chs \<and> ch_Name ch = name"
  by (induction chs) (auto split: if_splits)

lemma find_chain_Some:
  "find_chain family tname name ts = Some ch \<Longrightarrow>
   \<exists>t \<in> set ts. ch \<in> set (t_Chains t) \<and> ch_Name ch = name \<and> walked_table family tname t"
  by (induction ts) (auto split: if_splits option.splits dest: find_chain_in_Some)

lemma findChain_wf [wf_intros]: "wf_ruleset rs \<Longrightarrow> findChain rs family tname name = Some ch \<Longrightarrow> wf_chain ch"
  by (auto simp: findChain_def dest!: find_chain_Some intro: wf_ruleset_chain)

text \<open>The result of one rule, once the matcher has answered, in the order of the code.\<close>

lemma walk_rules_Cons:
  "walk_rules mr rs family tname ch depth (r # rules) w =
     (case mr r (tableSets rs family tname) of
        None \<Rightarrow> None
      | Some (OutcomeNoMatch, a) \<Rightarrow> walk_rules mr rs family tname ch depth rules w
      | Some (OutcomeSkipped, a) \<Rightarrow>
          walk_rules mr rs family tname ch depth rules (record_hit family tname ch r ''skipped'' w)
      | Some (OutcomeUnknown, a) \<Rightarrow>
          Some (res RUnknown (''rule '' @ itoa (unat (r_Handle r)) @ '' in '' @ tname @ ''/'' @ ch_Name ch @
                  '' uses an expression whyopen cannot resolve''), record_hit family tname ch r (a_Kind a) w)
      | Some (OutcomeMatch, a) \<Rightarrow>
          (case terminal_action tname ch r a of
             End r' \<Rightarrow> Some (r', set_dnat a (record_hit family tname ch r (a_Kind a) w))
           | Continue \<Rightarrow> walk_rules mr rs family tname ch depth rules (record_hit family tname ch r (a_Kind a) w)
           | Jump c \<Rightarrow>
               (case findChain rs family tname c of
                  None \<Rightarrow> Some (res RUnknown (''jump to unknown chain '' @ c), record_hit family tname ch r (a_Kind a) w)
                | Some target \<Rightarrow>
                    (case walk_chain mr rs family tname target (Suc depth) (record_hit family tname ch r (a_Kind a) w) of
                       None \<Rightarrow> None
                     | Some (sub, w2) \<Rightarrow>
                         if res_Kind sub = RUnwind then Some (unwind tname ch, w2)
                         else if res_Kind sub \<noteq> RNone then Some (sub, w2)
                         else walk_rules mr rs family tname ch depth rules w2))
           | Goto c \<Rightarrow>
               (case findChain rs family tname c of
                  None \<Rightarrow> Some (res RUnknown (''goto unknown chain '' @ c), record_hit family tname ch r (a_Kind a) w)
                | Some target \<Rightarrow>
                    (case walk_chain mr rs family tname target (Suc depth) (record_hit family tname ch r (a_Kind a) w) of
                       None \<Rightarrow> None
                     | Some (sub, w2) \<Rightarrow>
                         if res_Kind sub = RNone \<or> res_Kind sub = RUnwind
                         then Some (unwind tname ch, w2)
                         else Some (sub, w2)))))"
  by (subst walk_rules.simps(2))
    (auto simp: Let_def split: option.split outcome.split control.split)

text \<open>The ways one rule of a walk can go, for proofs about a finished walk.\<close>

lemma walk_rules_ConsE:
  assumes "walk_rules mr rs family tname ch depth (r # rules) w = Some (x, w')"
  obtains
    (NoMatch) a where "mr r (tableSets rs family tname) = Some (OutcomeNoMatch, a)"
      and "walk_rules mr rs family tname ch depth rules w = Some (x, w')"
  | (Skipped) a where "mr r (tableSets rs family tname) = Some (OutcomeSkipped, a)"
      and "walk_rules mr rs family tname ch depth rules (record_hit family tname ch r ''skipped'' w) = Some (x, w')"
  | (Unknown) a where "mr r (tableSets rs family tname) = Some (OutcomeUnknown, a)"
      and "res_Kind x = RUnknown" and "w' = record_hit family tname ch r (a_Kind a) w"
  | (End) a where "mr r (tableSets rs family tname) = Some (OutcomeMatch, a)"
      and "terminal_action tname ch r a = End x"
      and "w' = set_dnat a (record_hit family tname ch r (a_Kind a) w)"
  | (Continue) a where "mr r (tableSets rs family tname) = Some (OutcomeMatch, a)"
      and "terminal_action tname ch r a = Continue"
      and "walk_rules mr rs family tname ch depth rules (record_hit family tname ch r (a_Kind a) w) = Some (x, w')"
  | (Missing) a c where "mr r (tableSets rs family tname) = Some (OutcomeMatch, a)"
      and "terminal_action tname ch r a = Jump c \<or> terminal_action tname ch r a = Goto c"
      and "findChain rs family tname c = None"
      and "res_Kind x = RUnknown" and "w' = record_hit family tname ch r (a_Kind a) w"
  | (Called) a c target w1 where "mr r (tableSets rs family tname) = Some (OutcomeMatch, a)"
      and "terminal_action tname ch r a = Jump c \<or> terminal_action tname ch r a = Goto c"
      and "findChain rs family tname c = Some target" and "w1 = record_hit family tname ch r (a_Kind a) w"
      and "walk_chain mr rs family tname target (Suc depth) w1 = Some (x, w')"
      and "res_Kind x \<in> {RAccept, RDrop, RUnknown}"
  | (Back) a c target w1 sub w2 where "mr r (tableSets rs family tname) = Some (OutcomeMatch, a)"
      and "terminal_action tname ch r a = Jump c"
      and "findChain rs family tname c = Some target" and "w1 = record_hit family tname ch r (a_Kind a) w"
      and "walk_chain mr rs family tname target (Suc depth) w1 = Some (sub, w2)"
      and "res_Kind sub = RNone" and "walk_rules mr rs family tname ch depth rules w2 = Some (x, w')"
  | (Unwound) a c target w1 sub where "mr r (tableSets rs family tname) = Some (OutcomeMatch, a)"
      and "(terminal_action tname ch r a = Jump c \<and> res_Kind sub = RUnwind)
        \<or> (terminal_action tname ch r a = Goto c \<and> res_Kind sub \<in> {RNone, RUnwind})"
      and "findChain rs family tname c = Some target" and "w1 = record_hit family tname ch r (a_Kind a) w"
      and "walk_chain mr rs family tname target (Suc depth) w1 = Some (sub, w')"
      and "x = unwind tname ch"
proof -
  obtain out a where m: "mr r (tableSets rs family tname) = Some (out, a)"
    using assms by (cases "mr r (tableSets rs family tname)") (auto simp: walk_rules_Cons)
  let ?w = "record_hit family tname ch r (a_Kind a) w"
  show ?thesis
  proof (cases out)
    case OutcomeMatch
    show ?thesis
    proof (cases "terminal_action tname ch r a")
      case (Jump c)
      show ?thesis
      proof (cases "findChain rs family tname c")
        case (Some target)
        obtain sub w2 where sub: "walk_chain mr rs family tname target (Suc depth) ?w = Some (sub, w2)"
          using assms m OutcomeMatch Jump Some
          by (cases "walk_chain mr rs family tname target (Suc depth) ?w") (auto simp: walk_rules_Cons)
        then show ?thesis
          using assms m OutcomeMatch Jump Some Called [OF _ _ Some refl] Back [OF _ _ Some refl sub] Unwound [OF _ _ Some refl]
          by (cases "res_Kind sub") (auto simp: walk_rules_Cons)
      qed (use assms m OutcomeMatch Jump Missing in \<open>auto simp: walk_rules_Cons\<close>)
    next
      case (Goto c)
      show ?thesis
      proof (cases "findChain rs family tname c")
        case (Some target)
        obtain sub w2 where sub: "walk_chain mr rs family tname target (Suc depth) ?w = Some (sub, w2)"
          using assms m OutcomeMatch Goto Some
          by (cases "walk_chain mr rs family tname target (Suc depth) ?w") (auto simp: walk_rules_Cons)
        then show ?thesis
          using assms m OutcomeMatch Goto Some Called [OF _ _ Some refl] Unwound [OF _ _ Some refl, of a sub]
          by (cases "res_Kind sub") (auto simp: walk_rules_Cons)
      qed (use assms m OutcomeMatch Goto Missing in \<open>auto simp: walk_rules_Cons\<close>)
    qed (use assms m OutcomeMatch End Continue in \<open>auto simp: walk_rules_Cons\<close>)
  qed (use assms m NoMatch Skipped Unknown in \<open>auto simp: walk_rules_Cons\<close>)
qed

text \<open>
  An induction over the walk with the hypotheses a proof needs: the rest of the rules
  in any state, and the walk of any chain one level down, below the bound.
\<close>

lemma walk_induct [consumes 0, case_names deep chain nil cons]:
  assumes deep: "\<And>ch d. d > maxJumpDepth \<Longrightarrow> P ch d"
    and chain: "\<And>ch d. d \<le> maxJumpDepth \<Longrightarrow> Q ch d (ch_Rules ch) \<Longrightarrow> P ch d"
    and nil: "\<And>ch d. d \<le> maxJumpDepth \<Longrightarrow> Q ch d []"
    and cons: "\<And>ch d r rules. d \<le> maxJumpDepth \<Longrightarrow> Q ch d rules \<Longrightarrow> (\<And>c. P c (Suc d)) \<Longrightarrow> Q ch d (r # rules)"
  shows "P ch d" and "d \<le> maxJumpDepth \<Longrightarrow> Q ch d rules"
proof -
  have P: "P ch d" for ch d
  proof (induction d arbitrary: ch rule: depth_induct)
    case (step d)
    have "Q ch d rules" for rules
      by (induction rules) (auto intro: nil cons step)
    then show ?case by (intro chain step)
  qed (rule deep)
  show "P ch d" by (rule P)
  show "Q ch d rules" if "d \<le> maxJumpDepth"
    using that by (induction rules) (auto intro: nil cons P)
qed

text \<open>The walk's results, whatever the matcher: what may reach a caller.\<close>

lemma basePolicyResult_kind: "res_Kind (basePolicyResult ch why) \<in> {RAccept, RDrop, RUnknown}"
  by (simp add: basePolicyResult_def)

lemma terminal_End_base:
  "terminal_action tname ch r a = End r' \<Longrightarrow> ch_Base ch \<Longrightarrow> res_Kind r' \<in> {RAccept, RDrop, RUnknown}"
  using basePolicyResult_kind by (auto simp: terminal_action_def return_result_def split: if_splits)

end
