(* ===== verification/Walk.thy ===== *)
theory Walk
  imports Traverse
begin

text \<open>
  Facts about the walker of \<open>Traverse\<close> that hold for any rule matcher, the locales
  that say what else a matcher must promise, and their interpretation on
  \<open>MatchRule\<close>.
\<close>

section \<open>Results a base chain can have\<close>

lemma fallthrough_base: "ch_Base ch \<Longrightarrow> res_Kind (fallthrough tname ch) \<in> {RAccept, RDrop, RUnknown}"
  using basePolicyResult_kind by (auto simp: fallthrough_def)

lemma unwind_base: "ch_Base ch \<Longrightarrow> res_Kind (unwind tname ch) \<in> {RAccept, RDrop, RUnknown}"
  using basePolicyResult_kind by (auto simp: unwind_def)

lemma walk_rules_base:
  "ch_Base ch \<Longrightarrow> walk_rules mr rs family tname ch d rules w = Some (r, w') \<Longrightarrow>
   res_Kind r \<in> {RAccept, RDrop, RUnknown}"
proof (induction rules arbitrary: w)
  case Nil
  then show ?case using fallthrough_base by auto
next
  case (Cons y rules)
  from Cons.prems(2) show ?case
  proof (cases rule: walk_rules_ConsE)
    case (End a)
    with terminal_End_base Cons.prems(1) show ?thesis by blast
  next
    case (Unwound a c target w1 sub)
    with unwind_base Cons.prems(1) show ?thesis by blast
  qed (use Cons in auto)
qed

lemma walk_chain_base:
  "ch_Base ch \<Longrightarrow> walk_chain mr rs family tname ch d w = Some (r, w') \<Longrightarrow>
   res_Kind r \<in> {RAccept, RDrop, RUnknown}"
  by (subst (asm) walk_chain.simps) (auto split: if_splits dest: walk_rules_base)

section \<open>A walk does not depend on the state it starts from\<close>

text \<open>
  A run either panics from every state, or from every state gives one result, appends
  the same hits and changes the rewrite in the same way.
\<close>

definition same_run :: "(wstate \<Rightarrow> (walk_result \<times> wstate) panics) \<Rightarrow> bool" where
  "same_run F \<longleftrightarrow> (\<forall>w. F w = None) \<or>
     (\<exists>r hs f. \<forall>w. F w = Some (r, \<lparr>w_hits = w_hits w @ hs, w_dnat = f (w_dnat w)\<rparr>))"

lemma same_runI:
  "(\<And>w. F w = Some (r, \<lparr>w_hits = w_hits w @ hs, w_dnat = f (w_dnat w)\<rparr>)) \<Longrightarrow> same_run F"
  unfolding same_run_def by blast

lemma same_run_const: "same_run (\<lambda>w. Some (r, w))"
  by (rule same_runI [where hs = "[]" and f = id]) simp

lemma same_run_record:
  assumes "same_run F" shows "same_run (\<lambda>w. F (record_hit family tname ch r a w))"
proof (cases "\<forall>w. F w = None")
  case True
  then show ?thesis by (simp add: same_run_def)
next
  case False
  then obtain r hs f where "\<And>w. F w = Some (r, \<lparr>w_hits = w_hits w @ hs, w_dnat = f (w_dnat w)\<rparr>)"
    using assms by (auto simp: same_run_def)
  then show ?thesis
    by (intro same_runI [where f = f]) (simp add: record_hit_def)
qed

lemma same_run_set_dnat: "same_run (\<lambda>w. Some (r, set_dnat a w))"
  by (rule same_runI [where hs = "[]" and f = "if a_Kind a = ''dnat'' then (\<lambda>_. a_DNAT a) else id"])
    (simp add: set_dnat_def)

lemma same_run_then:
  assumes "same_run F" and "\<And>sub. same_run (\<lambda>w. G sub w)"
  shows "same_run (\<lambda>w. case F w of None \<Rightarrow> None | Some (sub, w') \<Rightarrow> G sub w')"
proof (cases "\<forall>w. F w = None")
  case True
  then show ?thesis by (simp add: same_run_def)
next
  case False
  then obtain r hs f where F: "\<And>w. F w = Some (r, \<lparr>w_hits = w_hits w @ hs, w_dnat = f (w_dnat w)\<rparr>)"
    using assms(1) by (auto simp: same_run_def)
  show ?thesis
  proof (cases "\<forall>w. G r w = None")
    case True
    then show ?thesis by (simp add: same_run_def F)
  next
    case False
    then obtain r' hs' f' where "\<And>w. G r w = Some (r', \<lparr>w_hits = w_hits w @ hs', w_dnat = f' (w_dnat w)\<rparr>)"
      using assms(2) [of r] by (auto simp: same_run_def)
    then show ?thesis
      by (intro same_runI [where f = "\<lambda>d. f' (f d)"]) (simp add: F)
  qed
qed

lemma same_run_if: "same_run F \<Longrightarrow> same_run G \<Longrightarrow> same_run (\<lambda>w. if c then F w else G w)"
  by (cases c) simp_all

lemma walk_rules_Nil_run: "walk_rules mr rs family tname ch d [] = (\<lambda>w. Some (fallthrough tname ch, w))"
  by (rule ext) simp

lemmas walk_rules_run = ext [OF walk_rules_Cons]

lemma walk_rules_same_run_Cons:
  assumes rest: "same_run (walk_rules mr rs family tname ch d rules)"
    and sub: "\<And>c. same_run (walk_chain mr rs family tname c (Suc d))"
  shows "same_run (walk_rules mr rs family tname ch d (r # rules))"
proof (cases "mr r (tableSets rs family tname)")
  case None
  then show ?thesis by (simp add: walk_rules_run same_run_def)
next
  case (Some p)
  obtain out a where m: "mr r (tableSets rs family tname) = Some (out, a)"
    using Some by (cases p) auto
  show ?thesis
  proof (cases out)
    case OutcomeMatch
    show ?thesis
    proof (cases "terminal_action tname ch r a")
      case (End r')
      with m OutcomeMatch show ?thesis
        using same_run_record [OF same_run_set_dnat] by (simp add: walk_rules_run)
    next
      case (Jump c)
      with m OutcomeMatch show ?thesis
        using same_run_record [OF same_run_const]
        by (cases "findChain rs family tname c")
          (simp_all add: walk_rules_run same_run_then same_run_record sub rest same_run_if same_run_const)
    next
      case (Goto c)
      with m OutcomeMatch show ?thesis
        using same_run_record [OF same_run_const]
        by (cases "findChain rs family tname c")
          (simp_all add: walk_rules_run same_run_then same_run_record sub rest same_run_if same_run_const)
    next
      case Continue
      with m OutcomeMatch show ?thesis
        by (simp add: walk_rules_run same_run_record rest)
    qed
  next
    case OutcomeNoMatch
    with m rest show ?thesis by (simp add: walk_rules_run)
  next
    case OutcomeUnknown
    with m show ?thesis using same_run_record [OF same_run_const] by (simp add: walk_rules_run)
  next
    case OutcomeSkipped
    with m show ?thesis by (simp add: walk_rules_run same_run_record rest)
  qed
qed

lemma walk_chain_same_run: "same_run (walk_chain mr rs family tname ch d)"
proof (induction ch d rule: walk_induct(1)
    [where Q = "\<lambda>ch d rules. same_run (walk_rules mr rs family tname ch d rules)"])
  case (deep ch d)
  then have "walk_chain mr rs family tname ch d = (\<lambda>w. Some (res RUnknown (''chain nesting exceeded '' @ itoa maxJumpDepth @
                '', the ruleset may contain a jump loop''), w))"
    by (intro ext) (subst walk_chain.simps, simp)
  then show ?case by (simp add: same_run_const)
next
  case (chain ch d)
  then have "walk_chain mr rs family tname ch d = walk_rules mr rs family tname ch d (ch_Rules ch)"
    by (intro ext) (subst walk_chain.simps, simp)
  with chain show ?case by simp
next
  case (nil ch d)
  show ?case by (simp add: walk_rules_Nil_run same_run_const)
next
  case (cons ch d r rules)
  then show ?case by (intro walk_rules_same_run_Cons) auto
qed

definition start :: wstate where
  "start = \<lparr>w_hits = [], w_dnat = None\<rparr>"

lemma walk_chain_from:
  assumes "walk_chain mr rs family tname ch d start = Some (r, v)"
  obtains w' where "walk_chain mr rs family tname ch d w = Some (r, w')" and "w_hits w' = w_hits w @ w_hits v"
proof -
  obtain r' hs f where "\<And>w. walk_chain mr rs family tname ch d w =
      Some (r', \<lparr>w_hits = w_hits w @ hs, w_dnat = f (w_dnat w)\<rparr>)"
    using walk_chain_same_run [of mr rs family tname ch d] assms by (auto simp: same_run_def)
  with assms that show ?thesis by (auto simp: start_def)
qed

section \<open>Verdicts of a hook\<close>

text \<open>The verdict of a base chain walked on its own.\<close>

definition base_verdict :: "matcher \<Rightarrow> ruleset \<Rightarrow> string \<Rightarrow> string \<times> chain \<Rightarrow> result_kind option" where
  "base_verdict mr rs family b =
     map_option (\<lambda>(r, w). res_Kind r) (walk_chain mr rs family (fst b) (snd b) 0 start)"

text \<open>The first base chain that does not accept decides the hook.\<close>

definition hook_verdict :: "result_kind option list \<Rightarrow> result_kind option" where
  "hook_verdict ks = (case dropWhile (\<lambda>k. k = Some RAccept) ks of [] \<Rightarrow> Some RAccept | k # _ \<Rightarrow> k)"

lemma hook_verdict_simps [simp]:
  "hook_verdict [] = Some RAccept"
  "hook_verdict (k # ks) = (if k = Some RAccept then hook_verdict ks else k)"
  by (simp_all add: hook_verdict_def)

lemma hook_verdict_accept: "hook_verdict ks = Some RAccept \<longleftrightarrow> set ks \<subseteq> {Some RAccept}"
  by (induction ks) auto

lemma walk_bases_verdict:
  assumes "\<forall>b \<in> set bs. ch_Base (snd b)"
  shows "map_option (\<lambda>(r, w'). res_Kind r) (walk_bases mr rs family bs w)
    = hook_verdict (map (base_verdict mr rs family) bs)"
  using assms
proof (induction bs arbitrary: w)
  case Nil
  then show ?case by simp
next
  case (Cons b bs)
  obtain tname ch where b: "b = (tname, ch)" by (cases b)
  show ?case
  proof (cases "walk_chain mr rs family tname ch 0 start")
    case None
    have "walk_chain mr rs family tname ch 0 w = None"
      using walk_chain_same_run [of mr rs family tname ch 0] None by (auto simp: same_run_def)
    with None b show ?thesis by (simp add: base_verdict_def)
  next
    case (Some p)
    then obtain r v where p: "walk_chain mr rs family tname ch 0 start = Some (r, v)" by (cases p) auto
    obtain w' where w': "walk_chain mr rs family tname ch 0 w = Some (r, w')"
      using walk_chain_from [OF p] by blast
    have "res_Kind r \<in> {RAccept, RDrop, RUnknown}"
      using walk_chain_base [OF _ p] Cons.prems b by simp
    with p w' b Cons show ?thesis by (auto simp: base_verdict_def)
  qed
qed

lemma collect_chains_base: "collect_chains hook tname chs = Inr bs \<Longrightarrow> ch \<in> set bs \<Longrightarrow> ch_Base ch \<and> ch_Hook ch = hook \<and> ch \<in> set chs"
  by (induction chs arbitrary: bs) (auto split: if_splits sum.splits)

lemma collect_bases_base:
  "collect_bases family hook ts = Inr bs \<Longrightarrow> b \<in> set bs \<Longrightarrow>
   ch_Base (snd b) \<and> ch_Hook (snd b) = hook \<and>
   (\<exists>t \<in> set ts. fst b = t_Name t \<and> snd b \<in> set (t_Chains t) \<and> (t_Family t = family \<or> t_Family t = ''inet''))"
  by (induction ts arbitrary: bs) (fastforce split: if_splits sum.splits dest: collect_chains_base)+

lemma collect_chains_unknown: "collect_chains hook tname chs = Inl e \<Longrightarrow> res_Kind e = RUnknown"
  by (induction chs) (auto split: if_splits sum.splits)

lemma collect_bases_unknown: "collect_bases family hook ts = Inl e \<Longrightarrow> res_Kind e = RUnknown"
  by (induction ts) (auto split: if_splits sum.splits dest: collect_chains_unknown)

lemma ingress_chain_unknown: "ingress_chain iface tname chs = Some r \<Longrightarrow> res_Kind r = RUnknown"
  by (induction chs) (auto split: if_splits simp: Let_def)

lemma ingress_unknown: "ingressUnmodelled rs pkt = Some r \<Longrightarrow> res_Kind r = RUnknown"
proof -
  have "ingress_table iface ts = Some r \<Longrightarrow> res_Kind r = RUnknown" for iface ts
    by (induction ts) (auto split: option.splits dest: ingress_chain_unknown)
  then show "ingressUnmodelled rs pkt = Some r \<Longrightarrow> res_Kind r = RUnknown"
    by (simp add: ingressUnmodelled_def)
qed

lemma traverse_verdict:
  "map_option (\<lambda>(r, hs). res_Kind r) (traverse_with mr rs family hook) =
     (case collect_bases family hook (rs_Tables rs) of
        Inl e \<Rightarrow> Some RUnknown
      | Inr bs \<Rightarrow> hook_verdict (map (base_verdict mr rs family) (slice_stable base_less bs)))"
proof (cases "collect_bases family hook (rs_Tables rs)")
  case (Inl e)
  then show ?thesis by (simp add: traverse_with_def collect_bases_unknown)
next
  case (Inr bs)
  have "\<forall>b \<in> set (slice_stable base_less bs). ch_Base (snd b)"
    using collect_bases_base [OF Inr] by simp
  from walk_bases_verdict [OF this, of mr rs family "\<lparr>w_hits = [], w_dnat = None\<rparr>"] Inr show ?thesis
    by (simp add: traverse_with_def option.map_comp comp_def case_prod_unfold)
qed

section \<open>A matcher that returns\<close>

locale rule_matcher =
  fixes mr :: matcher
  assumes mr_total: "wf_rule r \<Longrightarrow> mr r sets \<noteq> None"
begin

lemma walk_total:
  assumes "wf_ruleset rs" and "wf_chain ch"
  shows "walk_chain mr rs family tname ch d w \<noteq> None"
proof -
  have "wf_chain ch \<Longrightarrow> walk_chain mr rs family tname ch d w \<noteq> None" for w
  proof (induction ch d arbitrary: w rule: walk_induct(1)
      [where Q = "\<lambda>ch d rules. \<forall>w. (\<forall>r \<in> set rules. wf_rule r) \<longrightarrow> walk_rules mr rs family tname ch d rules w \<noteq> None"])
    case (deep ch d)
    then show ?case by (subst walk_chain.simps) simp
  next
    case (chain ch d)
    then show ?case by (subst walk_chain.simps) (simp add: wf_chain_def)
  next
    case (nil ch d)
    then show ?case by simp
  next
    case (cons ch d r rules)
    show ?case
    proof (intro allI impI)
      fix w assume wf: "\<forall>r \<in> set (r # rules). wf_rule r"
      obtain out a where m: "mr r (tableSets rs family tname) = Some (out, a)"
        using mr_total [of r "tableSets rs family tname"] wf by auto
      have sub: "walk_chain mr rs family tname c (Suc d) w \<noteq> None"
        if "findChain rs family tname n = Some c" for c n w
        using cons(3) findChain_wf [OF assms(1) that] by blast
      have rest: "walk_rules mr rs family tname ch d rules w \<noteq> None" for w
        using cons(2) wf by simp
      show "walk_rules mr rs family tname ch d (r # rules) w \<noteq> None"
        using m sub rest
        by (simp add: walk_rules_Cons del: not_None_eq split: outcome.split control.split option.split)
          (metis option.distinct(1))
    qed
  qed
  with assms(2) show ?thesis by blast
qed

lemma walk_bases_total:
  assumes "wf_ruleset rs" and "\<forall>b \<in> set bs. wf_chain (snd b)"
  shows "walk_bases mr rs family bs w \<noteq> None"
  using assms(2)
proof (induction bs arbitrary: w)
  case (Cons b bs)
  obtain tname ch where b: "b = (tname, ch)" by (cases b)
  obtain r w' where "walk_chain mr rs family tname ch 0 w = Some (r, w')"
    using walk_total [OF assms(1), of ch family tname 0 w] Cons.prems b by auto
  with Cons b show ?case by auto
qed simp

lemma traverse_total:
  assumes "wf_ruleset rs" shows "traverse_with mr rs family hook \<noteq> None"
proof (cases "collect_bases family hook (rs_Tables rs)")
  case (Inl e)
  then show ?thesis by (simp add: traverse_with_def)
next
  case (Inr bs)
  have "\<forall>b \<in> set (slice_stable base_less bs). wf_chain (snd b)"
    using collect_bases_base [OF Inr] assms by (fastforce intro: wf_ruleset_chain)
  from walk_bases_total [OF assms this] Inr show ?thesis
    by (simp add: traverse_with_def del: not_None_eq)
qed

end

interpretation rules: rule_matcher "MatchRule pkt" for pkt
  by unfold_locales (rule MatchRule_total)

lemma Traverse_total [nopanic]: "wf_ruleset rs \<Longrightarrow> Traverse rs family hook pkt \<noteq> None"
  using rules.traverse_total [of rs pkt family hook] by (auto simp: Traverse_def split: option.split)

lemma Traverse_cases [nopanic]:
  assumes "wf_ruleset rs" obtains r hs where "Traverse rs family hook pkt = Some (r, hs)"
  using Traverse_total [OF assms, of family hook pkt] by auto

lemma Traverse_verdict:
  "ingressUnmodelled rs pkt = None \<Longrightarrow> collect_bases family hook (rs_Tables rs) = Inr bs \<Longrightarrow>
   map_option (\<lambda>(r, hs). res_Kind r) (Traverse rs family hook pkt) =
     hook_verdict (map (base_verdict (MatchRule pkt) rs family) (slice_stable base_less bs))"
  by (simp add: Traverse_def traverse_verdict)

lemma Traverse_ingress:
  "ingressUnmodelled rs pkt = Some r \<Longrightarrow> Traverse rs family hook pkt = Some (r, [])"
  by (simp add: Traverse_def)

end
