(* ===== verification/Kernel.thy ===== *)
theory Kernel
  imports Walk Match_Specs
begin

text \<open>
  The netfilter evaluation of a chain as nft(8) and \<open>nft_do_chain\<close> describe it, with
  an explicit stack of return positions: a jump pushes the rest of its chain, a goto
  does not, and a chain that ends resumes the top of the stack, or applies the base
  chain's policy when the stack is empty. The walker of \<open>Traverse\<close> is compared with it.
  Both read a rule through the same matcher and look a chain up with \<open>findChain\<close>.
\<close>

section \<open>The stack semantics\<close>

fun policy_kind :: "string \<Rightarrow> result_kind option" where
  "policy_kind p = (if p = ''accept'' then Some RAccept else if p = ''drop'' then Some RDrop else None)"

inductive kernel :: "matcher \<Rightarrow> ruleset \<Rightarrow> string \<Rightarrow> string \<Rightarrow> string \<Rightarrow> rule list \<Rightarrow> rule list list \<Rightarrow> result_kind \<Rightarrow> bool"
  for mr :: matcher and rs family tname policy where
  policy: "policy_kind policy = Some k \<Longrightarrow> kernel mr rs family tname policy [] [] k"
| pop: "kernel mr rs family tname policy rules stk k \<Longrightarrow> kernel mr rs family tname policy [] (rules # stk) k"
| no_match: "mr r (tableSets rs family tname) = Some (OutcomeNoMatch, a) \<Longrightarrow>
    kernel mr rs family tname policy rules stk k \<Longrightarrow> kernel mr rs family tname policy (r # rules) stk k"
| no_effect: "mr r (tableSets rs family tname) = Some (OutcomeSkipped, a) \<Longrightarrow>
    kernel mr rs family tname policy rules stk k \<Longrightarrow> kernel mr rs family tname policy (r # rules) stk k"
| passed: "mr r (tableSets rs family tname) = Some (OutcomeMatch, a) \<Longrightarrow>
    a_Kind a = ''none'' \<or> a_Kind a = ''continue'' \<Longrightarrow>
    kernel mr rs family tname policy rules stk k \<Longrightarrow> kernel mr rs family tname policy (r # rules) stk k"
| accepted: "mr r (tableSets rs family tname) = Some (OutcomeMatch, a) \<Longrightarrow>
    a_Kind a = ''accept'' \<or> a_Kind a = ''dnat'' \<Longrightarrow> kernel mr rs family tname policy (r # rules) stk RAccept"
| dropped: "mr r (tableSets rs family tname) = Some (OutcomeMatch, a) \<Longrightarrow>
    a_Kind a = ''drop'' \<or> a_Kind a = ''reject'' \<Longrightarrow> kernel mr rs family tname policy (r # rules) stk RDrop"
| returned: "mr r (tableSets rs family tname) = Some (OutcomeMatch, a) \<Longrightarrow> a_Kind a = ''return'' \<Longrightarrow>
    kernel mr rs family tname policy [] stk k \<Longrightarrow> kernel mr rs family tname policy (r # rules) stk k"
| jumped: "mr r (tableSets rs family tname) = Some (OutcomeMatch, a) \<Longrightarrow> a_Kind a = ''jump'' \<Longrightarrow>
    findChain rs family tname (a_Chain a) = Some c \<Longrightarrow>
    kernel mr rs family tname policy (ch_Rules c) (rules # stk) k \<Longrightarrow>
    kernel mr rs family tname policy (r # rules) stk k"
| gone: "mr r (tableSets rs family tname) = Some (OutcomeMatch, a) \<Longrightarrow> a_Kind a = ''goto'' \<Longrightarrow>
    findChain rs family tname (a_Chain a) = Some c \<Longrightarrow>
    kernel mr rs family tname policy (ch_Rules c) stk k \<Longrightarrow>
    kernel mr rs family tname policy (r # rules) stk k"

inductive_cases kernel_NilE: "kernel mr rs family tname policy [] [] k"
inductive_cases kernel_PopE: "kernel mr rs family tname policy [] (q # stk) k"
inductive_cases kernel_ConsE: "kernel mr rs family tname policy (r # rules) stk k"

lemma kernel_det:
  "kernel mr rs family tname policy rules stk k \<Longrightarrow> kernel mr rs family tname policy rules stk k' \<Longrightarrow> k' = k"
proof (induction rules stk k arbitrary: k' rule: kernel.induct)
  case (policy k)
  then show ?case by (auto elim: kernel_NilE)
next
  case (pop rules stk k)
  from pop.prems have "kernel mr rs family tname policy rules stk k'" by (rule kernel_PopE)
  then show ?case by (rule pop.IH)
next
  case (no_match r a rules stk k)
  from no_match.prems no_match.hyps(1) no_match.IH show ?case by (auto elim: kernel_ConsE)
next
  case (no_effect r a rules stk k)
  from no_effect.prems no_effect.hyps(1) no_effect.IH show ?case by (auto elim: kernel_ConsE)
next
  case (passed r a rules stk k)
  from passed.prems passed.hyps(1,2) passed.IH show ?case by (auto elim: kernel_ConsE)
next
  case (accepted r a rules stk)
  from accepted.prems accepted.hyps show ?case by (auto elim: kernel_ConsE)
next
  case (dropped r a rules stk)
  from dropped.prems dropped.hyps show ?case by (auto elim: kernel_ConsE)
next
  case (returned r a stk k rules)
  from returned.prems returned.hyps(1,2) returned.IH show ?case by (auto elim: kernel_ConsE)
next
  case (jumped r a c rules stk k)
  from jumped.prems jumped.hyps(1-3) jumped.IH show ?case by (auto elim!: kernel_ConsE)
next
  case (gone r a c stk k rules)
  from gone.prems gone.hyps(1-3) gone.IH show ?case by (auto elim!: kernel_ConsE)
qed

text \<open>A hook: its base chains in order, until one drops.\<close>

inductive kernel_hook :: "matcher \<Rightarrow> ruleset \<Rightarrow> string \<Rightarrow> (string \<times> chain) list \<Rightarrow> result_kind \<Rightarrow> bool"
  for mr :: matcher and rs family where
  all_accepted: "kernel_hook mr rs family [] RAccept"
| accepts: "kernel mr rs family tname (ch_Policy ch) (ch_Rules ch) [] RAccept \<Longrightarrow>
    kernel_hook mr rs family bs k \<Longrightarrow> kernel_hook mr rs family ((tname, ch) # bs) k"
| drops: "kernel mr rs family tname (ch_Policy ch) (ch_Rules ch) [] RDrop \<Longrightarrow>
    kernel_hook mr rs family ((tname, ch) # bs) RDrop"

inductive_cases kernel_hook_NilE: "kernel_hook mr rs family [] k"
inductive_cases kernel_hook_ConsE: "kernel_hook mr rs family ((tname, ch) # bs) k"

lemma kernel_hook_det:
  "kernel_hook mr rs family bs k \<Longrightarrow> kernel_hook mr rs family bs k' \<Longrightarrow> k' = k"
proof (induction bs k arbitrary: k' rule: kernel_hook.induct)
  case all_accepted
  then show ?case by (auto elim: kernel_hook_NilE)
next
  case (accepts tname ch bs k)
  from accepts.prems accepts.hyps(1) accepts.IH show ?case
    by (auto elim!: kernel_hook_ConsE dest: kernel_det)
next
  case (drops tname ch bs)
  from drops.prems drops.hyps show ?case by (auto elim!: kernel_hook_ConsE dest: kernel_det)
qed

section \<open>Where a control transfer comes from\<close>

definition transfers :: "rule \<Rightarrow> string \<Rightarrow> string \<Rightarrow> bool" where
  "transfers r k c \<longleftrightarrow>
     (\<exists>e \<in> set (r_Exprs r). e_Kind e = ExprVerdict \<and>
        (\<exists>v. e_Verdict e = Some v \<and> ve_Kind v = k \<and> ve_Chain v = c))"

definition own_action :: "expr list \<Rightarrow> action \<Rightarrow> bool" where
  "own_action es a \<longleftrightarrow> a_Kind a \<in> {''none'', ''dnat'', ''drop'', ''accept''} \<or>
     (\<exists>e \<in> set es. e_Kind e = ExprVerdict \<and>
        (\<exists>v. e_Verdict e = Some v \<and> ve_Kind v = a_Kind a \<and> ve_Chain v = a_Chain a))"

lemma own_action_none: "own_action es none_action"
  by (auto simp: own_action_def)

lemma natAction_kind: "natAction pkt n regs = Some a \<Longrightarrow> a_Kind a = ''dnat'' \<and> a_DNAT a \<noteq> None"
  by (auto simp: natAction_def split: if_splits option.splits)

lemma match_nat_action: "step_action (match_nat pkt n regs a) = a \<or> a_Kind (step_action (match_nat pkt n regs a)) = ''dnat''"
  by (auto simp: match_nat_def split: option.splits dest: natAction_kind)

lemma match_expr_own:
  assumes "match_expr pkt sets r i e regs a = Some s" and "own_action es a" and "e \<in> set es"
  shows "own_action es (step_action s)"
proof (cases "e_Kind e")
  case ExprXt
  then obtain x where x: "e_Xt e = Some x" "match_xt pkt r i x regs a = Some s"
    using assms(1) by (auto simp: match_expr_def)
  show ?thesis
  proof (cases "xtExpr pkt x")
    case None
    with x assms(2) show ?thesis by (auto simp: match_xt_def)
  next
    case (Some p)
    then obtain out b where "xtExpr pkt x = Some (out, b)" by (cases p) auto
    moreover from this have "own_action es b"
      using xtExpr_target_kinds by (auto simp: own_action_def)
    ultimately show ?thesis
      using x assms(2) by (auto simp: match_xt_def)
  qed
next
  case ExprNAT
  then obtain n where "s = match_nat pkt n regs a"
    using assms(1) by (auto simp: match_expr_def)
  with match_nat_action [of pkt n regs a] have "step_action s = a \<or> a_Kind (step_action s) = ''dnat''"
    by simp
  then show ?thesis
    using assms(2) by (elim disjE) (simp_all add: own_action_def)
next
  case ExprVerdict
  with assms show ?thesis
    by (auto simp: match_expr_def own_action_def)
qed (use assms in \<open>auto simp: match_expr_def\<close>)

lemma match_loop_own:
  "match_loop pkt sets r i es regs a = Some (out, a') \<Longrightarrow> own_action fs a \<Longrightarrow> set es \<subseteq> set fs \<Longrightarrow> own_action fs a'"
proof (induction es arbitrary: i regs a)
  case (Cons e es)
  from Cons.prems(1) show ?case
  proof (cases rule: match_loop_ConsE)
    case (Stop b)
    with match_expr_own [OF Stop(1), of fs] Cons.prems show ?thesis by simp
  next
    case (Next regs' b)
    with match_expr_own [OF Next(1), of fs] Cons.prems have "own_action fs b" by simp
    with Cons.IH [OF Next(2)] Cons.prems(3) show ?thesis by simp
  qed
qed simp

lemma MatchRule_own: "MatchRule pkt r sets = Some (out, a) \<Longrightarrow> own_action (r_Exprs r) a"
  using match_loop_own [of pkt sets r 0 "r_Exprs r" Map.empty none_action out a "r_Exprs r"]
  by (simp add: MatchRule_def own_action_none)

section \<open>Agreement\<close>

text \<open>
  What the walker's comparison asks of a matcher beyond returning: a jump or a goto is
  written in the rule.
\<close>

locale verdict_matcher = rule_matcher +
  assumes mr_transfers: "mr r sets = Some (OutcomeMatch, a) \<Longrightarrow>
    a_Kind a = ''jump'' \<or> a_Kind a = ''goto'' \<Longrightarrow> transfers r (a_Kind a) (a_Chain a)"

text \<open>
  The rulesets the comparison covers: no goto in a regular chain, and no jump or goto to
  a base chain, which the kernel refuses to load.
\<close>

definition flat_chain :: "chain \<Rightarrow> bool" where
  "flat_chain ch \<longleftrightarrow> ch_Base ch \<or> (\<forall>r \<in> set (ch_Rules ch). \<forall>c. \<not> transfers r ''goto'' c)"

definition plain_targets :: "ruleset \<Rightarrow> string \<Rightarrow> string \<Rightarrow> chain \<Rightarrow> bool" where
  "plain_targets rs family tname ch \<longleftrightarrow>
     (\<forall>r \<in> set (ch_Rules ch). \<forall>k c t. transfers r k c \<longrightarrow> k \<in> {''jump'', ''goto''} \<longrightarrow>
        findChain rs family tname c = Some t \<longrightarrow> \<not> ch_Base t)"

definition goto_in_base_only :: "ruleset \<Rightarrow> string \<Rightarrow> bool" where
  "goto_in_base_only rs family \<longleftrightarrow>
     (\<forall>t \<in> set (rs_Tables rs). \<forall>ch \<in> set (t_Chains t).
        flat_chain ch \<and> (\<forall>tname. plain_targets rs family tname ch))"

lemma findChain_flat:
  "goto_in_base_only rs family \<Longrightarrow> findChain rs family tname name = Some c \<Longrightarrow>
   flat_chain c \<and> plain_targets rs family tn c"
  by (auto simp: goto_in_base_only_def findChain_def dest!: find_chain_Some)

lemma terminal_Jump: "terminal_action tname ch r a = Jump c \<longleftrightarrow> a_Kind a = ''jump'' \<and> c = a_Chain a"
  by (auto simp: terminal_action_def)

lemma terminal_Goto: "terminal_action tname ch r a = Goto c \<longleftrightarrow> a_Kind a = ''goto'' \<and> c = a_Chain a"
  by (auto simp: terminal_action_def)

lemma terminal_Continue: "terminal_action tname ch r a = Continue \<longleftrightarrow> a_Kind a = ''none'' \<or> a_Kind a = ''continue''"
  by (auto simp: terminal_action_def)

lemma terminal_End_cases:
  assumes "terminal_action tname ch r a = End x"
  obtains (accept) "a_Kind a = ''accept'' \<or> a_Kind a = ''dnat''" and "res_Kind x = RAccept"
  | (drop) "a_Kind a = ''drop'' \<or> a_Kind a = ''reject''" and "res_Kind x = RDrop"
  | (return) "a_Kind a = ''return''" and "x = return_result tname ch"
  | (unknown) "res_Kind x = RUnknown"
  using assms by (auto simp: terminal_action_def split: if_splits)

text \<open>What the walk of the rules of a regular chain says about the stack semantics.\<close>

definition sub_agrees :: "matcher \<Rightarrow> ruleset \<Rightarrow> string \<Rightarrow> string \<Rightarrow> string \<Rightarrow> rule list \<Rightarrow> result_kind \<Rightarrow> bool" where
  "sub_agrees mr rs family tname policy rules k \<longleftrightarrow>
     k \<noteq> RUnwind \<and>
     (k \<in> {RAccept, RDrop} \<longrightarrow> (\<forall>stk. kernel mr rs family tname policy rules stk k)) \<and>
     (k = RNone \<longrightarrow> (\<forall>stk j. kernel mr rs family tname policy [] stk j \<longrightarrow> kernel mr rs family tname policy rules stk j))"

lemma sub_agrees_unknown [simp]: "sub_agrees mr rs family tname policy rules RUnknown"
  by (simp add: sub_agrees_def)

lemma sub_agrees_step:
  assumes "sub_agrees mr rs family tname policy rules k"
    and "\<And>stk j. kernel mr rs family tname policy rules stk j \<Longrightarrow> kernel mr rs family tname policy (r # rules) stk j"
  shows "sub_agrees mr rs family tname policy (r # rules) k"
  using assms by (auto simp: sub_agrees_def)

lemma sub_agrees_back:
  assumes "mr r (tableSets rs family tname) = Some (OutcomeMatch, a)" and "a_Kind a = ''jump''"
    and "findChain rs family tname (a_Chain a) = Some target"
    and "sub_agrees mr rs family tname policy (ch_Rules target) RNone"
    and "kernel mr rs family tname policy rules stk j"
  shows "kernel mr rs family tname policy (r # rules) stk j"
proof -
  have "kernel mr rs family tname policy [] (rules # stk) j"
    using assms(5) by (rule pop)
  then have "kernel mr rs family tname policy (ch_Rules target) (rules # stk) j"
    using assms(4) by (auto simp: sub_agrees_def)
  with assms(1-3) show ?thesis by (rule jumped)
qed

text \<open>The three ways a base chain ends all apply its policy, in both semantics.\<close>

lemma base_ends:
  assumes "ch_Base ch" and "x = fallthrough tname ch \<or> x = return_result tname ch \<or> x = unwind tname ch"
    and "res_Kind x \<in> {RAccept, RDrop}"
  shows "kernel mr rs family tn (ch_Policy ch) [] [] (res_Kind x)"
proof -
  obtain why where "x = basePolicyResult ch why"
    using assms(1,2) by (auto simp: fallthrough_def return_result_def unwind_def)
  with assms(3) show ?thesis
    by (auto simp: basePolicyResult_def intro!: kernel.policy split: if_splits)
qed

context verdict_matcher
begin

lemma regular_rules_agree:
  assumes sub: "\<And>name c w y w'. findChain rs family tname name = Some c \<Longrightarrow> \<not> ch_Base c \<Longrightarrow>
      walk_chain mr rs family tname c (Suc d) w = Some (y, w') \<Longrightarrow>
      sub_agrees mr rs family tname policy (ch_Rules c) (res_Kind y)"
    and "\<not> ch_Base ch" and "set rules \<subseteq> set (ch_Rules ch)"
    and "flat_chain ch" and "plain_targets rs family tname ch"
    and "walk_rules mr rs family tname ch d rules w = Some (x, w')"
  shows "sub_agrees mr rs family tname policy rules (res_Kind x)"
  using assms(3,6)
proof (induction rules arbitrary: w)
  case Nil
  then show ?case using assms(2) by (auto simp: fallthrough_def sub_agrees_def)
next
  case (Cons r rules)
  then have r: "r \<in> set (ch_Rules ch)" and rules: "set rules \<subseteq> set (ch_Rules ch)" by auto
  have no_goto: "a_Kind a \<noteq> ''goto''" if "mr r (tableSets rs family tname) = Some (OutcomeMatch, a)" for a
    using mr_transfers [OF that] assms(2,4) r by (auto simp: flat_chain_def)
  have regular: "\<not> ch_Base c"
    if "mr r (tableSets rs family tname) = Some (OutcomeMatch, a)" "a_Kind a = ''jump''"
      "findChain rs family tname (a_Chain a) = Some c" for a c
    using mr_transfers [OF that(1)] that(2,3) assms(5) r by (auto simp: plain_targets_def)
  from Cons.prems(2) show ?case
  proof (cases rule: walk_rules_ConsE)
    case (NoMatch a)
    with Cons.IH [OF rules NoMatch(2)] show ?thesis by (blast intro: sub_agrees_step no_match)
  next
    case (Skipped a)
    with Cons.IH [OF rules Skipped(2)] show ?thesis by (blast intro: sub_agrees_step no_effect)
  next
    case (Continue a)
    with Cons.IH [OF rules Continue(3)] show ?thesis
      by (auto simp: terminal_Continue intro: sub_agrees_step passed)
  next
    case (End a)
    from End(2) show ?thesis
    proof (cases rule: terminal_End_cases)
      case accept
      with End(1) show ?thesis by (auto simp: sub_agrees_def intro: accepted)
    next
      case drop
      with End(1) show ?thesis by (auto simp: sub_agrees_def intro: dropped)
    next
      case return
      with End(1) assms(2) show ?thesis by (auto simp: sub_agrees_def return_result_def intro: returned)
    qed simp
  next
    case (Called a c target w1)
    with no_goto have "a_Kind a = ''jump''" "c = a_Chain a"
      by (auto simp: terminal_Jump terminal_Goto)
    with sub [OF Called(3) _ Called(5)] regular Called show ?thesis
      by (auto simp: sub_agrees_def intro: jumped)
  next
    case (Back a c target w1 sub' w2)
    have jump: "a_Kind a = ''jump''" "c = a_Chain a"
      using Back(2) by (auto simp: terminal_Jump)
    then have "sub_agrees mr rs family tname policy (ch_Rules target) RNone"
      using sub [OF Back(3) _ Back(5)] regular Back by auto
    with sub_agrees_back [where mr = mr, OF Back(1)] jump Back(3) Cons.IH [OF rules Back(7)] show ?thesis
      by (blast intro: sub_agrees_step)
  next
    case (Unwound a c target w1 sub')
    have jump: "a_Kind a = ''jump''" "c = a_Chain a" "res_Kind sub' = RUnwind"
      using Unwound(2) no_goto [OF Unwound(1)] by (auto simp: terminal_Jump terminal_Goto)
    with sub [OF Unwound(3) _ Unwound(5)] regular Unwound show ?thesis
      by (auto simp: sub_agrees_def)
  qed simp_all
qed

lemma regular_chain_agrees:
  assumes flat: "goto_in_base_only rs family"
  shows "\<forall>w y w'. \<not> ch_Base c \<longrightarrow> flat_chain c \<longrightarrow> plain_targets rs family tname c \<longrightarrow>
    walk_chain mr rs family tname c d w = Some (y, w') \<longrightarrow>
    sub_agrees mr rs family tname policy (ch_Rules c) (res_Kind y)"
proof (induction c d rule: walk_induct(1)
    [where Q = "\<lambda>ch d rules. \<forall>w x w'. \<not> ch_Base ch \<longrightarrow> set rules \<subseteq> set (ch_Rules ch) \<longrightarrow> flat_chain ch \<longrightarrow>
       plain_targets rs family tname ch \<longrightarrow> walk_rules mr rs family tname ch d rules w = Some (x, w') \<longrightarrow>
       sub_agrees mr rs family tname policy rules (res_Kind x)"])
  case (deep ch d)
  then show ?case by (auto simp: walk_chain.simps)
next
  case (chain ch d)
  then show ?case by (auto simp: walk_chain.simps)
next
  case (nil ch d)
  then show ?case by (auto simp: fallthrough_def sub_agrees_def)
next
  case (cons ch d r rules)
  have sub: "sub_agrees mr rs family tname policy (ch_Rules c) (res_Kind y)"
    if "findChain rs family tname name = Some c" "\<not> ch_Base c"
      "walk_chain mr rs family tname c (Suc d) w = Some (y, w')" for name c w y w'
    using cons(3) that findChain_flat [OF flat that(1), of tname] by blast
  note agree = regular_rules_agree [where d = d, OF sub]
  show ?case
    by (intro allI impI, rule agree) auto
qed

lemma base_rules_agree:
  assumes flat: "goto_in_base_only rs family" and base: "ch_Base ch"
    and "set rules \<subseteq> set (ch_Rules ch)" and targets: "plain_targets rs family tname ch"
    and "walk_rules mr rs family tname ch d rules w = Some (x, w')"
    and "res_Kind x \<in> {RAccept, RDrop}"
  shows "kernel mr rs family tname (ch_Policy ch) rules [] (res_Kind x)"
  using assms(3,5)
proof (induction rules arbitrary: w)
  case Nil
  then have "x = fallthrough tname ch" by simp
  then show ?case using base_ends [OF base _ assms(6)] by blast
next
  case (Cons r rules)
  then have r: "r \<in> set (ch_Rules ch)" and rules: "set rules \<subseteq> set (ch_Rules ch)" by auto
  have sub: "sub_agrees mr rs family tname (ch_Policy ch) (ch_Rules c) (res_Kind y)"
    if "mr r (tableSets rs family tname) = Some (OutcomeMatch, a)"
      "terminal_action tname ch r a = Jump name \<or> terminal_action tname ch r a = Goto name"
      "findChain rs family tname name = Some c"
      "walk_chain mr rs family tname c (Suc d) v = Some (y, v')" for a name c v y v'
  proof -
    have "a_Kind a = ''jump'' \<or> a_Kind a = ''goto''" "name = a_Chain a"
      using that(2) by (auto simp: terminal_Jump terminal_Goto)
    then have "\<not> ch_Base c"
      using mr_transfers [OF that(1)] that(3) targets r by (auto simp: plain_targets_def)
    with regular_chain_agrees [OF flat] findChain_flat [OF flat that(3), of tname] that(4)
    show ?thesis by blast
  qed
  from Cons.prems(2) show ?case
  proof (cases rule: walk_rules_ConsE)
    case (NoMatch a)
    with Cons.IH [OF rules NoMatch(2)] show ?thesis by (blast intro: no_match)
  next
    case (Skipped a)
    with Cons.IH [OF rules Skipped(2)] show ?thesis by (blast intro: no_effect)
  next
    case (Continue a)
    with Cons.IH [OF rules Continue(3)] show ?thesis by (auto simp: terminal_Continue intro: passed)
  next
    case (End a)
    from End(2) show ?thesis
    proof (cases rule: terminal_End_cases)
      case accept
      with End(1) show ?thesis by (auto intro: accepted)
    next
      case drop
      with End(1) show ?thesis by (auto intro: dropped)
    next
      case return
      then show ?thesis using base_ends [OF base _ assms(6)] returned [where mr = mr, OF End(1)] by blast
    next
      case unknown
      with assms(6) show ?thesis by simp
    qed
  next
    case (Called a c target w1)
    with sub [OF Called(1,2,3,5)] assms(6) show ?thesis
      by (auto simp: sub_agrees_def terminal_Jump terminal_Goto intro: jumped gone)
  next
    case (Back a c target w1 sub' w2)
    have jump: "a_Kind a = ''jump''" "c = a_Chain a"
      using Back(2) by (auto simp: terminal_Jump)
    have "sub_agrees mr rs family tname (ch_Policy ch) (ch_Rules target) RNone"
      using sub [OF Back(1) _ Back(3,5)] Back(2,6) by simp
    with sub_agrees_back [where mr = mr, OF Back(1)] jump Back(3) Cons.IH [OF rules Back(7)] show ?thesis by blast
  next
    case (Unwound a c target w1 sub')
    have agrees: "sub_agrees mr rs family tname (ch_Policy ch) (ch_Rules target) (res_Kind sub')"
      using sub [OF Unwound(1) _ Unwound(3,5)] Unwound(2) by auto
    then have goto: "a_Kind a = ''goto''" "c = a_Chain a" "res_Kind sub' = RNone"
      using Unwound(2) by (auto simp: sub_agrees_def terminal_Goto)
    have "kernel mr rs family tname (ch_Policy ch) [] [] (res_Kind x)"
      using Unwound(6) base_ends [OF base _ assms(6)] by blast
    with agrees goto(3) have "kernel mr rs family tname (ch_Policy ch) (ch_Rules target) [] (res_Kind x)"
      by (simp add: sub_agrees_def)
    with gone [where mr = mr, OF Unwound(1) goto(1)] goto(2) Unwound(3) show ?thesis by simp
  qed (use assms(6) in simp_all)
qed

lemma base_agrees:
  assumes "goto_in_base_only rs family" and "ch_Base ch" and "plain_targets rs family tname ch"
    and "base_verdict mr rs family (tname, ch) = Some k" and "k \<in> {RAccept, RDrop}"
  shows "kernel mr rs family tname (ch_Policy ch) (ch_Rules ch) [] k"
  using assms base_rules_agree [OF assms(1,2) order_refl assms(3), where d = 0 and w = start]
  by (auto simp: base_verdict_def walk_chain.simps)

lemma hook_agrees:
  assumes "goto_in_base_only rs family"
    and "\<forall>b \<in> set bs. ch_Base (snd b) \<and> plain_targets rs family (fst b) (snd b)"
    and "hook_verdict (map (base_verdict mr rs family) bs) = Some k" and "k \<in> {RAccept, RDrop}"
  shows "kernel_hook mr rs family bs k"
  using assms(2,3)
proof (induction bs)
  case Nil
  then show ?case by (auto intro: all_accepted)
next
  case (Cons b bs)
  obtain tname ch where b: "b = (tname, ch)" by (cases b)
  note agrees = base_agrees [OF assms(1), of ch tname]
  show ?case
  proof (cases "base_verdict mr rs family b = Some RAccept")
    case True
    with Cons agrees [of RAccept] b show ?thesis by (auto intro!: accepts)
  next
    case False
    with Cons.prems(2) assms(4) have "base_verdict mr rs family b = Some RDrop" "k = RDrop"
      by (auto split: if_splits)
    with Cons agrees [of RDrop] b show ?thesis by (auto intro!: drops)
  qed
qed

end

interpretation evaluated: verdict_matcher "MatchRule pkt" for pkt
proof unfold_locales
  fix r sets a
  assume m: "MatchRule pkt r sets = Some (OutcomeMatch, a)" and k: "a_Kind a = ''jump'' \<or> a_Kind a = ''goto''"
  from MatchRule_own [OF m] k show "transfers r (a_Kind a) (a_Chain a)"
    by (auto simp: own_action_def transfers_def)
qed

end
