(* ===== verification/Traverse_Specs.thy ===== *)
theory Traverse_Specs
  imports Kernel
begin

text \<open>
  What \<open>Traverse\<close> promises: a verdict per base chain combined in priority order,
  agreement with the netfilter stack semantics and where it stops, loops reported and
  never followed, a trace of the rules that were reached, and independence of the order
  in which the kernel listed the tables.
\<close>

section \<open>Results\<close>


text \<open>The internal results of a walk do not leave it.\<close>

lemma hook_verdict_kinds:
  "hook_verdict ks = Some k \<Longrightarrow> set ks \<subseteq> {None} \<union> Some ` {RAccept, RDrop, RUnknown} \<Longrightarrow> k \<in> {RAccept, RDrop, RUnknown}"
  by (induction ks) (auto split: if_splits)

lemma base_verdict_kinds:
  "ch_Base (snd b) \<Longrightarrow> base_verdict mr rs family b \<in> {None} \<union> Some ` {RAccept, RDrop, RUnknown}"
  using walk_chain_base [of "snd b" mr rs family "fst b" 0 start]
  by (cases "walk_chain mr rs family (fst b) (snd b) 0 start") (auto simp: base_verdict_def)

lemma Traverse_kinds':
  assumes "Traverse rs family hook pkt = Some (r, hs)"
  shows "res_Kind r \<in> {RAccept, RDrop, RUnknown}"
proof (cases "ingressUnmodelled rs pkt")
  case None
  show ?thesis
  proof (cases "collect_bases family hook (rs_Tables rs)")
    case (Inl e)
    with assms None show ?thesis
      using collect_bases_unknown [OF Inl] by (simp add: Traverse_def traverse_with_def)
  next
    case (Inr bs)
    have "hook_verdict (map (base_verdict (MatchRule pkt) rs family) (slice_stable base_less bs)) = Some (res_Kind r)"
      using Traverse_verdict [OF None Inr] assms by simp
    then show ?thesis
      by (rule hook_verdict_kinds) (use collect_bases_base [OF Inr] base_verdict_kinds in \<open>fastforce\<close>)
  qed
next
  case (Some e)
  with assms ingress_unknown [OF Some] show ?thesis by (simp add: Traverse_def)
qed

text \<open>Supporting (Traverse_kinds): a traversal ends in accept, drop or unknown; the two internal outcomes of
  a regular chain never escape a base chain, so the walker's last-resort branch is dead.\<close>

theorem Traverse_kinds:
  assumes "Traverse rs family hook pkt = Some (r, hs)"
  shows "res_Kind r \<in> {RAccept, RDrop, RUnknown}"
  using assms by (rule Traverse_kinds')

definition empty_ruleset :: ruleset where
  "empty_ruleset = \<lparr>rs_Tables = [], rs_ReadFailed = False\<rparr>"

theorem Traverse_kinds_witness:
  "\<exists>r hs. Traverse empty_ruleset ''ip'' ''input'' probe_packet = Some (r, hs) \<and> res_Kind r \<in> {RAccept, RDrop, RUnknown}"
proof -
  have t: "Traverse empty_ruleset ''ip'' ''input'' probe_packet =
      Some (\<lparr>res_Kind = RAccept, res_Reason = [], res_DNAT = None\<rparr>, [])"
    by (simp add: Traverse_def ingressUnmodelled_def empty_ruleset_def traverse_with_def)
  from Traverse_kinds [OF t] t show ?thesis by blast
qed

section \<open>Agreement with the stack semantics\<close>

lemma collect_bases_plain:
  assumes "goto_in_base_only rs family" and "collect_bases family hook (rs_Tables rs) = Inr bs"
  shows "\<forall>b \<in> set (slice_stable base_less bs). ch_Base (snd b) \<and> plain_targets rs family (fst b) (snd b)"
  using collect_bases_base [OF assms(2)] assms(1) by (fastforce simp: goto_in_base_only_def)

lemma Traverse_kernel:
  assumes "goto_in_base_only rs family"
    and "Traverse rs family hook pkt = Some (r, hs)" and "res_Kind r \<noteq> RUnknown"
  shows "\<exists>bs. collect_bases family hook (rs_Tables rs) = Inr bs \<and>
    (\<forall>k. kernel_hook (MatchRule pkt) rs family (slice_stable base_less bs) k \<longleftrightarrow> k = res_Kind r)"
proof -
  have no_ingress: "ingressUnmodelled rs pkt = None"
    using assms(2,3) ingress_unknown by (auto simp: Traverse_def split: option.splits)
  obtain bs where bs: "collect_bases family hook (rs_Tables rs) = Inr bs"
    using assms(2,3) no_ingress collect_bases_unknown
    by (cases "collect_bases family hook (rs_Tables rs)") (auto simp: Traverse_def traverse_with_def)
  let ?sorted = "slice_stable base_less bs"
  have v: "hook_verdict (map (base_verdict (MatchRule pkt) rs family) ?sorted) = Some (res_Kind r)"
    using Traverse_verdict [OF no_ingress bs] assms(2) by simp
  have "res_Kind r \<in> {RAccept, RDrop, RUnknown}"
    by (rule hook_verdict_kinds [OF v]) (use collect_bases_base [OF bs] base_verdict_kinds in \<open>fastforce\<close>)
  with assms(3) have "kernel_hook (MatchRule pkt) rs family ?sorted (res_Kind r)"
    by (intro evaluated.hook_agrees [OF assms(1) collect_bases_plain [OF assms(1) bs] v]) auto
  with bs kernel_hook_det show ?thesis by blast
qed


text \<open>A base chain with an accept policy and some rules, in a table of its own.\<close>

definition base_chain :: "string \<Rightarrow> string \<Rightarrow> rule list \<Rightarrow> chain" where
  "base_chain name policy rules =
     \<lparr>ch_Name = name, ch_Base = True, ch_Hook = ''input'', ch_Priority = 0, ch_Devices = [],
      ch_Policy = policy, ch_Rules = rules\<rparr>"

definition plain_chain :: "string \<Rightarrow> rule list \<Rightarrow> chain" where
  "plain_chain name rules =
     \<lparr>ch_Name = name, ch_Base = False, ch_Hook = [], ch_Priority = 0, ch_Devices = [],
      ch_Policy = [], ch_Rules = rules\<rparr>"

lemma chain_shapes [simp]:
  "ch_Rules (plain_chain n rules) = rules" "ch_Rules (base_chain n p rules) = rules"
  "ch_Policy (base_chain n p rules) = p" "ch_Base (plain_chain n rules) = False"
  by (simp_all add: plain_chain_def base_chain_def)

definition one_table :: "chain list \<Rightarrow> ruleset" where
  "one_table chs = \<lparr>rs_Tables = [\<lparr>t_Family = ''inet'', t_Name = ''t'', t_Chains = chs, t_Sets = []\<rparr>],
     rs_ReadFailed = False\<rparr>"

definition verdict_rule :: "string \<Rightarrow> string \<Rightarrow> rule" where
  "verdict_rule k c = \<lparr>r_Handle = 1, r_Exprs = [verdict_e k c]\<rparr>"

lemma MatchRule_verdict [simp]:
  "MatchRule pkt (verdict_rule k c) sets = Some (OutcomeMatch, verdict_action k c)"
  by (simp add: MatchRule_def verdict_rule_def)

lemma transfers_verdict_rule [simp]: "transfers (verdict_rule k c) j n \<longleftrightarrow> j = k \<and> n = c"
  by (auto simp: transfers_def verdict_rule_def verdict_e_def expr0_def)

lemma verdict_action_simps [simp]:
  "a_Kind (verdict_action k c) = k" "a_Chain (verdict_action k c) = c" "a_DNAT (verdict_action k c) = None"
  by (simp_all add: verdict_action_def)

definition jump_ruleset :: ruleset where
  "jump_ruleset = one_table [base_chain ''in'' ''drop'' [verdict_rule ''jump'' ''sub'', verdict_rule ''accept'' []],
     plain_chain ''sub'' [verdict_rule ''return'' []]]"

lemma jump_ruleset_walk:
  "\<exists>r hs. Traverse jump_ruleset ''ip'' ''input'' probe_packet = Some (r, hs) \<and> res_Kind r = RAccept"
  by (simp add: Traverse_def ingressUnmodelled_def jump_ruleset_def one_table_def traverse_with_def
      base_chain_def plain_chain_def knownHooks_def walk_chain.simps walk_rules_Cons terminal_action_def
      findChain_def walked_table_def maxJumpDepth_def return_result_def)


text \<open>
  A goto under a jump: the base chain jumps to \<open>a\<close>, \<open>a\<close> goes to the empty chain \<open>b\<close>, and
  after the jump the base chain drops. The policy is accept.
\<close>

definition goto_ruleset :: ruleset where
  "goto_ruleset = one_table [base_chain ''in'' ''accept'' [verdict_rule ''jump'' ''a'', verdict_rule ''drop'' []],
     plain_chain ''a'' [verdict_rule ''goto'' ''b''], plain_chain ''b'' []]"

text \<open>C40 (goto_under_jump_differs): the bound of the agreement is real. For a goto in a chain that was
  jumped to, the walker applies the base chain's policy when the goto's target falls through, while
  the stack semantics resumes after the jump: there is a ruleset the walker accepts and the kernel
  drops.\<close>

theorem goto_under_jump_differs:
  "(\<exists>r hs. Traverse goto_ruleset ''ip'' ''input'' probe_packet = Some (r, hs) \<and> res_Kind r = RAccept) \<and>
   (\<exists>bs. collect_bases ''ip'' ''input'' (rs_Tables goto_ruleset) = Inr bs \<and>
      kernel_hook (MatchRule probe_packet) goto_ruleset ''ip'' (slice_stable base_less bs) RDrop)"
proof
  show "\<exists>r hs. Traverse goto_ruleset ''ip'' ''input'' probe_packet = Some (r, hs) \<and> res_Kind r = RAccept"
    by (simp add: Traverse_def ingressUnmodelled_def goto_ruleset_def one_table_def traverse_with_def
      base_chain_def plain_chain_def knownHooks_def walk_chain.simps walk_rules_Cons terminal_action_def
      findChain_def walked_table_def maxJumpDepth_def fallthrough_def unwind_def basePolicyResult_def)
  let ?base = "base_chain ''in'' ''accept'' [verdict_rule ''jump'' ''a'', verdict_rule ''drop'' []]"
  let ?k = "kernel (MatchRule probe_packet) goto_ruleset ''ip'' ''t'' (ch_Policy ?base)"
  have find: "findChain goto_ruleset ''ip'' ''t'' ''a'' = Some (plain_chain ''a'' [verdict_rule ''goto'' ''b''])"
    "findChain goto_ruleset ''ip'' ''t'' ''b'' = Some (plain_chain ''b'' [])"
    by (simp_all add: goto_ruleset_def one_table_def findChain_def walked_table_def base_chain_def plain_chain_def)
  have "?k [verdict_rule ''drop'' []] [] RDrop"
    by (rule dropped [where a = "verdict_action ''drop'' []"]) simp_all
  then have "?k [] [[verdict_rule ''drop'' []]] RDrop" by (rule pop)
  then have "?k [verdict_rule ''goto'' ''b''] [[verdict_rule ''drop'' []]] RDrop"
    using find by (intro gone [where c = "plain_chain ''b'' []" and a = "verdict_action ''goto'' ''b''"]) simp_all
  then have "?k [verdict_rule ''jump'' ''a'', verdict_rule ''drop'' []] [] RDrop"
    using find by (intro jumped [where c = "plain_chain ''a'' [verdict_rule ''goto'' ''b'']"
          and a = "verdict_action ''jump'' ''a''"]) simp_all
  then have "?k (ch_Rules ?base) [] RDrop" by simp
  then have "kernel_hook (MatchRule probe_packet) goto_ruleset ''ip'' [(''t'', ?base)] RDrop"
    by (rule drops)
  moreover have "collect_bases ''ip'' ''input'' (rs_Tables goto_ruleset) = Inr [(''t'', ?base)]"
    by (simp add: goto_ruleset_def one_table_def base_chain_def plain_chain_def knownHooks_def)
  ultimately show "\<exists>bs. collect_bases ''ip'' ''input'' (rs_Tables goto_ruleset) = Inr bs \<and>
      kernel_hook (MatchRule probe_packet) goto_ruleset ''ip'' (slice_stable base_less bs) RDrop"
    by simp
qed

section \<open>Loops\<close>

text \<open>
  A set of chains each of which starts with an unconditional jump or goto to a chain of
  the set.
\<close>

definition jump_loop :: "ruleset \<Rightarrow> string \<Rightarrow> string \<Rightarrow> chain set \<Rightarrow> bool" where
  "jump_loop rs family tname S \<longleftrightarrow>
     (\<forall>c \<in> S. \<exists>h k n rest c'. ch_Rules c = \<lparr>r_Handle = h, r_Exprs = [verdict_e k n]\<rparr> # rest \<and>
        (k = ''jump'' \<or> k = ''goto'') \<and> findChain rs family tname n = Some c' \<and> c' \<in> S)"

text \<open>C8 (jump_loop_unknown): a jump or goto loop is followed to the nesting bound and then reported
  as unknown, at whatever depth it is entered and whatever its chains' policies; the walk
  returns.\<close>

theorem jump_loop_unknown:
  assumes loop: "jump_loop rs family tname S" and c: "c \<in> S"
  shows "\<exists>x w'. walk_chain (MatchRule pkt) rs family tname c d w = Some (x, w') \<and> res_Kind x = RUnknown"
  using c
proof (induction d arbitrary: c w rule: depth_induct)
  case (deep d)
  then show ?case by (simp add: walk_chain.simps)
next
  case (step d)
  obtain h k m rest c' where c: "ch_Rules c = \<lparr>r_Handle = h, r_Exprs = [verdict_e k m]\<rparr> # rest"
    "k = ''jump'' \<or> k = ''goto''" "findChain rs family tname m = Some c'" "c' \<in> S"
    using loop step.prems by (fastforce simp: jump_loop_def)
  have match: "MatchRule pkt \<lparr>r_Handle = h, r_Exprs = [verdict_e k m]\<rparr> sets =
      Some (OutcomeMatch, verdict_action k m)" for sets
    by (simp add: MatchRule_def)
  from step.IH [OF c(4)] obtain x w' where
    "walk_chain (MatchRule pkt) rs family tname c' (Suc d)
      (record_hit family tname c \<lparr>r_Handle = h, r_Exprs = [verdict_e k m]\<rparr> k w) = Some (x, w')"
    and "res_Kind x = RUnknown"
    by blast
  with c match step.hyps show ?case
    by (subst walk_chain.simps) (elim disjE, simp_all add: walk_rules_Cons terminal_action_def)
qed

definition self_jump :: chain where
  "self_jump = plain_chain ''loop'' [verdict_rule ''jump'' ''loop'', verdict_rule ''accept'' []]"

theorem jump_loop_unknown_witness:
  "\<exists>x w'. walk_chain (MatchRule probe_packet) (one_table [self_jump]) ''ip'' ''t'' self_jump 0 start = Some (x, w')
     \<and> res_Kind x = RUnknown"
proof (rule jump_loop_unknown [where S = "{self_jump}"])
  have "findChain (one_table [self_jump]) ''ip'' ''t'' ''loop'' = Some self_jump"
    by (simp add: findChain_def one_table_def walked_table_def self_jump_def plain_chain_def)
  then show "jump_loop (one_table [self_jump]) ''ip'' ''t'' {self_jump}"
    by (auto simp: jump_loop_def self_jump_def plain_chain_def verdict_rule_def)
qed simp

section \<open>The trace\<close>

text \<open>A hit worth its place: the matcher's answer for the rule, as the walker recorded it.\<close>

definition sound_hit :: "matcher \<Rightarrow> ruleset \<Rightarrow> result_kind \<Rightarrow> hit \<Rightarrow> bool" where
  "sound_hit mr rs k h \<longleftrightarrow>
     (\<exists>out a. mr (hit_Rule h) (tableSets rs (hit_Family h) (hit_Table h)) = Some (out, a) \<and>
        out \<noteq> OutcomeNoMatch \<and>
        hit_Action h = (if out = OutcomeSkipped then ''skipped'' else a_Kind a) \<and>
        (k \<noteq> RUnknown \<longrightarrow> out \<noteq> OutcomeUnknown))"

definition sound_trace :: "matcher \<Rightarrow> ruleset \<Rightarrow> result_kind \<Rightarrow> wstate \<Rightarrow> wstate \<Rightarrow> bool" where
  "sound_trace mr rs k w w' \<longleftrightarrow> (\<exists>hs. w_hits w' = w_hits w @ hs \<and> (\<forall>h \<in> set hs. sound_hit mr rs k h))"

lemma sound_trace_refl [simp]: "sound_trace mr rs k w w"
  by (simp add: sound_trace_def)

lemma sound_trace_trans:
  "sound_trace mr rs k w v \<Longrightarrow> sound_trace mr rs k v u \<Longrightarrow> sound_trace mr rs k w u"
  by (fastforce simp: sound_trace_def)

lemma sound_hit_weaken: "sound_hit mr rs j h \<Longrightarrow> j \<noteq> RUnknown \<or> k = RUnknown \<Longrightarrow> sound_hit mr rs k h"
  unfolding sound_hit_def by blast

lemma sound_trace_weaken:
  "sound_trace mr rs j w v \<Longrightarrow> j \<noteq> RUnknown \<or> k = RUnknown \<Longrightarrow> sound_trace mr rs k w v"
  unfolding sound_trace_def using sound_hit_weaken by blast

lemma w_hits_set_dnat [simp]: "w_hits (set_dnat a w) = w_hits w"
  by (simp add: set_dnat_def)

lemma sound_trace_set_dnat [simp]: "sound_trace mr rs k w (set_dnat a v) = sound_trace mr rs k w v"
  by (simp add: sound_trace_def)

lemma sound_trace_record:
  assumes "mr r (tableSets rs family tname) = Some (out, a)" and "out \<noteq> OutcomeNoMatch"
    and "act_text = (if out = OutcomeSkipped then ''skipped'' else a_Kind a)"
    and "k \<noteq> RUnknown \<Longrightarrow> out \<noteq> OutcomeUnknown"
  shows "sound_trace mr rs k w (record_hit family tname ch r act_text w)"
  using assms by (auto simp: sound_trace_def sound_hit_def record_hit_def)

lemma sound_trace_match:
  "mr r (tableSets rs family tname) = Some (OutcomeMatch, a) \<Longrightarrow>
   sound_trace mr rs k w (record_hit family tname ch r (a_Kind a) w)"
  by (erule sound_trace_record) simp_all

lemma sound_trace_skipped:
  "mr r (tableSets rs family tname) = Some (OutcomeSkipped, a) \<Longrightarrow>
   sound_trace mr rs k w (record_hit family tname ch r ''skipped'' w)"
  by (erule sound_trace_record) simp_all

lemma sound_trace_unknown:
  "mr r (tableSets rs family tname) = Some (OutcomeUnknown, a) \<Longrightarrow>
   sound_trace mr rs RUnknown w (record_hit family tname ch r (a_Kind a) w)"
  by (erule sound_trace_record) simp_all

lemma walk_rules_sound:
  assumes sub: "\<And>c w y w'. walk_chain mr rs family tname c (Suc d) w = Some (y, w') \<Longrightarrow>
      sound_trace mr rs (res_Kind y) w w'"
  shows "walk_rules mr rs family tname ch d rules w = Some (x, w') \<Longrightarrow> sound_trace mr rs (res_Kind x) w w'"
proof (induction rules arbitrary: w)
  case Nil
  then show ?case by simp
next
  case (Cons r rules)
  from Cons.prems show ?case
  proof (cases rule: walk_rules_ConsE)
    case (NoMatch a)
    with Cons.IH show ?thesis by blast
  next
    case (Skipped a)
    from sound_trace_skipped [where mr = mr, OF Skipped(1)] Cons.IH [OF Skipped(2)]
    show ?thesis by (auto intro: sound_trace_trans)
  next
    case (Unknown a)
    with sound_trace_unknown [where mr = mr, OF Unknown(1)] show ?thesis by auto
  next
    case (End a)
    with sound_trace_match [where mr = mr, OF End(1)] show ?thesis by auto
  next
    case (Continue a)
    from sound_trace_match [where mr = mr, OF Continue(1)] Cons.IH [OF Continue(3)] show ?thesis
      by (auto intro: sound_trace_trans)
  next
    case (Missing a c)
    with sound_trace_match [where mr = mr, OF Missing(1)] show ?thesis by auto
  next
    case (Called a c target w1)
    from sound_trace_match [where mr = mr, OF Called(1)] sub [OF Called(5)] Called(4) show ?thesis
      by (auto intro: sound_trace_trans)
  next
    case (Back a c target w1 sub' w2)
    have "sound_trace mr rs (res_Kind x) w1 w2"
      using sub [OF Back(5)] Back(6) by (auto intro: sound_trace_weaken)
    then have "sound_trace mr rs (res_Kind x) w1 w'"
      using Cons.IH [OF Back(7)] by (rule sound_trace_trans)
    with sound_trace_match [where mr = mr, OF Back(1)] Back(4) show ?thesis
      by (auto intro: sound_trace_trans)
  next
    case (Unwound a c target w1 sub')
    have "res_Kind sub' \<noteq> RUnknown" using Unwound(2) by auto
    then have "sound_trace mr rs (res_Kind x) w1 w'"
      using sub [OF Unwound(5)] by (auto intro: sound_trace_weaken)
    with sound_trace_match [where mr = mr, OF Unwound(1)] Unwound(4) show ?thesis
      by (auto intro: sound_trace_trans)
  qed
qed

lemma walk_chain_sound:
  "walk_chain mr rs family tname c d w = Some (y, w') \<Longrightarrow> sound_trace mr rs (res_Kind y) w w'"
proof -
  have "\<forall>w y w'. walk_chain mr rs family tname c d w = Some (y, w') \<longrightarrow> sound_trace mr rs (res_Kind y) w w'"
  proof (induction c d rule: walk_induct(1)
      [where Q = "\<lambda>ch d rules. \<forall>w x w'. walk_rules mr rs family tname ch d rules w = Some (x, w') \<longrightarrow>
         sound_trace mr rs (res_Kind x) w w'"])
    case (deep ch d)
    then show ?case by (auto simp: walk_chain.simps)
  next
    case (chain ch d)
    then show ?case by (auto simp: walk_chain.simps)
  next
    case (nil ch d)
    then show ?case by simp
  next
    case (cons ch d r rules)
    then show ?case using walk_rules_sound by blast
  qed
  then show "walk_chain mr rs family tname c d w = Some (y, w') \<Longrightarrow> sound_trace mr rs (res_Kind y) w w'" by blast
qed

lemma walk_bases_sound:
  "walk_bases mr rs family bs w = Some (x, w') \<Longrightarrow> sound_trace mr rs (res_Kind x) w w'"
proof (induction bs arbitrary: w)
  case Nil
  then show ?case by auto
next
  case (Cons b bs)
  obtain tname ch where b: "b = (tname, ch)" by (cases b)
  obtain y v where y: "walk_chain mr rs family tname ch 0 w = Some (y, v)"
    using Cons.prems b by (auto split: option.splits)
  note sound = walk_chain_sound [OF y]
  show ?case
  proof (cases "res_Kind y = RAccept")
    case True
    with sound have "sound_trace mr rs (res_Kind x) w v" by (auto intro: sound_trace_weaken)
    with True Cons y b show ?thesis by (auto intro: sound_trace_trans)
  next
    case False
    with Cons.prems y b sound show ?thesis
      by (auto split: if_splits intro: sound_trace_weaken)
  qed
qed



section \<open>The order of the tables\<close>

definition walked_family :: "string \<Rightarrow> table \<Rightarrow> bool" where
  "walked_family family t \<longleftrightarrow> t_Family t = family \<or> t_Family t = ''inet''"

definition distinct_names :: "string \<Rightarrow> table list \<Rightarrow> bool" where
  "distinct_names family ts \<longleftrightarrow>
     distinct (map t_Name (filter (walked_family family) ts)) \<and>
     (\<forall>t \<in> set ts. distinct (map ch_Name (t_Chains t)))"

text \<open>At most one table has a given name: looking it up does not depend on the order.\<close>

lemma find_chain_filter:
  "find_chain family tname name ts = find_chain family tname name (filter (walked_table family tname) ts)"
  by (induction ts) (auto split: option.split)

lemma table_sets_filter:
  "table_sets family tname ts = table_sets family tname (filter (walked_table family tname) ts)"
  by (induction ts) auto

lemma walked_table_family: "walked_table family tname t \<longleftrightarrow> walked_family family t \<and> t_Name t = tname"
  by (auto simp: walked_table_def walked_family_def)

lemma distinct_filter_one:
  "distinct (map f xs) \<Longrightarrow> length (filter (\<lambda>x. f x = y) xs) \<le> 1"
proof (induction xs)
  case (Cons x xs)
  then show ?case by (auto simp: filter_empty_conv image_iff)
qed simp

lemma walked_table_one:
  assumes "distinct_names family ts"
  shows "length (filter (walked_table family tname) ts) \<le> 1"
proof -
  have "filter (walked_table family tname) ts
      = filter (\<lambda>t. t_Name t = tname) (filter (walked_family family) ts)"
    by (simp add: walked_table_family [abs_def])
  with distinct_filter_one [of t_Name "filter (walked_family family) ts" tname] assms
  show ?thesis by (simp add: distinct_names_def del: filter_filter)
qed

lemma short_mset_eq: "mset xs = mset ys \<Longrightarrow> length xs \<le> 1 \<Longrightarrow> xs = ys"
  by (cases xs) (auto simp: length_Suc_conv dest: mset_eq_length)

lemma lookup_order_free:
  assumes "distinct_names family ts" and "mset ts = mset ts'"
  shows "find_chain family tname name ts = find_chain family tname name ts'"
    and "table_sets family tname ts = table_sets family tname ts'"
proof -
  have "filter (walked_table family tname) ts = filter (walked_table family tname) ts'"
    using assms by (intro short_mset_eq walked_table_one) simp_all
  then show "find_chain family tname name ts = find_chain family tname name ts'"
    and "table_sets family tname ts = table_sets family tname ts'"
    by (metis find_chain_filter, metis table_sets_filter)
qed

lemma walk_rules_cong:
  assumes "tableSets rs family tname = tableSets rs' family tname"
    and "findChain rs family tname = findChain rs' family tname"
    and sub: "\<And>c. walk_chain mr rs family tname c (Suc d) = walk_chain mr rs' family tname c (Suc d)"
    and rest: "walk_rules mr rs family tname ch d rules = walk_rules mr rs' family tname ch d rules"
  shows "walk_rules mr rs family tname ch d (r # rules) = walk_rules mr rs' family tname ch d (r # rules)"
  unfolding walk_rules_run assms ..

lemma walk_chain_cong:
  assumes "tableSets rs family tname = tableSets rs' family tname"
    and "findChain rs family tname = findChain rs' family tname"
  shows "walk_chain mr rs family tname ch d = walk_chain mr rs' family tname ch d"
proof (induction ch d rule: walk_induct(1)
    [where Q = "\<lambda>ch d rules. walk_rules mr rs family tname ch d rules = walk_rules mr rs' family tname ch d rules"])
  case (deep ch d)
  then show ?case by (intro ext) (simp add: walk_chain.simps)
next
  case (chain ch d)
  then show ?case by (intro ext) (simp add: walk_chain.simps)
next
  case (nil ch d)
  then show ?case by (simp add: walk_rules_Nil_run)
next
  case (cons ch d r rules)
  then show ?case by (intro walk_rules_cong assms)
qed

lemma walk_bases_cong:
  assumes "\<And>tname. tableSets rs family tname = tableSets rs' family tname"
    and "\<And>tname. findChain rs family tname = findChain rs' family tname"
  shows "walk_bases mr rs family bs w = walk_bases mr rs' family bs w"
proof (induction bs arbitrary: w)
  case (Cons b bs)
  obtain tname ch where b: "b = (tname, ch)" by (cases b)
  with Cons walk_chain_cong [OF assms(1) assms(2), of mr tname ch 0] show ?case
    by (auto split: option.split)
qed simp

text \<open>The base chains of a hook, as a multiset.\<close>

definition hook_chains :: "string \<Rightarrow> table \<Rightarrow> (string \<times> chain) list" where
  "hook_chains hook t = map (Pair (t_Name t)) (filter (\<lambda>c. ch_Base c \<and> ch_Hook c = hook) (t_Chains t))"

definition hooks_known :: "table \<Rightarrow> bool" where
  "hooks_known t \<longleftrightarrow> (\<forall>c \<in> set (t_Chains t). ch_Base c \<longrightarrow> ch_Hook c \<in> set knownHooks)"

lemma collect_chains_known:
  "\<forall>c \<in> set chs. ch_Base c \<longrightarrow> ch_Hook c \<in> set knownHooks \<Longrightarrow>
   collect_chains hook tname chs = Inr (filter (\<lambda>c. ch_Base c \<and> ch_Hook c = hook) chs)"
  by (induction chs) auto

lemma collect_chains_unknown_hook:
  "c \<in> set chs \<Longrightarrow> ch_Base c \<Longrightarrow> ch_Hook c \<notin> set knownHooks \<Longrightarrow>
   \<exists>e. collect_chains hook tname chs = Inl e"
  by (induction chs) (auto split: sum.splits)

lemma collect_bases_known:
  "(\<forall>t \<in> set ts. walked_family family t \<longrightarrow> hooks_known t) \<Longrightarrow>
   collect_bases family hook ts = Inr (concat (map (hook_chains hook) (filter (walked_family family) ts)))"
proof (induction ts)
  case (Cons t ts)
  show ?case
  proof (cases "walked_family family t")
    case True
    with Cons.prems have "collect_chains hook (t_Name t) (t_Chains t) =
        Inr (filter (\<lambda>c. ch_Base c \<and> ch_Hook c = hook) (t_Chains t))"
      by (intro collect_chains_known) (simp add: hooks_known_def)
    with True Cons show ?thesis by (auto simp: walked_family_def hook_chains_def)
  next
    case False
    with Cons show ?thesis by (auto simp: walked_family_def)
  qed
qed simp

lemma collect_bases_unknown_hook:
  "\<not> (\<forall>t \<in> set ts. walked_family family t \<longrightarrow> hooks_known t) \<Longrightarrow>
   \<exists>e. collect_bases family hook ts = Inl e"
proof (induction ts)
  case (Cons t ts)
  show ?case
  proof (cases "walked_family family t")
    case True
    show ?thesis
    proof (cases "hooks_known t")
      case True
      with Cons \<open>walked_family family t\<close> show ?thesis
        by (auto simp: walked_family_def split: sum.splits)
    next
      case False
      then obtain e where "collect_chains hook (t_Name t) (t_Chains t) = Inl e"
        using collect_chains_unknown_hook by (auto simp: hooks_known_def) blast
      with True show ?thesis by (auto simp: walked_family_def)
    qed
  next
    case False
    with Cons show ?thesis by (auto simp: walked_family_def)
  qed
qed simp

lemma hook_chains_key_inj:
  assumes "distinct_names family ts"
  shows "inj_on base_key (set (concat (map (hook_chains hook) (filter (walked_family family) ts))))"
proof (rule inj_onI)
  fix x y
  assume x: "x \<in> set (concat (map (hook_chains hook) (filter (walked_family family) ts)))"
    and y: "y \<in> set (concat (map (hook_chains hook) (filter (walked_family family) ts)))"
    and eq: "base_key x = base_key y"
  obtain t where t: "t \<in> set ts" "walked_family family t" "fst x = t_Name t" "snd x \<in> set (t_Chains t)"
    using x by (auto simp: hook_chains_def)
  obtain u where u: "u \<in> set ts" "walked_family family u" "fst y = t_Name u" "snd y \<in> set (t_Chains u)"
    using y by (auto simp: hook_chains_def)
  have names: "fst x = fst y" "ch_Name (snd x) = ch_Name (snd y)"
    using eq by (simp_all add: base_key_def)
  have "inj_on t_Name (set (filter (walked_family family) ts))"
    using assms by (simp add: distinct_names_def distinct_map)
  with t u names have "t = u" by (auto dest: inj_onD)
  have "inj_on ch_Name (set (t_Chains t))"
    using assms t(1) by (simp add: distinct_names_def distinct_map)
  with t u names \<open>t = u\<close> have "snd x = snd y" by (auto dest: inj_onD)
  with names show "x = y" by (simp add: prod_eq_iff)
qed

lemma ingress_chain_None:
  "ingress_chain iface tname chs = None \<longleftrightarrow>
     (\<forall>c \<in> set chs. ch_Base c \<longrightarrow> ch_Hook c = ''ingress'' \<longrightarrow> \<not> chainSeesIface (ch_Devices c) iface)"
  by (induction chs) (auto simp: Let_def)

lemma ingress_None:
  "ingressUnmodelled rs pkt = None \<longleftrightarrow>
     (\<forall>t \<in> set (rs_Tables rs). ingress_chain (p_InIface pkt) (t_Name t) (t_Chains t) = None)"
proof -
  have "ingress_table iface ts = None \<longleftrightarrow> (\<forall>t \<in> set ts. ingress_chain iface (t_Name t) (t_Chains t) = None)"
    for iface ts
    by (induction ts) (auto split: option.split)
  then show ?thesis by (simp add: ingressUnmodelled_def)
qed

definition kind_and_trace :: "(walk_result \<times> hit list) panics \<Rightarrow> (result_kind \<times> hit list) option" where
  "kind_and_trace = map_option (\<lambda>(r, hs). (res_Kind r, hs))"

text \<open>Supporting (Traverse_table_order): where table names are distinct within the families walked, and chain
  names within a table, the verdict and the trace do not depend on the order in which the kernel
  listed the tables.\<close>

theorem Traverse_table_order:
  assumes "distinct_names family (rs_Tables rs)" and "mset (rs_Tables rs') = mset (rs_Tables rs)"
  shows "kind_and_trace (Traverse rs' family hook pkt) = kind_and_trace (Traverse rs family hook pkt)"
proof -
  have tables: "set (rs_Tables rs') = set (rs_Tables rs)"
    using assms(2) by (metis mset_eq_setD)
  have ingress: "ingressUnmodelled rs' pkt = None \<longleftrightarrow> ingressUnmodelled rs pkt = None"
    by (simp add: ingress_None tables)
  show ?thesis
  proof (cases "ingressUnmodelled rs pkt")
    case (Some r)
    then obtain r' where "ingressUnmodelled rs' pkt = Some r'" using ingress by fastforce
    with Some show ?thesis by (simp add: kind_and_trace_def Traverse_def ingress_unknown)
  next
    case None
    then have none': "ingressUnmodelled rs' pkt = None" using ingress by simp
    show ?thesis
    proof (cases "\<forall>t \<in> set (rs_Tables rs). walked_family family t \<longrightarrow> hooks_known t")
      case True
      let ?bs = "\<lambda>ts. concat (map (hook_chains hook) (filter (walked_family family) ts))"
      have "mset (?bs (rs_Tables rs)) = mset (?bs (rs_Tables rs'))"
        using assms(2) by (simp add: mset_concat flip: mset_map mset_filter)
          (metis mset_filter mset_map sum_mset_sum_list)
      then have bs: "slice_stable base_less (?bs (rs_Tables rs)) = slice_stable base_less (?bs (rs_Tables rs'))"
        by (rule bases.key_order_free [OF _ hook_chains_key_inj [OF assms(1)]])
      have cong: "walk_bases mr rs' family bs w = walk_bases mr rs family bs w" for mr bs w
        by (rule walk_bases_cong)
          (simp_all add: tableSets_def findChain_def fun_eq_iff lookup_order_free [OF assms(1) assms(2) [symmetric]])
      from None none' True tables bs cong show ?thesis
        by (simp add: Traverse_def traverse_with_def collect_bases_known)
    next
      case False
      obtain e where "collect_bases family hook (rs_Tables rs) = Inl e"
        using collect_bases_unknown_hook [OF False] by blast
      moreover obtain e' where "collect_bases family hook (rs_Tables rs') = Inl e'"
        using collect_bases_unknown_hook [of "rs_Tables rs'" family] False tables by auto
      ultimately show ?thesis
        using None none' by (simp add: kind_and_trace_def Traverse_def traverse_with_def collect_bases_unknown)
    qed
  qed
qed

definition two_tables :: "table list" where
  "two_tables =
     [\<lparr>t_Family = ''inet'', t_Name = ''a'', t_Chains = [base_chain ''in'' ''accept'' []], t_Sets = []\<rparr>,
      \<lparr>t_Family = ''ip'', t_Name = ''b'', t_Chains = [base_chain ''in'' ''drop'' []], t_Sets = []\<rparr>]"

theorem Traverse_table_order_witness:
  "kind_and_trace (Traverse \<lparr>rs_Tables = rev two_tables, rs_ReadFailed = False\<rparr> ''ip'' ''input'' probe_packet) =
   kind_and_trace (Traverse \<lparr>rs_Tables = two_tables, rs_ReadFailed = False\<rparr> ''ip'' ''input'' probe_packet)"
  by (rule Traverse_table_order)
    (simp_all add: distinct_names_def two_tables_def walked_family_def base_chain_def)

end
