(* ===== verification/Forwards.thy ===== *)
theory Forwards
  imports Walk
begin

text \<open>
  The third source of endpoints (\<open>internal/model/forwards.go\<close>): the destination
  rewrites of the prerouting chains. The scan reads a rule without a packet; what it
  learns about the rewritten packets is \<open>fwd_match\<close>, and what it cannot turn into rows
  it says in a note. The fields \<open>eps\<close> and \<open>notes\<close> of Go's \<open>fwdScan\<close> are the record
  \<open>scan\<close>. Slices are values here: the only appends that could share a backing array
  are to \<open>fwdMatch.ports\<close>, whose older copies are never read again at a greater length.
\<close>

section \<open>Endpoints\<close>

record endpoint =
  ep_Kind :: string
  ep_Family :: string
  ep_Proto :: string
  ep_BindIP :: string
  ep_Port :: u16
  ep_Owner :: string

definition forwardKind :: string where
  "forwardKind = ''forward''"

section \<open>What a rule constrains\<close>

record fwd_match =
  fm_proto :: string
  fm_ports :: "u16 list"
  fm_refuse :: string

definition fwd_any :: fwd_match where
  "fwd_any = \<lparr>fm_proto = [], fm_ports = [], fm_refuse = []\<rparr>"

datatype fwd_field = FwdUnset | FwdDport | FwdL4Proto | FwdOther

record fwd_target =
  ft_addr :: addr
  ft_port :: u16

record scan =
  sc_eps :: "endpoint list"
  sc_notes :: "warning list"

definition portFromHex :: "string \<Rightarrow> u16 option" where
  "portFromHex s =
     (case hex_decode s of
        None \<Rightarrow> None
      | Some b \<Rightarrow> if length b \<noteq> 2 then None else Some (be_uint16 b))"

definition protoFromHex :: "string \<Rightarrow> string" where
  "protoFromHex s =
     (case hex_decode s of
        Some [b] \<Rightarrow> if b = 6 then ''tcp'' else if b = 17 then ''udp'' else ''other''
      | _ \<Rightarrow> ''other'')"

definition payloadField :: "payload_expr \<Rightarrow> fwd_field" where
  "payloadField p =
     (if pl_Base p = ''transport'' \<and> pl_Offset p = 2 \<and> pl_Len p = 2 then FwdDport
      else if pl_Base p = ''network'' \<and> pl_Len p = 1 \<and> (pl_Offset p = 9 \<or> pl_Offset p = 6) then FwdL4Proto
      else FwdOther)"

definition cmpConstraint :: "fwd_match \<Rightarrow> fwd_field \<Rightarrow> cmp_expr \<Rightarrow> fwd_match" where
  "cmpConstraint m field c =
     (if field = FwdDport then
        (if cm_Op c \<noteq> ''eq'' then
           m\<lparr>fm_refuse := ''its destination port is matched with '' @ cm_Op c @
               '' rather than an equality, which is a range''\<rparr>
         else
           case portFromHex (cm_Data c) of
             None \<Rightarrow> m\<lparr>fm_refuse := ''its destination port is compared against something that is not a port''\<rparr>
           | Some p \<Rightarrow> m\<lparr>fm_ports := fm_ports m @ [p]\<rparr>)
      else if field = FwdL4Proto then
        (if cm_Op c \<noteq> ''eq'' then
           m\<lparr>fm_refuse := ''its transport protocol is matched with '' @ cm_Op c @
               '' rather than an equality, so which protocols it forwards is not decidable from the rule''\<rparr>
         else m\<lparr>fm_proto := protoFromHex (cm_Data c)\<rparr>)
      else m)"

fun set_ports :: "set_element list \<Rightarrow> u16 list option" where
  "set_ports [] = Some []"
| "set_ports (el # els) =
     (if se_Val el \<noteq> [] \<or> se_KeyEnd el \<noteq> [] \<or> se_IntervalEnd el then None
      else
        case portFromHex (se_Key el) of
          None \<Rightarrow> None
        | Some p \<Rightarrow> map_option (\<lambda>ps. p # ps) (set_ports els))"

definition setPorts :: "nft_set list \<Rightarrow> lookup_expr \<Rightarrow> u16 list option" where
  "setPorts sets lk =
     (if lk_Invert lk \<or> lk_IsDestRegSet lk then None
      else
        case findSet lk sets of
          None \<Rightarrow> None
        | Some s \<Rightarrow>
            if st_Interval s \<or> st_IsMap s \<or> st_Concatenation s \<or> length (st_Elements s) = 0 then None
            else set_ports (st_Elements s))"

section \<open>Where a rewrite goes\<close>

definition fwd_dest :: "fwd_target \<Rightarrow> string" where
  "fwd_dest t =
     (if \<not> addr_IsValid (ft_addr t) then ''an address whyopen could not resolve''
      else if ft_port t = 0 then addr_String (ft_addr t)
      else addr_String (ft_addr t) @ '':'' @ itoa (unat (ft_port t)))"

definition fwd_label :: "fwd_target \<Rightarrow> string" where
  "fwd_label t = ''forwarded to '' @ fwd_dest t"

definition nativeTarget :: "nat_expr \<Rightarrow> (u32 \<rightharpoonup> string) \<Rightarrow> fwd_target" where
  "nativeTarget n imm =
     \<lparr>ft_addr =
        (case imm (nt_AddrRegister n) of
           None \<Rightarrow> AddrZero
         | Some raw \<Rightarrow>
             (case hex_decode raw of
                None \<Rightarrow> AddrZero
              | Some b \<Rightarrow> (case AddrFromSlice b of None \<Rightarrow> AddrZero | Some ip \<Rightarrow> ip))),
      ft_port =
        (if nt_ProtoRegister n \<noteq> 0 then
           (case portFromHex (case imm (nt_ProtoRegister n) of None \<Rightarrow> [] | Some s \<Rightarrow> s) of
              None \<Rightarrow> 0 | Some p \<Rightarrow> p)
         else 0)\<rparr>"

definition xtTarget :: "dnat_info \<Rightarrow> fwd_target" where
  "xtTarget d =
     \<lparr>ft_addr = (case ParseAddr (di_MinIP d) of None \<Rightarrow> AddrZero | Some ip \<Rightarrow> ip), ft_port = di_MinPort d\<rparr>"

definition tableFamilies :: "string \<Rightarrow> string list" where
  "tableFamilies family =
     (if family = ''ip'' then [''ip'']
      else if family = ''ip6'' then [''ip6'']
      else if family = ''inet'' then [''ip'', ''ip6'']
      else [])"

definition fwd_families :: "string \<Rightarrow> fwd_target \<Rightarrow> string list" where
  "fwd_families family t =
     (if family \<noteq> ''inet'' \<or> \<not> addr_IsValid (ft_addr t) then tableFamilies family
      else if addr_Is4 (ft_addr t) \<or> addr_Is4In6 (ft_addr t) then [''ip'']
      else [''ip6''])"

definition fwdProtos :: "string \<Rightarrow> string list" where
  "fwdProtos proto = (if proto = [] then [''tcp'', ''udp''] else [proto])"

definition scan_note :: "string \<Rightarrow> scan \<Rightarrow> scan" where
  "scan_note msg sc = sc\<lparr>sc_notes := sc_notes sc @ [\<lparr>w_Source = ''forwarded-ports'', w_Message = msg\<rparr>]\<rparr>"

definition rewrite_text :: "table \<Rightarrow> chain \<Rightarrow> rule \<Rightarrow> fwd_target \<Rightarrow> string" where
  "rewrite_text t ch r tg =
     t_Family t @ '' '' @ t_Name t @ ''/'' @ ch_Name ch @ '' rule '' @ itoa (unat (r_Handle r)) @
     '' rewrites the destination to '' @ fwd_dest tg"

definition fwd_rows :: "table \<Rightarrow> fwd_match \<Rightarrow> fwd_target \<Rightarrow> endpoint list" where
  "fwd_rows t m tg =
     concat (map (\<lambda>family. concat (map (\<lambda>proto. map (\<lambda>port.
       \<lparr>ep_Kind = forwardKind, ep_Family = family, ep_Proto = proto, ep_BindIP = [],
        ep_Port = port, ep_Owner = fwd_label tg\<rparr>) (fm_ports m)) (fwdProtos (fm_proto m))))
       (fwd_families (t_Family t) tg))"

definition emit :: "table \<Rightarrow> chain \<Rightarrow> rule \<Rightarrow> fwd_match \<Rightarrow> fwd_target \<Rightarrow> scan \<Rightarrow> scan" where
  "emit t ch r m tg sc =
     (if fm_proto m = ''other'' then sc
      else
        let where_text = rewrite_text t ch r tg in
        if fm_refuse m \<noteq> [] then
          scan_note (where_text @ '', but '' @ fm_refuse m @
            '', so whyopen cannot name the ports it forwards and no row above covers them'') sc
        else if length (fm_ports m) = 0 then
          scan_note (where_text @ '' with no port constraint at all, so it forwards every port;'' @
            '' whyopen reports one port per row and cannot list them'') sc
        else sc\<lparr>sc_eps := sc_eps sc @ fwd_rows t m tg\<rparr>)"

section \<open>One rule\<close>

text \<open>
  How the loop over a rule's expressions ends: at its end, at a rewrite, or at a verdict,
  which a jump or goto follows into another chain of the table.
\<close>

datatype rule_end = RuleOver | Rewrites fwd_match fwd_target | Jumps string fwd_match

fun fwd_exprs :: "table \<Rightarrow> expr list \<Rightarrow> (u32 \<Rightarrow> fwd_field) \<Rightarrow> (u32 \<rightharpoonup> string) \<Rightarrow> fwd_match \<Rightarrow> rule_end panics" where
  "fwd_exprs t [] regs imm m = Some RuleOver"
| "fwd_exprs t (e # es) regs imm m =
     (case e_Kind e of
        ExprPayload \<Rightarrow>
          do { p \<leftarrow> e_Payload e; fwd_exprs t es (regs(pl_DestRegister p := payloadField p)) imm m }
      | ExprMeta \<Rightarrow>
          do { mt \<leftarrow> e_Meta e;
               fwd_exprs t es
                 (regs(mt_Register mt := (if mt_Key mt = ''l4proto'' then FwdL4Proto else FwdOther))) imm m }
      | ExprCt \<Rightarrow> do { c \<leftarrow> e_Ct e; fwd_exprs t es (regs(ce_Register c := FwdOther)) imm m }
      | ExprFib \<Rightarrow> do { f \<leftarrow> e_Fib e; fwd_exprs t es (regs(fb_Register f := FwdOther)) imm m }
      | ExprBitwise \<Rightarrow>
          do { b \<leftarrow> e_Bitwise e;
               fwd_exprs t es (regs(bw_DestRegister b := FwdOther)) imm
                 (if regs (bw_SourceRegister b) = FwdDport
                  then m\<lparr>fm_refuse := ''its destination port is compared through a bitmask''\<rparr> else m) }
      | ExprCmp \<Rightarrow>
          do { c \<leftarrow> e_Cmp e; fwd_exprs t es regs imm (cmpConstraint m (regs (cm_Register c)) c) }
      | ExprLookup \<Rightarrow>
          do { lk \<leftarrow> e_Lookup e;
               if regs (lk_SourceRegister lk) \<noteq> FwdDport then fwd_exprs t es regs imm m
               else
                 case setPorts (t_Sets t) lk of
                   None \<Rightarrow> fwd_exprs t es regs imm
                     (m\<lparr>fm_refuse := ''its destination ports come from a set whyopen cannot read as a flat list of ports''\<rparr>)
                 | Some ports \<Rightarrow> fwd_exprs t es regs imm (m\<lparr>fm_ports := fm_ports m @ ports\<rparr>) }
      | ExprRange \<Rightarrow>
          do { rg \<leftarrow> e_Range e;
               fwd_exprs t es regs imm
                 (if regs (rg_Register rg) = FwdDport
                  then m\<lparr>fm_refuse := ''its destination port is matched against a range''\<rparr> else m) }
      | ExprImmediate \<Rightarrow>
          do { i \<leftarrow> e_Immediate e;
               fwd_exprs t es (regs(im_Register i := FwdOther)) (imm(im_Register i \<mapsto> im_Data i)) m }
      | ExprNAT \<Rightarrow>
          do { n \<leftarrow> e_NAT e;
               if nt_Type n \<noteq> ''dnat'' then fwd_exprs t es regs imm m
               else Some (Rewrites m (nativeTarget n imm)) }
      | ExprXt \<Rightarrow>
          do { x \<leftarrow> e_Xt e;
               case xt_DNAT x of
                 Some d \<Rightarrow>
                   if xt_Kind x = ''target'' \<and> xt_Name x = ''DNAT'' \<and> xt_Decoded x then Some (Rewrites m (xtTarget d))
                   else fwd_exprs t es regs imm m
               | None \<Rightarrow> fwd_exprs t es regs imm m }
      | ExprVerdict \<Rightarrow>
          do { v \<leftarrow> e_Verdict e;
               Some (if ve_Kind v = ''jump'' \<or> ve_Kind v = ''goto'' then Jumps (ve_Chain v) m else RuleOver) }
      | _ \<Rightarrow> fwd_exprs t es regs imm m)"

definition fwd_rule :: "table \<Rightarrow> rule \<Rightarrow> fwd_match \<Rightarrow> rule_end panics" where
  "fwd_rule t r m = fwd_exprs t (r_Exprs r) (\<lambda>_. FwdUnset) Map.empty m"

section \<open>The scan\<close>

function
  fwd_chain :: "table \<Rightarrow> chain \<Rightarrow> fwd_match \<Rightarrow> nat \<Rightarrow> scan \<Rightarrow> scan panics" and
  fwd_rules :: "table \<Rightarrow> chain \<Rightarrow> rule list \<Rightarrow> fwd_match \<Rightarrow> nat \<Rightarrow> scan \<Rightarrow> scan panics" where
  "fwd_chain t ch m depth sc =
     (if depth > maxJumpDepth then Some sc else fwd_rules t ch (ch_Rules ch) m depth sc)"
| "fwd_rules t ch [] m depth sc = Some sc"
| "fwd_rules t ch (r # rules) m depth sc =
     (case fwd_rule t r m of
        None \<Rightarrow> None
      | Some RuleOver \<Rightarrow> fwd_rules t ch rules m depth sc
      | Some (Rewrites m' tg) \<Rightarrow> fwd_rules t ch rules m depth (emit t ch r m' tg sc)
      | Some (Jumps name m') \<Rightarrow>
          (case find_chain_in name (t_Chains t) of
             None \<Rightarrow> fwd_rules t ch rules m depth sc
           | Some target \<Rightarrow>
               (case fwd_chain t target m' (Suc depth) sc of
                  None \<Rightarrow> None
                | Some sc' \<Rightarrow> fwd_rules t ch rules m depth sc')))"
  by pat_completeness auto

termination
  by (relation "measures [
        \<lambda>x. (case x of
           Inl (t, ch, m, depth, sc) \<Rightarrow> if depth > maxJumpDepth then 0 else 2 * (Suc maxJumpDepth - depth) + 1
         | Inr (t, ch, rules, m, depth, sc) \<Rightarrow> max 1 (2 * (Suc maxJumpDepth - depth))),
        \<lambda>x. (case x of Inl _ \<Rightarrow> 0 | Inr (t, ch, rules, m, depth, sc) \<Rightarrow> length rules)]")
    (auto simp: max_def)

declare fwd_chain.simps [simp del] fwd_rules.simps(2) [simp del]

definition empty_scan :: scan where
  "empty_scan = \<lparr>sc_eps = [], sc_notes = []\<rparr>"

text \<open>The base chains the scan starts from, each with its table, and a scan of each.\<close>

definition fwd_bases :: "ruleset \<Rightarrow> (table \<times> chain) list" where
  "fwd_bases rs =
     concat (map (\<lambda>t. if length (tableFamilies (t_Family t)) = 0 then []
       else map (Pair t) (filter (\<lambda>ch. \<not> (\<not> ch_Base ch \<or> ch_Hook ch \<noteq> ''prerouting'')) (t_Chains t)))
       (rs_Tables rs))"

definition fwd_key :: "endpoint \<Rightarrow> string" where
  "fwd_key e = ep_Family e @ ''/'' @ ep_Proto e @ ''/'' @ itoa (unat (ep_Port e))"

text \<open>
  The two maps \<open>seen\<close> and \<open>said\<close> live across all base chains, so the loops over a scan's
  rows and notes keep the first of each key of the whole sequence.
\<close>

definition forwards :: "facts \<Rightarrow> (endpoint list \<times> warning list) panics" where
  "forwards f =
     do { scans \<leftarrow> map_panics (\<lambda>(t, ch). fwd_chain t ch fwd_any 0 empty_scan) (fwd_bases (f_Ruleset f));
          Some (first_by fwd_key [] (concat (map sc_eps scans)),
                first_by w_Message [] (concat (map sc_notes scans))) }"

definition ForwardNotes :: "facts \<Rightarrow> warning list panics" where
  "ForwardNotes f = map_option snd (forwards f)"

end
