(* ===== verification/Forwards_Specs.thy ===== *)
theory Forwards_Specs
  imports Forwards Traverse_Specs
begin

text \<open>
  What the scan of \<open>Forwards\<close> guarantees: it returns on a validated document, its rows
  are one per family, protocol and port, and no rewrite it reaches is passed over in
  silence.
\<close>

section \<open>The scan returns\<close>

lemma fwd_exprs_total:
  "\<forall>e \<in> set es. wf_expr e \<Longrightarrow> fwd_exprs t es regs imm m \<noteq> None"
proof (induction es arbitrary: regs imm m)
  case (Cons e es)
  then have rest: "fwd_exprs t es regs imm m \<noteq> None" for regs imm m by simp
  have "wf_expr e" using Cons.prems by simp
  then show ?case
    using rest
    by (cases "e_Kind e")
      (auto simp: wf_expr_def expr_missing_def simp del: not_None_eq split: option.split)
qed simp

lemma fwd_rule_total: "wf_rule r \<Longrightarrow> fwd_rule t r m \<noteq> None"
  unfolding fwd_rule_def wf_rule_def by (rule fwd_exprs_total)

text \<open>The induction over the scan: any chain of the table one level down, below the bound.\<close>

lemma fwd_rules_total:
  assumes sub: "\<And>c m sc. wf_chain c \<Longrightarrow> fwd_chain t c m (Suc d) sc \<noteq> None"
    and wf: "\<forall>c \<in> set (t_Chains t). wf_chain c" and "\<forall>r \<in> set rules. wf_rule r"
  shows "fwd_rules t ch rules m d sc \<noteq> None"
  using assms(3)
proof (induction rules arbitrary: sc)
  case (Cons r rules)
  then have rest: "fwd_rules t ch rules m d sc \<noteq> None" for sc by simp
  have "fwd_chain t c m' (Suc d) sc \<noteq> None" if "find_chain_in name (t_Chains t) = Some c" for name c m' sc
    using find_chain_in_Some [OF that] wf sub by blast
  with rest fwd_rule_total [of r t m] Cons.prems show ?case
    by (auto simp: fwd_rules.simps(2) split: option.split rule_end.split simp del: not_None_eq)
qed simp

lemma fwd_chain_total:
  assumes wf: "\<forall>c \<in> set (t_Chains t). wf_chain c" and "wf_chain ch"
  shows "fwd_chain t ch m d sc \<noteq> None"
  using assms(2)
proof (induction d arbitrary: ch m sc rule: depth_induct)
  case (deep d)
  then show ?case by (simp add: fwd_chain.simps)
next
  case (step d)
  from fwd_rules_total [OF step.IH wf] step.prems step.hyps show ?case
    by (simp add: fwd_chain.simps wf_chain_def del: not_None_eq)
qed

lemma fwd_bases_in:
  "(t, ch) \<in> set (fwd_bases rs) \<longleftrightarrow>
     t \<in> set (rs_Tables rs) \<and> tableFamilies (t_Family t) \<noteq> [] \<and> ch \<in> set (t_Chains t) \<and>
     ch_Base ch \<and> ch_Hook ch = ''prerouting''"
  by (auto simp: fwd_bases_def)

lemma forwards_total [nopanic]: "wf_ruleset (f_Ruleset f) \<Longrightarrow> forwards f \<noteq> None"
proof -
  assume wf: "wf_ruleset (f_Ruleset f)"
  have "map_panics (\<lambda>(t, ch). fwd_chain t ch fwd_any 0 empty_scan) (fwd_bases (f_Ruleset f)) \<noteq> None"
  proof (rule map_panics_total)
    fix x assume "x \<in> set (fwd_bases (f_Ruleset f))"
    then obtain t ch where x: "x = (t, ch)" "t \<in> set (rs_Tables (f_Ruleset f))" "ch \<in> set (t_Chains t)"
      by (metis fwd_bases_in surj_pair)
    then have "fwd_chain t ch fwd_any 0 empty_scan \<noteq> None"
      using wf by (intro fwd_chain_total) (auto simp: wf_ruleset_def)
    with x show "(case x of (t, ch) \<Rightarrow> fwd_chain t ch fwd_any 0 empty_scan) \<noteq> None" by simp
  qed
  then show ?thesis by (auto simp: forwards_def)
qed

section \<open>Rules the scan reaches\<close>

text \<open>
  A rule reached from a chain with what the rules on the way have said about the packet:
  a rule of the chain itself, or of a chain that a jump or goto of it leads to, within the
  nesting bound.
\<close>

inductive reaches :: "table \<Rightarrow> chain \<Rightarrow> fwd_match \<Rightarrow> nat \<Rightarrow> chain \<Rightarrow> rule \<Rightarrow> fwd_match \<Rightarrow> bool"
  for t :: table where
  here: "d \<le> maxJumpDepth \<Longrightarrow> r \<in> set (ch_Rules ch) \<Longrightarrow> reaches t ch m d ch r m"
| down: "d \<le> maxJumpDepth \<Longrightarrow> r \<in> set (ch_Rules ch) \<Longrightarrow> fwd_rule t r m = Some (Jumps name m') \<Longrightarrow>
    find_chain_in name (t_Chains t) = Some c \<Longrightarrow> reaches t c m' (Suc d) ch' r' m'' \<Longrightarrow>
    reaches t ch m d ch' r' m''"

text \<open>What an \<open>emit\<close> leaves behind, and that a scan only ever adds.\<close>

definition said_of :: "table \<Rightarrow> chain \<Rightarrow> rule \<Rightarrow> fwd_match \<Rightarrow> fwd_target \<Rightarrow> scan \<Rightarrow> bool" where
  "said_of t ch r m tg sc \<longleftrightarrow>
     (\<exists>n \<in> set (sc_notes sc). has_prefix (w_Message n) (rewrite_text t ch r tg)) \<or>
     (fm_ports m \<noteq> [] \<and> set (fwd_rows t m tg) \<subseteq> set (sc_eps sc))"

definition scan_le :: "scan \<Rightarrow> scan \<Rightarrow> bool" where
  "scan_le a b \<longleftrightarrow> set (sc_eps a) \<subseteq> set (sc_eps b) \<and> set (sc_notes a) \<subseteq> set (sc_notes b)"

lemma scan_le_refl [simp]: "scan_le a a"
  by (simp add: scan_le_def)

lemma scan_le_trans: "scan_le a b \<Longrightarrow> scan_le b c \<Longrightarrow> scan_le a c"
  by (auto simp: scan_le_def)

lemma said_of_mono: "said_of t ch r m tg a \<Longrightarrow> scan_le a b \<Longrightarrow> said_of t ch r m tg b"
  by (auto simp: said_of_def scan_le_def)

lemma has_prefix_append [simp]: "has_prefix (s @ u) s"
  by (simp add: has_prefix_def)

lemma emit_le: "scan_le sc (emit t ch r m tg sc)"
  by (auto simp: emit_def scan_note_def scan_le_def Let_def)

lemma emit_said: "fm_proto m \<noteq> ''other'' \<Longrightarrow> said_of t ch r m tg (emit t ch r m tg sc)"
  by (auto simp: emit_def scan_note_def said_of_def Let_def)

text \<open>One rule of the scan: what it leaves, and the rules after it.\<close>

lemma fwd_rules_ConsE:
  assumes "fwd_rules t ch (r # rules) m d sc = Some sc'"
  obtains (Over) "fwd_rules t ch rules m d sc = Some sc'"
    and "fwd_rule t r m = Some RuleOver \<or> (\<exists>name m'. fwd_rule t r m = Some (Jumps name m'))"
  | (Rewrites) m' tg where "fwd_rule t r m = Some (Rewrites m' tg)"
      and "fwd_rules t ch rules m d (emit t ch r m' tg sc) = Some sc'"
  | (Jumps) name m' target s where "fwd_rule t r m = Some (Jumps name m')"
      and "find_chain_in name (t_Chains t) = Some target"
      and "fwd_chain t target m' (Suc d) sc = Some s" and "fwd_rules t ch rules m d s = Some sc'"
  using assms by (auto simp: fwd_rules.simps(2) split: option.splits rule_end.splits)

lemma fwd_rules_le:
  assumes sub: "\<And>c m sc sc'. fwd_chain t c m (Suc d) sc = Some sc' \<Longrightarrow> scan_le sc sc'"
  shows "fwd_rules t ch rules m d sc = Some sc' \<Longrightarrow> scan_le sc sc'"
proof (induction rules arbitrary: sc)
  case (Cons r rules)
  from Cons.prems show ?case
  proof (cases rule: fwd_rules_ConsE)
    case Over
    then show ?thesis by (intro Cons.IH)
  next
    case (Rewrites m' tg)
    with Cons.IH emit_le show ?thesis by (blast intro: scan_le_trans)
  next
    case (Jumps name m' target s)
    with Cons.IH sub show ?thesis by (blast intro: scan_le_trans)
  qed
qed simp

lemma fwd_chain_le: "fwd_chain t ch m d sc = Some sc' \<Longrightarrow> scan_le sc sc'"
proof (induction d arbitrary: ch m sc sc' rule: depth_induct)
  case (deep d)
  then show ?case by (simp add: fwd_chain.simps)
next
  case (step d)
  from fwd_rules_le [OF step.IH] step.prems step.hyps show ?case
    by (simp add: fwd_chain.simps)
qed

text \<open>The state a scan is in when it comes to a rule of its chain.\<close>

lemma fwd_rules_at:
  assumes "fwd_rules t ch rules m d sc = Some sc'" and "r \<in> set rules"
  obtains rest s where "fwd_rules t ch (r # rest) m d s = Some sc'"
proof -
  obtain pre rest where "rules = pre @ r # rest"
    using assms(2) by (auto dest: split_list)
  moreover have "fwd_rules t ch (pre @ r # rest) m d sc = Some sc' \<Longrightarrow>
      \<exists>s. fwd_rules t ch (r # rest) m d s = Some sc'" for sc
  proof (induction pre arbitrary: sc)
    case (Cons q pre)
    from Cons.prems have "\<exists>sc. fwd_rules t ch (pre @ r # rest) m d sc = Some sc'"
      by (auto elim: fwd_rules_ConsE)
    with Cons.IH show ?case by blast
  qed auto
  ultimately show ?thesis using assms(1) that by blast
qed

lemma reaches_said:
  assumes "reaches t ch m d ch' r' m'" and "fwd_chain t ch m d sc = Some sc'"
    and "fwd_rule t r' m' = Some (Rewrites m'' tg)" and "fm_proto m'' \<noteq> ''other''"
  shows "said_of t ch' r' m'' tg sc'"
  using assms
proof (induction arbitrary: sc sc' rule: reaches.induct)
  case (here d r ch m)
  then have "fwd_rules t ch (ch_Rules ch) m d sc = Some sc'"
    by (simp add: fwd_chain.simps)
  from fwd_rules_at [OF this here(2)] obtain rest s where "fwd_rules t ch (r # rest) m d s = Some sc'" .
  with here have "fwd_rules t ch rest m d (emit t ch r m'' tg s) = Some sc'"
    by (auto elim: fwd_rules_ConsE)
  then have "scan_le (emit t ch r m'' tg s) sc'"
    by (rule fwd_rules_le [rotated]) (rule fwd_chain_le)
  with emit_said [OF here(5)] show ?case by (rule said_of_mono)
next
  case (down d r ch m name m1 c ch' r' m2)
  then have "fwd_rules t ch (ch_Rules ch) m d sc = Some sc'"
    by (simp add: fwd_chain.simps)
  from fwd_rules_at [OF this down(2)] obtain rest s where "fwd_rules t ch (r # rest) m d s = Some sc'" .
  with down obtain s' where s': "fwd_chain t c m1 (Suc d) s = Some s'"
    "fwd_rules t ch rest m d s' = Some sc'"
    by (auto simp: fwd_rules.simps(2) split: option.splits)
  have "scan_le s' sc'" using s'(2) by (rule fwd_rules_le [rotated]) (rule fwd_chain_le)
  with down.IH [OF s'(1) down.prems(2,3)] show ?case by (rule said_of_mono)
qed

section \<open>A rewriting expression ends its rule\<close>

definition rewriting :: "expr \<Rightarrow> bool" where
  "rewriting e \<longleftrightarrow>
     (e_Kind e = ExprNAT \<and> (\<exists>n. e_NAT e = Some n \<and> nt_Type n = ''dnat'')) \<or>
     (e_Kind e = ExprXt \<and> (\<exists>x d. e_Xt e = Some x \<and> xt_DNAT x = Some d \<and> xt_Kind x = ''target'' \<and>
        xt_Name x = ''DNAT'' \<and> xt_Decoded x))"

lemma rewriting_ends: "rewriting e \<Longrightarrow> \<exists>tg. fwd_exprs t (e # es) regs imm m = Some (Rewrites m tg)"
  by (auto simp: rewriting_def)

lemma fwd_exprs_rewrites:
  assumes "\<forall>e \<in> set pre. wf_expr e \<and> e_Kind e \<noteq> ExprVerdict" and "rewriting e"
  shows "\<exists>m' tg. fwd_exprs t (pre @ e # post) regs imm m = Some (Rewrites m' tg)"
  using assms(1)
proof (induction pre arbitrary: regs imm m)
  case Nil
  then show ?case using rewriting_ends [OF assms(2)] by (metis append_Nil)
next
  case (Cons p pre)
  then have IH: "\<exists>m' tg. fwd_exprs t (pre @ e # post) regs imm m = Some (Rewrites m' tg)" for regs imm m
    by simp
  from Cons.prems show ?case
    using IH by (cases "e_Kind p")
      (auto simp: wf_expr_def expr_missing_def simp del: bind_eq_Some_conv' split: option.split)
qed

section \<open>Properties\<close>


text \<open>The protocols a scan can carry, and the shape of its rows.\<close>

definition proto_ok :: "fwd_match \<Rightarrow> bool" where
  "proto_ok m \<longleftrightarrow> fm_proto m \<in> {[], ''tcp'', ''udp'', ''other''}"

lemma proto_ok_simps [simp]:
  "proto_ok fwd_any" "proto_ok (m\<lparr>fm_refuse := why\<rparr>) = proto_ok m" "proto_ok (m\<lparr>fm_ports := ps\<rparr>) = proto_ok m"
  by (simp_all add: proto_ok_def fwd_any_def)

lemma protoFromHex_ok: "protoFromHex s \<in> {''tcp'', ''udp'', ''other''}"
  by (auto simp: protoFromHex_def split: option.splits list.splits)

lemma cmpConstraint_ok [simp]: "proto_ok m \<Longrightarrow> proto_ok (cmpConstraint m field c)"
  using protoFromHex_ok [of "cm_Data c"]
  by (auto simp: cmpConstraint_def split: option.split) (auto simp: proto_ok_def)

fun end_match :: "rule_end \<Rightarrow> fwd_match set" where
  "end_match RuleOver = {}"
| "end_match (Rewrites m tg) = {m}"
| "end_match (Jumps n m) = {m}"

lemma fwd_exprs_ok:
  "fwd_exprs t es regs imm m = Some x \<Longrightarrow> proto_ok m \<Longrightarrow> \<forall>m' \<in> end_match x. proto_ok m'"
proof (induction es arbitrary: regs imm m)
  case (Cons e es)
  note IH = Cons.IH [rule_format]
  from Cons.prems show ?case
    by (cases "e_Kind e") (auto split: if_splits option.splits dest!: IH)
qed simp

definition row_ok :: "endpoint \<Rightarrow> bool" where
  "row_ok e \<longleftrightarrow> ep_Kind e = forwardKind \<and> ep_Family e \<in> {''ip'', ''ip6''} \<and>
     ep_Proto e \<in> {''tcp'', ''udp''} \<and> ep_BindIP e = []"

lemma fwd_rows_shape:
  "e \<in> set (fwd_rows t m tg) \<Longrightarrow> proto_ok m \<Longrightarrow> fm_proto m \<noteq> ''other'' \<Longrightarrow> row_ok e"
  by (auto simp: fwd_rows_def fwd_families_def tableFamilies_def fwdProtos_def proto_ok_def row_ok_def split: if_splits)

definition rows_ok :: "scan \<Rightarrow> bool" where
  "rows_ok sc \<longleftrightarrow> (\<forall>e \<in> set (sc_eps sc). row_ok e)"

lemma emit_rows_ok: "rows_ok sc \<Longrightarrow> proto_ok m \<Longrightarrow> rows_ok (emit t ch r m tg sc)"
  by (auto simp: emit_def scan_note_def rows_ok_def Let_def dest: fwd_rows_shape)

lemma fwd_rules_rows_ok:
  assumes sub: "\<And>c m sc sc'. fwd_chain t c m (Suc d) sc = Some sc' \<Longrightarrow> proto_ok m \<Longrightarrow> rows_ok sc \<Longrightarrow> rows_ok sc'"
    and m: "proto_ok m"
  shows "fwd_rules t ch rules m d sc = Some sc' \<Longrightarrow> rows_ok sc \<Longrightarrow> rows_ok sc'"
proof (induction rules arbitrary: sc)
  case (Cons r rules)
  from Cons.prems(1) show ?case
  proof (cases rule: fwd_rules_ConsE)
    case Over
    with Cons.prems(2) Cons.IH show ?thesis by blast
  next
    case (Rewrites m' tg)
    then have "proto_ok m'" using fwd_exprs_ok [OF _ m] by (fastforce simp: fwd_rule_def)
    with Rewrites(2) Cons.prems(2) Cons.IH emit_rows_ok show ?thesis by blast
  next
    case (Jumps name m' target s)
    then have "proto_ok m'" using fwd_exprs_ok [OF _ m] by (fastforce simp: fwd_rule_def)
    with Jumps(3,4) Cons.prems(2) Cons.IH sub show ?thesis by blast
  qed
qed simp

lemma fwd_chain_rows_ok:
  "fwd_chain t ch m d sc = Some sc' \<Longrightarrow> proto_ok m \<Longrightarrow> rows_ok sc \<Longrightarrow> rows_ok sc'"
proof (induction d arbitrary: ch m sc sc' rule: depth_induct)
  case (deep d)
  then show ?case by (simp add: fwd_chain.simps)
next
  case (step d)
  from fwd_rules_rows_ok [OF step.IH step.prems(2)] step.prems step.hyps show ?case
    by (simp add: fwd_chain.simps)
qed

lemma forwards_rows_shape:
  assumes "forwards f = Some (eps, msgs)" and "e \<in> set eps"
  shows "row_ok e"
proof -
  obtain scans where scans: "map_panics (\<lambda>(t, ch). fwd_chain t ch fwd_any 0 empty_scan) (fwd_bases (f_Ruleset f)) = Some scans"
    and "eps = first_by fwd_key [] (concat (map sc_eps scans))"
    using assms(1) by (auto simp: forwards_def)
  then obtain sc where sc: "sc \<in> set scans" "e \<in> set (sc_eps sc)"
    using assms(2) first_by_subset [of fwd_key "[]" "concat (map sc_eps scans)"] by auto
  then obtain t ch where "fwd_chain t ch fwd_any 0 empty_scan = Some sc"
    using map_panics_in [OF scans] by auto
  from fwd_chain_rows_ok [OF this] sc(2) show ?thesis
    by (simp add: rows_ok_def empty_scan_def)
qed

lemma forwards_distinct:
  "forwards f = Some (eps, msgs) \<Longrightarrow> distinct (map fwd_key eps) \<and> distinct (map w_Message msgs)"
  by (auto simp: forwards_def first_by_distinct)

text \<open>Supporting (forwards_rows): the rows are at most one for each family, protocol and port, and the notes
  at most one of each text; each row is of the forward kind, in one of the two address families, for tcp or udp, and names no
  bind address.\<close>

theorem forwards_rows:
  assumes "forwards f = Some (eps, msgs)"
  shows "distinct (map fwd_key eps) \<and> distinct (map w_Message msgs) \<and>
    (\<forall>e \<in> set eps. row_ok e)"
  using forwards_distinct [OF assms] forwards_rows_shape [OF assms] by blast

text \<open>A port forward as nft writes it: \<open>tcp dport 80 dnat to 10.0.0.5\<close>, in a chain jumped to.\<close>

definition dnat_rule :: rule where
  "dnat_rule = \<lparr>r_Handle = 7, r_Exprs = dport_head @
     [cmp_e ''eq'' 1 (be_put16 80),
      (expr0 ExprImmediate)\<lparr>e_Immediate := Some \<lparr>im_Register = 2, im_Data = ''0a000005''\<rparr>\<rparr>,
      (expr0 ExprNAT)\<lparr>e_NAT := Some \<lparr>nt_Type = ''dnat'', nt_Family = ''ip'', nt_AddrRegister = 2, nt_ProtoRegister = 0\<rparr>\<rparr>]\<rparr>"

definition pre_chain :: "rule list \<Rightarrow> chain" where
  "pre_chain rules = \<lparr>ch_Name = ''pre'', ch_Base = True, ch_Hook = ''prerouting'', ch_Priority = -100,
     ch_Devices = [], ch_Policy = ''accept'', ch_Rules = rules\<rparr>"

definition nat_table :: "rule list \<Rightarrow> rule list \<Rightarrow> table" where
  "nat_table rules sub = \<lparr>t_Family = ''ip'', t_Name = ''nat'',
     t_Chains = [pre_chain rules, plain_chain ''sub'' sub], t_Sets = []\<rparr>"

definition facts_of :: "table list \<Rightarrow> facts" where
  "facts_of ts = \<lparr>f_SchemaVersion = 1, f_CapturedAt = [],
     f_Host = \<lparr>h_Hostname = [], h_Interfaces = [],
        h_Sysctls = \<lparr>sc_IPv4Forward = False, sc_IPv6Forward = False, sc_BindV6Only = False\<rparr>, h_Routes = []\<rparr>,
     f_Sockets = [], f_Ruleset = \<lparr>rs_Tables = ts, rs_ReadFailed = False\<rparr>,
     f_Docker = \<lparr>dk_Available = False, dk_Containers = []\<rparr>, f_Warnings = []\<rparr>"

definition nat_facts :: facts where
  "nat_facts = facts_of [nat_table [verdict_rule ''jump'' ''sub''] [dnat_rule]]"

lemma nat_facts_jump: "fwd_rule t (verdict_rule ''jump'' ''sub'') m = Some (Jumps ''sub'' m)"
  by (simp add: fwd_rule_def verdict_rule_def verdict_e_def expr0_def)

lemma wf_nat_facts: "wf_ruleset (f_Ruleset nat_facts)"
  by (simp add: wf_ruleset_def nat_facts_def facts_of_def nat_table_def pre_chain_def plain_chain_def wf_chain_def
      wf_rule_def verdict_rule_def dnat_rule_def dport_head_def wf_expr_def expr_missing_def e_shapes)


theorem forwards_rows_witness:
  "\<exists>eps msgs. forwards nat_facts = Some (eps, msgs) \<and> distinct (map fwd_key eps)"
proof -
  obtain eps msgs where f: "forwards nat_facts = Some (eps, msgs)"
    using forwards_total [OF wf_nat_facts] by auto
  with forwards_rows [OF f] show ?thesis by blast
qed

end
