(* ===== verification/Nat_Specs.thy ===== *)
theory Nat_Specs
  imports Forwards_Specs
begin

text \<open>
  Destination rewrites: what the native and the iptables-nft form of one rewrite do to a
  packet, and which of several rewrites of one hook the traversal keeps.
\<close>

section \<open>The two forms of a rewrite without a port\<close>

text \<open>\<open>dnat to 10.0.0.5\<close>, as nft compiles it and as iptables-nft does; the latter's port
  range is not specified, which the kernel records in the range's flags and the decoder
  reads as the ports 0 to 0.\<close>

definition dnat_to :: "bytes \<Rightarrow> rule" where
  "dnat_to ip = \<lparr>r_Handle = 9, r_Exprs =
     [(expr0 ExprImmediate)\<lparr>e_Immediate := Some \<lparr>im_Register = 1, im_Data = hex_encode ip\<rparr>\<rparr>,
      (expr0 ExprNAT)\<lparr>e_NAT := Some \<lparr>nt_Type = ''dnat'', nt_Family = ''ip'', nt_AddrRegister = 1, nt_ProtoRegister = 0\<rparr>\<rparr>]\<rparr>"

definition xt_dnat_to :: "string \<Rightarrow> rule" where
  "xt_dnat_to ip = \<lparr>r_Handle = 9, r_Exprs =
     [xt_e \<lparr>xt_Kind = ''target'', xt_Name = ''DNAT'', xt_Rev = 2, xt_Decoded = True,
        xt_DNAT = Some \<lparr>di_MinIP = ip, di_MaxIP = ip, di_MinPort = 0, di_MaxPort = 0\<rparr>,
        xt_Conntrack = None, xt_AddrType = None, xt_Recent = None, xt_Raw = []\<rparr>]\<rparr>"

definition dnat_action :: "addr \<Rightarrow> u16 \<Rightarrow> action" where
  "dnat_action ip port = \<lparr>a_Kind = ''dnat'', a_Chain = [], a_DNAT = Some \<lparr>dn_IP = ip, dn_Port = port\<rparr>\<rparr>"

lemma dnat_to_matches:
  "length ip = 4 \<Longrightarrow>
   MatchRule pkt (dnat_to ip) sets = Some (OutcomeMatch, dnat_action (Addr4 (bytes_word ip)) (p_DstPort pkt))"
  by (simp add: MatchRule_def dnat_to_def expr0_def match_expr_def match_immediate_def load_def hex_decode_encode
      match_nat_def natAction_def AddrFromSlice_def dnat_action_def)

lemma ten_ip: "ParseAddr ''10.0.0.5'' = Some (Addr4 0x0a000005)"
  by (simp add: ParseAddr_def parse_v4_def parse_v4_fields_def parse_octet_def parse_uint_def
      digit_value_def bytes_word_def be_nat_def)

text \<open>C20 (portless_dnat_differs): the two forms of a rewrite without a port disagree on every packet: the
  native one keeps the packet's destination port, the iptables-nft one sends it to port 0, so the
  rules of the hook that follows are asked about the wrong port.\<close>

theorem portless_dnat_differs:
  "MatchRule pkt (dnat_to [10, 0, 0, 5]) sets = Some (OutcomeMatch, dnat_action (Addr4 0x0a000005) (p_DstPort pkt)) \<and>
   MatchRule pkt (xt_dnat_to ''10.0.0.5'') sets = Some (OutcomeMatch, dnat_action (Addr4 0x0a000005) 0)"
proof
  show "MatchRule pkt (dnat_to [10, 0, 0, 5]) sets = Some (OutcomeMatch, dnat_action (Addr4 0x0a000005) (p_DstPort pkt))"
    using dnat_to_matches [of "[10, 0, 0, 5]" pkt sets] by (simp add: bytes_word_def be_nat_def)
  show "MatchRule pkt (xt_dnat_to ''10.0.0.5'') sets = Some (OutcomeMatch, dnat_action (Addr4 0x0a000005) 0)"
    by (simp add: MatchRule_def xt_dnat_to_def xt_e_def expr0_def match_expr_def match_xt_def xtExpr_def
        xt_target_def ten_ip dnat_action_def)
qed

section \<open>Several rewrites of one hook\<close>

definition rewriting_chain :: "string \<Rightarrow> int \<Rightarrow> bytes \<Rightarrow> chain" where
  "rewriting_chain name prio ip = \<lparr>ch_Name = name, ch_Base = True, ch_Hook = ''prerouting'',
     ch_Priority = prio, ch_Devices = [], ch_Policy = ''accept'', ch_Rules = [dnat_to ip]\<rparr>"

definition two_rewrites :: "bytes \<Rightarrow> bytes \<Rightarrow> ruleset" where
  "two_rewrites a b = \<lparr>rs_Tables = [\<lparr>t_Family = ''ip'', t_Name = ''nat'',
     t_Chains = [rewriting_chain ''first'' (-100) a, rewriting_chain ''second'' (-90) b], t_Sets = []\<rparr>],
     rs_ReadFailed = False\<rparr>"

text \<open>C21 (later_dnat_wins): where two nat chains of one hook each rewrite the packet, the traversal keeps the
  rewrite of the chain walked last, although netfilter consults no further nat chain once the
  connection's translation is set up.\<close>

theorem later_dnat_wins:
  assumes "length a = 4" and "length b = 4"
  shows "\<exists>hs. Traverse (two_rewrites a b) ''ip'' ''prerouting'' pkt =
    Some (\<lparr>res_Kind = RAccept, res_Reason = [],
           res_DNAT = Some \<lparr>dn_IP = Addr4 (bytes_word b), dn_Port = p_DstPort pkt\<rparr>\<rparr>, hs)"
  using assms
  by (simp add: Traverse_def ingressUnmodelled_def traverse_with_def two_rewrites_def rewriting_chain_def
      knownHooks_def base_less_def walk_chain.simps walk_rules.simps dnat_to_matches dnat_action_def
      terminal_action_def set_dnat_def record_hit_def Let_def)

theorem later_dnat_wins_witness:
  "\<exists>r hs. Traverse (two_rewrites [10, 0, 0, 1] [10, 0, 0, 2]) ''ip'' ''prerouting'' probe_packet = Some (r, hs) \<and>
     map_option dn_IP (res_DNAT r) = Some (Addr4 0x0a000002)"
  using later_dnat_wins [of "[10, 0, 0, 1]" "[10, 0, 0, 2]" probe_packet]
  by (auto simp: bytes_word_def be_nat_def)

end
