(* ===== verification/Evaluate.thy ===== *)
theory Evaluate
  imports Forwards "HOL-Library.AList" "HOL-Library.Product_Lexorder"
begin

text \<open>
  One verdict per endpoint and address family (\<open>internal/model/evaluate.go\<close>). Go's
  map of endpoints is an association list; the order in which Go then ranges over it is
  the parameter \<open>shuffle\<close>, of which the code may only rely on its being a permutation.
\<close>

section \<open>Zones and verdicts\<close>

record zone =
  z_Name :: string
  z_Src4 :: addr
  z_Src6 :: addr

text \<open>198.51.100.7 and 2001:db8:ffff::7.\<close>

definition InternetZone :: zone where
  "InternetZone = \<lparr>z_Name = ''internet'', z_Src4 = Addr4 0xc6336407,
     z_Src6 = Addr6 0x20010db8ffff00000000000000000007 []\<rparr>"

record verdict =
  v_Endpoint :: endpoint
  v_Family :: string
  v_Result :: string
  v_Reason :: string
  v_Path :: "hit list"
  v_DNAT :: "dnat option"

definition verdict0 :: "endpoint \<Rightarrow> string \<Rightarrow> verdict" where
  "verdict0 ep family = \<lparr>v_Endpoint = ep, v_Family = family, v_Result = [], v_Reason = [],
     v_Path = [], v_DNAT = None\<rparr>"

section \<open>Endpoints\<close>

definition socketOwner :: "socket \<Rightarrow> string" where
  "socketOwner s =
     (if so_Unit s \<noteq> [] then so_Unit s
      else if so_Container s \<noteq> [] then so_Container s
      else so_Process s)"

definition ep_key :: "endpoint \<Rightarrow> string" where
  "ep_key e = ep_Family e @ ''/'' @ ep_Proto e @ ''/'' @ ep_BindIP e @ ''/'' @ itoa (unat (ep_Port e))"

definition port_key :: "endpoint \<Rightarrow> string" where
  "port_key e = ep_Proto e @ ''/'' @ itoa (unat (ep_Port e))"

definition socket_endpoint :: "socket \<Rightarrow> endpoint" where
  "socket_endpoint s = \<lparr>ep_Kind = ''socket'', ep_Family = so_Family s, ep_Proto = so_Proto s,
     ep_BindIP = so_BindIP s, ep_Port = so_Port s, ep_Owner = socketOwner s\<rparr>"

definition publish_endpoint :: "container \<Rightarrow> publish \<Rightarrow> endpoint" where
  "publish_endpoint c p = \<lparr>ep_Kind = ''publish'',
     ep_Family = (case ParseAddr (pb_HostIP p) of
                    None \<Rightarrow> ''ip'' | Some ip \<Rightarrow> if addr_Is6 ip then ''ip6'' else ''ip''),
     ep_Proto = pb_Proto p, ep_BindIP = pb_HostIP p, ep_Port = pb_HostPort p, ep_Owner = ct_Name c\<rparr>"

definition put :: "endpoint \<Rightarrow> (string \<times> endpoint) list \<Rightarrow> (string \<times> endpoint) list" where
  "put e byKey = AList.update (ep_key e) e byKey"

text \<open>The sockets, then the publishes, which overwrite a socket of the same key.\<close>

definition local_endpoints :: "facts \<Rightarrow> (string \<times> endpoint) list" where
  "local_endpoints f =
     fold put
       (map socket_endpoint (f_Sockets f) @
        concat (map (\<lambda>c. map (publish_endpoint c) (ct_Publishes c)) (dk_Containers (f_Docker f)))) []"

definition endpoints :: "(endpoint list \<Rightarrow> endpoint list) \<Rightarrow> facts \<Rightarrow> endpoint list panics" where
  "endpoints shuffle f =
     do { (fwd, _) \<leftarrow> forwards f;
          let byKey = local_endpoints f;
              reported = map (port_key \<circ> snd) byKey;
              byKey' = fold put (filter (\<lambda>e. port_key e \<notin> set reported) fwd) byKey in
          Some (shuffle (map snd byKey')) }"

definition wildcardIPv4Keys :: "endpoint list \<Rightarrow> string list" where
  "wildcardIPv4Keys eps =
     map port_key (filter (\<lambda>e. ep_Kind e = ''socket'' \<and> ep_Family e = ''ip'' \<and> ep_BindIP e = ''0.0.0.0'') eps)"

definition familiesFor :: "endpoint \<Rightarrow> sysctls \<Rightarrow> string list \<Rightarrow> string list" where
  "familiesFor e sc wildcardIPv4 =
     (if ep_Kind e = ''socket'' \<and> ep_Family e = ''ip6'' \<and> (ep_BindIP e = ''::'' \<or> ep_BindIP e = ''[::]'')
         \<and> \<not> sc_BindV6Only sc then
        (if port_key e \<in> set wildcardIPv4 then [''ip6''] else [''ip'', ''ip6''])
      else [ep_Family e])"

section \<open>Addresses, interfaces and routes\<close>

record pub_addr =
  pa_IP :: addr
  pa_Iface :: string

definition publicAddrs :: "facts \<Rightarrow> string \<Rightarrow> pub_addr list" where
  "publicAddrs f family =
     concat (map (\<lambda>i. if \<not> if_Up i then [] else
       concat (map (\<lambda>a. if ad_Family a \<noteq> family \<or> ad_Scope a \<noteq> ''global'' then []
         else case ParseAddr (ad_IP a) of
                Some ip \<Rightarrow> [\<lparr>pa_IP = ip, pa_Iface = if_Name i\<rparr>]
              | None \<Rightarrow> []) (if_Addresses i))) (h_Interfaces (f_Host f)))"

definition isLocal :: "facts \<Rightarrow> addr \<Rightarrow> bool" where
  "isLocal f ip =
     list_ex (\<lambda>i. if_Up i \<and> list_ex (\<lambda>a. ParseAddr (ad_IP a) = Some ip) (if_Addresses i)) (h_Interfaces (f_Host f))"

fun iface_index :: "string \<Rightarrow> iface list \<Rightarrow> u32" where
  "iface_index name [] = 0"
| "iface_index name (i # is) =
     (if if_Name i = name \<and> if_Index i > 0 then of_int (if_Index i) else iface_index name is)"

definition ifaceIndex :: "facts \<Rightarrow> string \<Rightarrow> u32" where
  "ifaceIndex f name = (if name = [] then 0 else iface_index name (h_Interfaces (f_Host f)))"

definition addr_covers :: "addr \<Rightarrow> iface_addr \<Rightarrow> bool" where
  "addr_covers ip a =
     (case ParseAddr (ad_IP a) of
        None \<Rightarrow> False
      | Some base \<Rightarrow> prefix_Contains (PrefixFrom base (ad_Prefix a)) ip)"

fun iface_for :: "addr \<Rightarrow> iface list \<Rightarrow> string option" where
  "iface_for ip [] = None"
| "iface_for ip (i # is) =
     (if if_Up i \<and> list_ex (addr_covers ip) (if_Addresses i) then Some (if_Name i) else iface_for ip is)"

definition ifaceFor :: "facts \<Rightarrow> addr \<Rightarrow> string option" where
  "ifaceFor f ip = iface_for ip (h_Interfaces (f_Host f))"

definition route_covers :: "string \<Rightarrow> addr \<Rightarrow> route \<Rightarrow> bool" where
  "route_covers family ip r =
     (rt_Family r = family \<and>
      (case ParseAddr (rt_Dest r) of
         None \<Rightarrow> False
       | Some dest \<Rightarrow>
           (let p = PrefixFrom dest (rt_PrefixLen r) in prefix_IsValid p \<and> prefix_Contains p ip)))"

definition route_step :: "string \<Rightarrow> addr \<Rightarrow> route \<Rightarrow> int \<times> string \<Rightarrow> int \<times> string" where
  "route_step family ip r bd =
     (let (best, dev) = bd in
      if \<not> route_covers family ip r then (best, dev)
      else if rt_PrefixLen r > best then (rt_PrefixLen r, rt_Device r)
      else if rt_PrefixLen r = best \<and> rt_Device r \<noteq> dev then (best, [])
      else (best, dev))"

definition routeDevFor :: "route list \<Rightarrow> addr \<Rightarrow> string" where
  "routeDevFor routes ip =
     snd (fold (route_step (if addr_Is6 ip then ''ip6'' else ''ip'') ip) routes (-1, []))"

definition iface_forwards :: "string \<Rightarrow> iface \<Rightarrow> bool" where
  "iface_forwards family i \<longleftrightarrow>
     (family = ''ip6'' \<and> if_IPv6Forwarding i) \<or> (family \<noteq> ''ip6'' \<and> if_IPv4Forwarding i)"

definition forwarding :: "host \<Rightarrow> string \<Rightarrow> string \<Rightarrow> string \<times> bool" where
  "forwarding h iface family =
     (let (globalName, globalOn) =
        (if family = ''ip6'' then (''net.ipv6.conf.all.forwarding'', sc_IPv6Forward (h_Sysctls h))
         else (''net.ipv4.ip_forward'', sc_IPv4Forward (h_Sysctls h)));
          ifaceName =
        (if family = ''ip6'' then ''net.ipv6.conf.'' @ iface @ ''.forwarding''
         else ''net.ipv4.conf.'' @ iface @ ''.forwarding'') in
      if globalOn then ([], True)
      else if iface = [] then (globalName @ '' is 0'', False)
      else if list_ex (\<lambda>i. if_Name i = iface \<and> iface_forwards family i) (h_Interfaces h) then ([], True)
      else (globalName @ '' and '' @ ifaceName @ '' are both 0'', False))"

definition bindCovers :: "string \<Rightarrow> addr \<Rightarrow> bool" where
  "bindCovers bindIP dst =
     (if bindIP = ''0.0.0.0'' \<or> bindIP = ''::'' \<or> bindIP = ''[::]'' \<or> bindIP = [] then True
      else
        case ParseAddr bindIP of
          None \<Rightarrow> False
        | Some ip \<Rightarrow> ip = dst \<or> addr_Unmap ip = addr_Unmap dst)"

section \<open>One destination\<close>

definition finish :: "verdict \<Rightarrow> walk_result \<Rightarrow> string \<Rightarrow> verdict" where
  "finish v r how =
     (if res_Kind r = RAccept then v\<lparr>v_Result := ''reachable'', v_Reason := how\<rparr>
      else if res_Kind r = RDrop then v\<lparr>v_Result := ''filtered'', v_Reason := res_Reason r\<rparr>
      else v\<lparr>v_Result := ''unknown'', v_Reason := res_Reason r\<rparr>)"

definition synthetic_packet :: "facts \<Rightarrow> zone \<Rightarrow> endpoint \<Rightarrow> string \<Rightarrow> pub_addr \<Rightarrow> packet" where
  "synthetic_packet f zone ep family c =
     (let src = (if family = ''ip6'' then z_Src6 zone else z_Src4 zone) in
      \<lparr>p_Family = family, p_Proto = ep_Proto ep, p_Src = src, p_Dst = pa_IP c,
       p_SrcPort = 41234, p_DstPort = ep_Port ep, p_InIface = pa_Iface c, p_OutIface = [],
       p_CtState = ''new'', p_DstIsLocal = True, p_DNATApplied = False,
       p_SrcRouteDev = routeDevFor (h_Routes (f_Host f)) src,
       p_InIfaceIndex = ifaceIndex f (pa_Iface c), p_OutIfaceIndex = 0\<rparr>)"

text \<open>The packet after the rewrite, and where it leaves once that is known.\<close>

definition rewritten :: "facts \<Rightarrow> packet \<Rightarrow> dnat \<Rightarrow> packet" where
  "rewritten f pkt d =
     pkt\<lparr>p_Dst := dn_IP d, p_DstPort := dn_Port d, p_DstIsLocal := isLocal f (dn_IP d), p_DNATApplied := True\<rparr>"

definition leaving :: "facts \<Rightarrow> string \<Rightarrow> packet \<Rightarrow> packet" where
  "leaving f outIface pkt = pkt\<lparr>p_OutIface := outIface, p_OutIfaceIndex := ifaceIndex f outIface\<rparr>"

definition dnat_text :: "pub_addr \<Rightarrow> dnat \<Rightarrow> string" where
  "dnat_text c d = ''via '' @ addr_String (pa_IP c) @ '': DNAT to '' @ addr_String (dn_IP d) @ '':'' @
     itoa (unat (dn_Port d))"

text \<open>The second hook of a rewritten packet, and the caveat of a forwarded port.\<close>

definition after_dnat :: "facts \<Rightarrow> endpoint \<Rightarrow> string \<Rightarrow> pub_addr \<Rightarrow> dnat \<Rightarrow> string \<Rightarrow> packet \<Rightarrow> verdict \<Rightarrow> verdict panics" where
  "after_dnat f ep family c d hook pkt v =
     do { (r, hits) \<leftarrow> Traverse (f_Ruleset f) family hook pkt;
          let v1 = finish (v\<lparr>v_Path := v_Path v @ hits\<rparr>) r (dnat_text c d @ '', then the '' @ hook @ '' hook'') in
          Some (if ep_Kind ep = forwardKind \<and> v_Result v1 = ''reachable'' \<and> \<not> p_DstIsLocal pkt then
                  v1\<lparr>v_Reason := v_Reason v1 @ ''; whyopen cannot see '' @ addr_String (dn_IP d) @
                    '', so this says the packet is forwarded there, not that anything answers''\<rparr>
                else v1) }"

definition follow_dnat :: "facts \<Rightarrow> endpoint \<Rightarrow> string \<Rightarrow> pub_addr \<Rightarrow> packet \<Rightarrow> dnat \<Rightarrow> verdict \<Rightarrow> verdict panics" where
  "follow_dnat f ep family c pkt d v =
     (let pkt1 = rewritten f pkt d in
      if p_DstIsLocal pkt1 then after_dnat f ep family c d ''input'' pkt1 v
      else
        let (why, on) = forwarding (f_Host f) (pa_Iface c) family in
        if \<not> on then
          Some (v\<lparr>v_Result := ''filtered'',
                  v_Reason := dnat_text c d @ '', but '' @ why @
                    '', so the kernel never routes the packet on and it does not reach the forward hook''\<rparr>)
        else
          case ifaceFor f (dn_IP d) of
            None \<Rightarrow>
              Some (v\<lparr>v_Result := ''unknown'',
                      v_Reason := ''DNAT target '' @ addr_String (dn_IP d) @
                        '' is not on any known interface subnet, so the forward path cannot be resolved''\<rparr>)
          | Some outIface \<Rightarrow> after_dnat f ep family c d ''forward'' (leaving f outIface pkt1) v)"

definition evaluateAtDestination :: "facts \<Rightarrow> zone \<Rightarrow> endpoint \<Rightarrow> string \<Rightarrow> pub_addr \<Rightarrow> verdict panics" where
  "evaluateAtDestination f zone ep family c =
     (let pkt = synthetic_packet f zone ep family c in
      do { (pre, hits) \<leftarrow> Traverse (f_Ruleset f) family ''prerouting'' pkt;
           let v = (verdict0 ep family)\<lparr>v_Path := hits\<rparr> in
           if res_Kind pre = RUnknown then Some (v\<lparr>v_Result := ''unknown'', v_Reason := res_Reason pre\<rparr>)
           else if res_Kind pre = RDrop then Some (v\<lparr>v_Result := ''filtered'', v_Reason := res_Reason pre\<rparr>)
           else
             case res_DNAT pre of
               None \<Rightarrow>
                 if ep_Kind ep = forwardKind then
                   Some (v\<lparr>v_Result := ''filtered'',
                     v_Reason := ''via '' @ addr_String (pa_IP c) @ '': nothing rewrites '' @
                       itoa (unat (ep_Port ep)) @ ''/'' @ ep_Proto ep @
                       '' here, so the rule this row came from does not forward it at this address''\<rparr>)
                 else
                   do { (r, hits') \<leftarrow> Traverse (f_Ruleset f) family ''input'' pkt;
                        Some (finish (v\<lparr>v_Path := v_Path v @ hits'\<rparr>) r
                          (''via '' @ addr_String (pa_IP c) @ '': delivered locally, so the input hook decides'')) }
             | Some d \<Rightarrow> follow_dnat f ep family c pkt d (v\<lparr>v_DNAT := Some d\<rparr>) })"

section \<open>One endpoint\<close>

definition resultRank :: "string \<Rightarrow> nat" where
  "resultRank r = (if r = ''reachable'' then 2 else if r = ''unknown'' then 1 else 0)"

definition strongest :: "verdict \<Rightarrow> verdict list \<Rightarrow> verdict" where
  "strongest b rs =
     foldl (\<lambda>best r. if resultRank (v_Result r) > resultRank (v_Result best) then r else best) b rs"

definition evaluateOne :: "facts \<Rightarrow> zone \<Rightarrow> endpoint \<Rightarrow> string \<Rightarrow> verdict panics" where
  "evaluateOne f zone ep family =
     (let v = verdict0 ep family; candidates = publicAddrs f family in
      if length candidates = 0 then
        Some (v\<lparr>v_Result := ''unknown'',
          v_Reason := ''the host has no global unicast '' @ family @ '' address, so the internet cannot reach it directly here; any exposure would come from an upstream forwarder (a router, cloud load balancer, or provider NAT) that whyopen cannot see''\<rparr>)
      else
        do { results \<leftarrow> map_panics (evaluateAtDestination f zone ep family)
               (filter (\<lambda>c. bindCovers (ep_BindIP ep) (pa_IP c)) candidates);
             case results of
               [] \<Rightarrow>
                 Some (v\<lparr>v_Result := ''filtered'',
                   v_Reason := ''bound to '' @ ep_BindIP ep @ '', which does not match any host address the internet can reach''\<rparr>)
             | r # rs \<Rightarrow> Some (strongest r rs) })"

section \<open>The whole document\<close>

definition unread_verdict :: "endpoint \<Rightarrow> string \<Rightarrow> verdict" where
  "unread_verdict ep family =
     (verdict0 ep family)\<lparr>v_Result := ''unknown'',
       v_Reason := ''the nftables ruleset could not be read, so no reachability conclusion is possible; whyopen needs root (or CAP_NET_ADMIN) to read it''\<rparr>"

definition verdict_less :: "verdict \<Rightarrow> verdict \<Rightarrow> bool" where
  "verdict_less a b =
     (let x = v_Endpoint a; y = v_Endpoint b in
      if ep_Port x \<noteq> ep_Port y then ep_Port x < ep_Port y
      else if v_Family a \<noteq> v_Family b then v_Family a < v_Family b
      else if ep_Proto x \<noteq> ep_Proto y then ep_Proto x < ep_Proto y
      else if ep_BindIP x \<noteq> ep_BindIP y then ep_BindIP x < ep_BindIP y
      else ep_Kind x < ep_Kind y)"

definition evaluate_family :: "facts \<Rightarrow> zone \<Rightarrow> endpoint \<Rightarrow> string \<Rightarrow> verdict panics" where
  "evaluate_family f zone ep fam =
     (if rs_ReadFailed (f_Ruleset f) then Some (unread_verdict ep fam) else evaluateOne f zone ep fam)"

definition evaluate_endpoint :: "facts \<Rightarrow> zone \<Rightarrow> string list \<Rightarrow> endpoint \<Rightarrow> verdict list panics" where
  "evaluate_endpoint f zone wildcardIPv4 ep =
     map_panics (evaluate_family f zone ep) (familiesFor ep (h_Sysctls (f_Host f)) wildcardIPv4)"

definition Evaluate :: "(endpoint list \<Rightarrow> endpoint list) \<Rightarrow> facts \<Rightarrow> zone \<Rightarrow> verdict list panics" where
  "Evaluate shuffle f zone =
     do { eps \<leftarrow> endpoints shuffle f;
          out \<leftarrow> map_panics (evaluate_endpoint f zone (wildcardIPv4Keys eps)) eps;
          Some (slice_stable verdict_less (concat out)) }"

section \<open>The order of verdicts\<close>

definition verdict_key :: "verdict \<Rightarrow> u16 \<times> string \<times> string \<times> string \<times> string" where
  "verdict_key v = (ep_Port (v_Endpoint v), v_Family v, ep_Proto (v_Endpoint v),
     ep_BindIP (v_Endpoint v), ep_Kind (v_Endpoint v))"

interpretation verdicts: key_less verdict_key verdict_less
  by unfold_locales (auto simp: verdict_less_def verdict_key_def less_prod_def Let_def)

end
