(* ===== verification/Evaluate_Specs.thy ===== *)
theory Evaluate_Specs
  imports Evaluate Forwards_Specs
begin

text \<open>
  What \<open>Evaluate\<close> promises: it returns on a validated document, lists every endpoint
  in every family it serves, is deterministic although Go ranges over a map, says
  reachable only with a full path of accepts behind it, and says unknown where it has
  no evidence.
\<close>

section \<open>It returns\<close>

lemma after_dnat_total:
  assumes "wf_ruleset (f_Ruleset f)" shows "after_dnat f ep family c d hook pkt v \<noteq> None"
proof -
  obtain r hs where "Traverse (f_Ruleset f) family hook pkt = Some (r, hs)"
    using Traverse_cases [OF assms] by blast
  then show ?thesis by (simp add: after_dnat_def Let_def)
qed

lemma follow_dnat_total:
  "wf_ruleset (f_Ruleset f) \<Longrightarrow> follow_dnat f ep family c pkt d v \<noteq> None"
  using after_dnat_total
  by (simp add: follow_dnat_def Let_def del: not_None_eq split: prod.split option.split)

lemma evaluateAtDestination_total:
  assumes "wf_ruleset (f_Ruleset f)" shows "evaluateAtDestination f zone ep family c \<noteq> None"
proof -
  let ?pkt = "synthetic_packet f zone ep family c"
  obtain pre hs where pre: "Traverse (f_Ruleset f) family ''prerouting'' ?pkt = Some (pre, hs)"
    using Traverse_cases [OF assms] by blast
  obtain r hs' where "Traverse (f_Ruleset f) family ''input'' ?pkt = Some (r, hs')"
    using Traverse_cases [OF assms] by blast
  with pre follow_dnat_total [OF assms] show ?thesis
    by (simp add: evaluateAtDestination_def Let_def del: not_None_eq split: option.split)
qed

lemma evaluateOne_total:
  assumes "wf_ruleset (f_Ruleset f)" shows "evaluateOne f zone ep family \<noteq> None"
proof -
  obtain rs where "map_panics (evaluateAtDestination f zone ep family)
      (filter (\<lambda>c. bindCovers (ep_BindIP ep) (pa_IP c)) (publicAddrs f family)) = Some rs"
    using map_panics_total evaluateAtDestination_total [OF assms] by (metis not_None_eq)
  then show ?thesis by (simp add: evaluateOne_def Let_def split: list.split)
qed

lemma evaluate_endpoint_total:
  "wf_ruleset (f_Ruleset f) \<Longrightarrow> evaluate_endpoint f zone w ep \<noteq> None"
  unfolding evaluate_endpoint_def
  by (rule map_panics_total) (simp add: evaluate_family_def evaluateOne_total del: not_None_eq)

lemma Evaluate_total:
  assumes "wf_ruleset (f_Ruleset f)" shows "Evaluate shuffle f zone \<noteq> None"
proof -
  obtain eps where eps: "endpoints shuffle f = Some eps"
    using forwards_total [OF assms] by (auto simp: endpoints_def Let_def)
  obtain out where "map_panics (evaluate_endpoint f zone (wildcardIPv4Keys eps)) eps = Some out"
    using map_panics_total evaluate_endpoint_total [OF assms] by (metis not_None_eq)
  with eps show ?thesis by (simp add: Evaluate_def)
qed

text \<open>Supporting (validated_never_panics): on a document that passes \<open>Validate\<close>, evaluation returns, whatever
  the zone and the order Go ranges over its maps in, and so do the notes about forwarded ports: the
  nil dereferences of the evaluator are unreachable.\<close>

theorem validated_never_panics:
  assumes "Validate f = None"
  shows "Evaluate shuffle f zone \<noteq> None \<and> ForwardNotes f \<noteq> None \<and>
    Traverse (f_Ruleset f) family hook pkt \<noteq> None"
  using assms Evaluate_total Traverse_total forwards_total
  by (simp add: Validate_wf ForwardNotes_def del: not_None_eq)

theorem validated_never_panics_witness:
  "Validate nat_facts = None \<and> Evaluate rev nat_facts InternetZone \<noteq> None"
  using wf_nat_facts validated_never_panics [of nat_facts rev InternetZone]
  by (simp add: Validate_wf)

section \<open>Endpoints\<close>

definition shuffles :: "(endpoint list \<Rightarrow> endpoint list) \<Rightarrow> bool" where
  "shuffles shuffle \<longleftrightarrow> (\<forall>xs. mset (shuffle xs) = mset xs)"

lemma shuffles_set: "shuffles shuffle \<Longrightarrow> set (shuffle xs) = set xs"
  unfolding shuffles_def by (metis mset_eq_setD)

text \<open>
  The map of endpoints: each value stands under its own key, keys are distinct, and the
  last of the values put under a key is the one that stays.
\<close>

definition keyed :: "(string \<times> endpoint) list \<Rightarrow> bool" where
  "keyed al \<longleftrightarrow> distinct (map fst al) \<and> (\<forall>(k, e) \<in> set al. k = ep_key e)"

lemma map_of_put: "map_of (put e al) = (map_of al)(ep_key e \<mapsto> e)"
  by (simp add: put_def update_conv')

lemma put_keyed: "keyed al \<Longrightarrow> keyed (put e al)"
proof -
  assume al: "keyed al"
  have "k = ep_key e'" if "map_of (put e al) k = Some e'" for k e'
    using that al by (auto simp: map_of_put keyed_def split: if_splits dest: map_of_SomeD)
  moreover have "distinct (map fst (put e al))"
    using al by (simp add: keyed_def put_def distinct_update)
  ultimately show ?thesis by (auto simp: keyed_def)
qed

lemma fold_put_keyed: "keyed al \<Longrightarrow> keyed (fold put es al)"
  by (induction es arbitrary: al) (simp_all add: put_keyed)

lemma keyed_mem: "keyed al \<Longrightarrow> e \<in> snd ` set al \<longleftrightarrow> map_of al (ep_key e) = Some e"
  by (force simp: keyed_def image_iff)

lemma keyed_keys: "keyed al \<Longrightarrow> distinct (map ep_key (map snd al))"
proof -
  assume al: "keyed al"
  then have "map ep_key (map snd al) = map fst al"
    by (induction al) (auto simp: keyed_def)
  with al show ?thesis by (simp only: keyed_def)
qed

text \<open>What stands under a key after a series of puts: the last one put there.\<close>

lemma map_of_fold_put:
  "map_of (fold put es al) k =
     (let here = filter (\<lambda>e. ep_key e = k) es in if here = [] then map_of al k else Some (last here))"
  by (induction es arbitrary: al) (auto simp: map_of_put Let_def)

lemma fold_put_origin: "map_of (fold put es al) k = Some e \<Longrightarrow> map_of al k = Some e \<or> e \<in> set es"
proof -
  assume m: "map_of (fold put es al) k = Some e"
  let ?here = "filter (\<lambda>e. ep_key e = k) es"
  show ?thesis
  proof (cases "?here = []")
    case True
    with m show ?thesis by (simp add: map_of_fold_put)
  next
    case False
    with m have "e = last ?here" by (simp add: map_of_fold_put)
    with last_in_set [OF False] show ?thesis by auto
  qed
qed

definition socket_rows :: "facts \<Rightarrow> endpoint list" where
  "socket_rows f = map socket_endpoint (f_Sockets f)"

definition publish_rows :: "facts \<Rightarrow> endpoint list" where
  "publish_rows f = concat (map (\<lambda>c. map (publish_endpoint c) (ct_Publishes c)) (dk_Containers (f_Docker f)))"

lemma local_endpoints_rows: "local_endpoints f = fold put (socket_rows f @ publish_rows f) []"
  by (simp add: local_endpoints_def socket_rows_def publish_rows_def)

lemma local_keyed: "keyed (local_endpoints f)"
  unfolding local_endpoints_rows by (rule fold_put_keyed) (simp add: keyed_def)

text \<open>A forwarded row shares its key only with a row of its own protocol and port.\<close>

lemma forward_key:
  assumes "row_ok e" and "ep_key x = ep_key e"
  shows "ep_Family x = ep_Family e \<and> ep_Proto x = ep_Proto e \<and> ep_BindIP x = ep_BindIP e \<and> ep_Port x = ep_Port e"
proof -
  have "ep_Family x = ep_Family e \<and> ep_Proto x = ep_Proto e \<and> ep_BindIP x = ep_BindIP e \<and>
      itoa (unat (ep_Port x)) = itoa (unat (ep_Port e))"
    by (rule key_parts [where sep = "CHR ''/''"])
      (use assms in \<open>auto simp: ep_key_def row_ok_def itoa_no_slash\<close>)
  then show ?thesis by (simp add: itoa_inj word_unat_eq_iff)
qed

definition fresh :: "facts \<Rightarrow> endpoint list \<Rightarrow> endpoint list" where
  "fresh f fwd = filter (\<lambda>e. port_key e \<notin> port_key ` snd ` set (local_endpoints f)) fwd"

lemma endpoints_mem:
  assumes "endpoints shuffle f = Some eps" and "shuffles shuffle"
  obtains fwd msgs where "forwards f = Some (fwd, msgs)" and "distinct (map ep_key eps)"
    and "set eps = snd ` set (local_endpoints f) \<union> set (fresh f fwd)"
proof -
  obtain fwd msgs where fwd: "forwards f = Some (fwd, msgs)"
    and eps: "eps = shuffle (map snd (fold put (fresh f fwd) (local_endpoints f)))"
    using assms(1) by (auto simp: endpoints_def Let_def fresh_def image_image comp_def)
  let ?al = "fold put (fresh f fwd) (local_endpoints f)"
  have keyed: "keyed ?al" by (rule fold_put_keyed [OF local_keyed])
  have m: "mset eps = mset (map snd ?al)" using eps assms(2) by (simp add: shuffles_def)
  have ok: "row_ok e" if "e \<in> set (fresh f fwd)" for e
    using forwards_rows_shape [OF fwd] that by (simp add: fresh_def)
  have same: "x = e" if "e \<in> set (fresh f fwd)" "x \<in> set (fresh f fwd)" "ep_key x = ep_key e" for e x
  proof -
    have "inj_on fwd_key (set fwd)"
      using forwards_distinct [OF fwd] by (simp add: distinct_map)
    moreover have "fwd_key x = fwd_key e"
      using forward_key [OF ok [OF that(1)] that(3)] by (simp add: fwd_key_def)
    ultimately show ?thesis using that by (auto simp: fresh_def dest: inj_onD)
  qed
  have apart: "map_of (local_endpoints f) (ep_key e) = None" if e: "e \<in> set (fresh f fwd)" for e
  proof (rule ccontr)
    assume "map_of (local_endpoints f) (ep_key e) \<noteq> None"
    then obtain x where x: "(ep_key e, x) \<in> set (local_endpoints f)" by (auto dest: map_of_SomeD)
    then have "ep_key x = ep_key e" using local_keyed [of f] by (auto simp: keyed_def)
    from forward_key [OF ok [OF e] this] have "port_key x = port_key e" by (simp add: port_key_def)
    moreover have "x \<in> snd ` set (local_endpoints f)" using x by (metis image_eqI snd_conv)
    ultimately have "port_key e \<in> port_key ` snd ` set (local_endpoints f)" by (metis image_eqI)
    with e show False by (simp add: fresh_def)
  qed
  have mem: "map_of ?al (ep_key e) = Some e \<longleftrightarrow> e \<in> snd ` set (local_endpoints f) \<or> e \<in> set (fresh f fwd)" for e
  proof (cases "\<exists>x \<in> set (fresh f fwd). ep_key x = ep_key e")
    case True
    then obtain x where x: "x \<in> set (fresh f fwd)" "ep_key x = ep_key e" by blast
    let ?here = "filter (\<lambda>y. ep_key y = ep_key e) (fresh f fwd)"
    have ne: "?here \<noteq> []" using x by (auto simp: filter_empty_conv)
    have "last ?here = x" using last_in_set [OF ne] x same by auto
    then have "map_of ?al (ep_key e) = Some x" using ne by (simp add: map_of_fold_put Let_def)
    moreover have "e \<notin> snd ` set (local_endpoints f)"
      using apart [OF x(1)] x(2) keyed_mem [OF local_keyed, of e f] by auto
    ultimately show ?thesis using x same by auto
  next
    case False
    then have "map_of ?al (ep_key e) = map_of (local_endpoints f) (ep_key e)"
      by (auto simp: map_of_fold_put Let_def filter_empty_conv)
    with False show ?thesis using keyed_mem [OF local_keyed, of e f] by auto
  qed
  have "set eps = snd ` set ?al"
    using m by (metis list.set_map mset_eq_setD)
  moreover have "e \<in> snd ` set ?al \<longleftrightarrow> e \<in> snd ` set (local_endpoints f) \<or> e \<in> set (fresh f fwd)" for e
    by (simp only: keyed_mem [OF keyed] mem)
  ultimately have "set eps = snd ` set (local_endpoints f) \<union> set (fresh f fwd)"
    by (simp only: set_eq_iff Un_iff simp_thms)
  moreover have "distinct (map ep_key eps)"
    using keyed_keys [OF keyed] m by (metis mset_map mset_eq_imp_distinct_iff)
  ultimately show ?thesis using fwd that by blast
qed

lemma local_key_kept:
  assumes "x \<in> set (socket_rows f @ publish_rows f)"
  shows "\<exists>e \<in> snd ` set (local_endpoints f). ep_key e = ep_key x \<and> (x \<in> set (publish_rows f) \<longrightarrow> e \<in> set (publish_rows f))"
proof -
  let ?here = "filter (\<lambda>e. ep_key e = ep_key x) (socket_rows f @ publish_rows f)"
  have ne: "?here \<noteq> []" using assms by (auto simp: filter_empty_conv)
  then have m: "map_of (local_endpoints f) (ep_key x) = Some (last ?here)"
    unfolding local_endpoints_rows map_of_fold_put Let_def by simp
  have key: "ep_key (last ?here) = ep_key x" using last_in_set [OF ne] by (auto simp del: filter_append)
  have "last ?here \<in> set (publish_rows f)" if x: "x \<in> set (publish_rows f)"
  proof -
    have "filter (\<lambda>e. ep_key e = ep_key x) (publish_rows f) \<noteq> []" (is "?late \<noteq> []")
      using x by (auto simp: filter_empty_conv)
    then have "last ?here = last ?late" "last ?late \<in> set ?late"
      by (simp_all only: filter_append last_appendR last_in_set not_False_eq_True)
    then show ?thesis by simp
  qed
  moreover have "last ?here \<in> snd ` set (local_endpoints f)"
    using m key keyed_mem [OF local_keyed] by metis
  ultimately show ?thesis using key by blast
qed

lemma local_origin: "e \<in> snd ` set (local_endpoints f) \<Longrightarrow> e \<in> set (socket_rows f) \<or> e \<in> set (publish_rows f)"
proof -
  assume "e \<in> snd ` set (local_endpoints f)"
  then have "map_of (fold put (socket_rows f @ publish_rows f) []) (ep_key e) = Some e"
    using keyed_mem [OF local_keyed, of e f] by (simp only: local_endpoints_rows)
  from fold_put_origin [OF this] show ?thesis by auto
qed

lemma row_kinds:
  "e \<in> set (socket_rows f) \<Longrightarrow> ep_Kind e = ''socket''"
  "e \<in> set (publish_rows f) \<Longrightarrow> ep_Kind e = ''publish''"
  "row_ok e \<Longrightarrow> ep_Kind e = ''forward''"
  by (auto simp: socket_rows_def socket_endpoint_def publish_rows_def publish_endpoint_def
      row_ok_def forwardKind_def)

text \<open>C17 (endpoints_complete): the endpoints have distinct keys (family, protocol, bind address and
  port); every socket is covered by a row of its key; every publish has a row of its key that is a
  publish, not the proxy's socket; every port the ruleset forwards is covered by a row of its protocol
  and port; and every row comes from a socket, a publish or a rewrite.\<close>

theorem endpoints_complete:
  assumes "endpoints shuffle f = Some eps" and "shuffles shuffle" and "forwards f = Some (fwd, msgs)"
  shows "distinct (map ep_key eps) \<and>
    (\<forall>s \<in> set (f_Sockets f). \<exists>e \<in> set eps. ep_key e = ep_key (socket_endpoint s)) \<and>
    (\<forall>c \<in> set (dk_Containers (f_Docker f)). \<forall>p \<in> set (ct_Publishes c).
       \<exists>e \<in> set eps. ep_key e = ep_key (publish_endpoint c p) \<and> ep_Kind e = ''publish'') \<and>
    (\<forall>w \<in> set fwd. \<exists>e \<in> set eps. port_key e = port_key w) \<and>
    set eps \<subseteq> set (socket_rows f) \<union> set (publish_rows f) \<union> set fwd"
proof -
  have keys: "distinct (map ep_key eps)"
    and eps: "set eps = snd ` set (local_endpoints f) \<union> set (fresh f fwd)"
    by (rule endpoints_mem [OF assms(1,2)], simp add: assms(3))+
  have sockets: "\<exists>e \<in> set eps. ep_key e = ep_key (socket_endpoint s)" if "s \<in> set (f_Sockets f)" for s
    using local_key_kept [of "socket_endpoint s" f] that eps by (auto simp: socket_rows_def)
  have publishes: "\<exists>e \<in> set eps. ep_key e = ep_key (publish_endpoint c p) \<and> ep_Kind e = ''publish''"
    if "c \<in> set (dk_Containers (f_Docker f))" "p \<in> set (ct_Publishes c)" for c p
  proof -
    have "publish_endpoint c p \<in> set (publish_rows f)" using that by (auto simp: publish_rows_def)
    with local_key_kept [of "publish_endpoint c p" f] obtain e where
      "e \<in> snd ` set (local_endpoints f)" "ep_key e = ep_key (publish_endpoint c p)" "e \<in> set (publish_rows f)"
      by auto
    with row_kinds(2) eps show ?thesis by blast
  qed
  have ports: "\<exists>e \<in> set eps. port_key e = port_key w" if "w \<in> set fwd" for w
  proof (cases "w \<in> set (fresh f fwd)")
    case False
    with that have "port_key w \<in> port_key ` snd ` set (local_endpoints f)" by (simp add: fresh_def)
    then obtain x where "x \<in> snd ` set (local_endpoints f)" "port_key x = port_key w" by (metis imageE)
    then show ?thesis unfolding eps by blast
  qed (unfold eps, blast)
  have origin: "set eps \<subseteq> set (socket_rows f) \<union> set (publish_rows f) \<union> set fwd"
  proof
    fix e assume "e \<in> set eps"
    then have "e \<in> snd ` set (local_endpoints f) \<or> e \<in> set fwd"
      unfolding eps by (simp add: fresh_def) blast
    then show "e \<in> set (socket_rows f) \<union> set (publish_rows f) \<union> set fwd"
      using local_origin by blast
  qed
  show ?thesis by (intro conjI ballI keys sockets publishes ports origin)
qed

lemma local_nonempty:
  assumes "endpoints shuffle f = Some eps" and "shuffles shuffle" and "s \<in> set (f_Sockets f)"
  shows "\<exists>e \<in> set eps. ep_key e = ep_key (socket_endpoint s)"
proof (rule endpoints_mem [OF assms(1,2)])
  fix fwd assume "set eps = snd ` set (local_endpoints f) \<union> set (fresh f fwd)"
  then show ?thesis
    using local_key_kept [of "socket_endpoint s" f] assms(3) by (auto simp: socket_rows_def)
qed

definition port_22_facts :: facts where
  "port_22_facts = (facts_of [])\<lparr>f_Sockets := [\<lparr>so_Family = ''ip6'', so_Proto = ''tcp'', so_BindIP = ''::'',
     so_Port = 22, so_Inode = 1, so_UID = 0, so_PID = 7, so_Process = ''sshd'', so_Unit = ''ssh.service'',
     so_Container = []\<rparr>],
     f_Docker := \<lparr>dk_Available = True, dk_Containers = [\<lparr>ct_ID = ''a'', ct_Name = ''web'',
       ct_Publishes = [\<lparr>pb_HostIP = ''0.0.0.0'', pb_HostPort = 80, pb_ContainerIP = ''172.17.0.2'',
         pb_ContainerPort = 80, pb_Proto = ''tcp''\<rparr>]\<rparr>]\<rparr>\<rparr>"

lemma port_22_forwards: "forwards port_22_facts = Some ([], [])"
  by (simp add: forwards_def port_22_facts_def facts_of_def fwd_bases_def)

lemma shuffles_rev: "shuffles rev"
  by (simp add: shuffles_def)

theorem endpoints_complete_witness:
  "\<exists>eps. endpoints rev port_22_facts = Some eps \<and> (\<exists>e \<in> set eps. ep_Kind e = ''publish'')"
proof -
  obtain eps where eps: "endpoints rev port_22_facts = Some eps"
    by (auto simp: endpoints_def port_22_forwards Let_def)
  from endpoints_complete [OF eps shuffles_rev port_22_forwards] eps show ?thesis
    by (auto simp: port_22_facts_def)
qed

section \<open>Rows of the result\<close>

lemma finish_fields [simp]:
  "v_Endpoint (finish v r how) = v_Endpoint v" "v_Family (finish v r how) = v_Family v"
  "v_Path (finish v r how) = v_Path v" "v_DNAT (finish v r how) = v_DNAT v"
  by (simp_all add: finish_def)

lemma finish_result:
  "v_Result (finish v r how) =
     (if res_Kind r = RAccept then ''reachable'' else if res_Kind r = RDrop then ''filtered'' else ''unknown'')"
  by (simp add: finish_def)

lemma verdict0_fields [simp]: "v_Endpoint (verdict0 ep fam) = ep" "v_Family (verdict0 ep fam) = fam"
  by (simp_all add: verdict0_def)

lemma after_dnat_row:
  "after_dnat f ep family c d hook pkt v = Some w \<Longrightarrow> v_Endpoint w = v_Endpoint v \<and> v_Family w = v_Family v"
  by (auto simp: after_dnat_def Let_def split: if_splits)

lemma follow_dnat_row:
  assumes "follow_dnat f ep family c pkt d v = Some w"
  shows "v_Endpoint w = v_Endpoint v \<and> v_Family w = v_Family v"
proof (cases "isLocal f (dn_IP d)")
  case True
  with assms show ?thesis by (auto simp: follow_dnat_def Let_def rewritten_def dest: after_dnat_row)
next
  case False
  show ?thesis
  proof (cases "snd (forwarding (f_Host f) (pa_Iface c) family)")
    case True
    with False assms show ?thesis
      by (cases "ifaceFor f (dn_IP d)")
        (auto simp: follow_dnat_def Let_def rewritten_def case_prod_unfold dest: after_dnat_row)
  next
    case False
    with \<open>\<not> isLocal f (dn_IP d)\<close> assms show ?thesis
      by (auto simp: follow_dnat_def Let_def rewritten_def case_prod_unfold)
  qed
qed

text \<open>The ways an evaluation at one address goes.\<close>

lemma evaluateAtDestination_cases:
  assumes "evaluateAtDestination f zone ep family c = Some w"
  obtains (Ended) pre hs where
    "Traverse (f_Ruleset f) family ''prerouting'' (synthetic_packet f zone ep family c) = Some (pre, hs)"
    and "res_Kind pre = RUnknown \<and> v_Result w = ''unknown'' \<or> res_Kind pre = RDrop \<and> v_Result w = ''filtered''"
    and "v_Endpoint w = ep \<and> v_Family w = family"
  | (Nowhere) pre hs where
    "Traverse (f_Ruleset f) family ''prerouting'' (synthetic_packet f zone ep family c) = Some (pre, hs)"
    and "res_Kind pre = RAccept" and "res_DNAT pre = None" and "ep_Kind ep = forwardKind"
    and "v_Result w = ''filtered''"
    and "v_Endpoint w = ep \<and> v_Family w = family"
  | (Local) pre hs r hs' where
    "Traverse (f_Ruleset f) family ''prerouting'' (synthetic_packet f zone ep family c) = Some (pre, hs)"
    and "res_Kind pre = RAccept" and "res_DNAT pre = None" and "ep_Kind ep \<noteq> forwardKind"
    and "Traverse (f_Ruleset f) family ''input'' (synthetic_packet f zone ep family c) = Some (r, hs')"
    and "w = finish ((verdict0 ep family)\<lparr>v_Path := hs @ hs'\<rparr>) r
          (''via '' @ addr_String (pa_IP c) @ '': delivered locally, so the input hook decides'')"
  | (Rewritten) pre hs d where
    "Traverse (f_Ruleset f) family ''prerouting'' (synthetic_packet f zone ep family c) = Some (pre, hs)"
    and "res_Kind pre = RAccept" and "res_DNAT pre = Some d"
    and "follow_dnat f ep family c (synthetic_packet f zone ep family c) d
          ((verdict0 ep family)\<lparr>v_Path := hs, v_DNAT := Some d\<rparr>) = Some w"
proof -
  let ?pkt = "synthetic_packet f zone ep family c"
  obtain pre hs where pre: "Traverse (f_Ruleset f) family ''prerouting'' ?pkt = Some (pre, hs)"
    using assms by (cases "Traverse (f_Ruleset f) family ''prerouting'' ?pkt") (auto simp: evaluateAtDestination_def)
  have kinds: "res_Kind pre \<in> {RAccept, RDrop, RUnknown}"
    using Traverse_kinds' [OF pre] .
  consider "res_Kind pre = RUnknown \<or> res_Kind pre = RDrop" | "res_Kind pre = RAccept"
    using kinds by blast
  then show ?thesis
  proof cases
    case 1
    with assms pre show ?thesis
      by (intro Ended [OF pre]) (auto simp: evaluateAtDestination_def verdict0_def)
  next
    case 2
    show ?thesis
    proof (cases "res_DNAT pre")
      case None
      show ?thesis
      proof (cases "ep_Kind ep = forwardKind")
        case True
        with assms pre 2 None show ?thesis
          by (intro Nowhere [OF pre]) (auto simp: evaluateAtDestination_def verdict0_def)
      next
        case False
        obtain r hs' where r: "Traverse (f_Ruleset f) family ''input'' ?pkt = Some (r, hs')"
          using assms pre 2 None False
          by (cases "Traverse (f_Ruleset f) family ''input'' ?pkt") (auto simp: evaluateAtDestination_def)
        with assms pre 2 None False show ?thesis
          by (intro Local [OF pre _ _ _ r]) (simp_all add: evaluateAtDestination_def)
      qed
    next
      case (Some d)
      with assms pre 2 show ?thesis
        by (intro Rewritten [OF pre]) (simp_all add: evaluateAtDestination_def)
    qed
  qed
qed

lemma evaluateAtDestination_row:
  assumes "evaluateAtDestination f zone ep family c = Some w"
  shows "v_Endpoint w = ep \<and> v_Family w = family"
  using assms
proof (cases rule: evaluateAtDestination_cases)
  case (Rewritten pre hs d)
  from follow_dnat_row [OF this(4)] show ?thesis by simp
qed simp_all

lemma strongest_in: "strongest r rs \<in> insert r (set rs)"
  unfolding strongest_def by (induction rs arbitrary: r) auto

definition reachable_addrs :: "facts \<Rightarrow> endpoint \<Rightarrow> string \<Rightarrow> pub_addr list" where
  "reachable_addrs f ep family = filter (\<lambda>c. bindCovers (ep_BindIP ep) (pa_IP c)) (publicAddrs f family)"

lemma evaluateOne_cases:
  assumes "evaluateOne f zone ep family = Some w"
  obtains (NoAddress) "publicAddrs f family = []" and "v_Result w = ''unknown''"
      and "v_Endpoint w = ep \<and> v_Family w = family"
  | (NoBind) "publicAddrs f family \<noteq> []" and "reachable_addrs f ep family = []" and "v_Result w = ''filtered''"
      and "v_Endpoint w = ep \<and> v_Family w = family"
  | (Best) r rs where "publicAddrs f family \<noteq> []"
      and "map_panics (evaluateAtDestination f zone ep family) (reachable_addrs f ep family) = Some (r # rs)"
      and "w = strongest r rs"
proof (cases "publicAddrs f family = []")
  case True
  with assms show ?thesis by (intro NoAddress) (auto simp: evaluateOne_def verdict0_def)
next
  case False
  then obtain rs where rs: "map_panics (evaluateAtDestination f zone ep family) (reachable_addrs f ep family) = Some rs"
    using assms unfolding evaluateOne_def Let_def reachable_addrs_def by auto
  show ?thesis
  proof (cases rs)
    case Nil
    with rs map_panics_length [OF rs] have "reachable_addrs f ep family = []" by simp
    with assms False rs Nil show ?thesis
      by (intro NoBind) (auto simp: evaluateOne_def verdict0_def reachable_addrs_def)
  next
    case (Cons r rs')
    have "w = strongest r rs'"
      using assms False rs Cons by (simp add: evaluateOne_def reachable_addrs_def)
    with False rs Cons show ?thesis by (intro Best) simp_all
  qed
qed

lemma evaluateOne_row:
  assumes "evaluateOne f zone ep family = Some w" shows "v_Endpoint w = ep \<and> v_Family w = family"
  using assms
proof (cases rule: evaluateOne_cases)
  case (Best r rs)
  then have "w \<in> set (r # rs)" using strongest_in [of r rs] by simp
  then show ?thesis using map_panics_in [OF Best(2)] evaluateAtDestination_row by blast
qed simp_all

lemma evaluate_family_row:
  "evaluate_family f zone ep fam = Some v \<Longrightarrow> v_Endpoint v = ep \<and> v_Family v = fam"
  by (auto simp: evaluate_family_def unread_verdict_def dest: evaluateOne_row split: if_splits)

text \<open>The families an endpoint serves, among the endpoints of a document.\<close>

definition served :: "facts \<Rightarrow> endpoint list \<Rightarrow> endpoint \<Rightarrow> string set" where
  "served f eps ep = set (familiesFor ep (h_Sysctls (f_Host f)) (wildcardIPv4Keys eps))"

lemma served_nonempty: "\<exists>fam. fam \<in> served f eps ep"
  by (auto simp: served_def familiesFor_def)

lemma evaluate_endpoint_mem:
  "evaluate_endpoint f zone (wildcardIPv4Keys eps) ep = Some rw \<Longrightarrow>
   v \<in> set rw \<longleftrightarrow> (\<exists>fam \<in> served f eps ep. evaluate_family f zone ep fam = Some v)"
  unfolding evaluate_endpoint_def served_def by (rule map_panics_in)

lemma evaluate_endpoint_some:
  assumes "evaluate_endpoint f zone (wildcardIPv4Keys eps) ep = Some rw" and "fam \<in> served f eps ep"
  shows "\<exists>v. evaluate_family f zone ep fam = Some v"
  using map_panics_obtain [OF assms(1) [unfolded evaluate_endpoint_def] assms(2) [unfolded served_def]] by blast

lemma Evaluate_rows_mem:
  assumes "Evaluate shuffle f zone = Some vs" and "endpoints shuffle f = Some eps"
  shows "v \<in> set vs \<longleftrightarrow> (\<exists>ep \<in> set eps. \<exists>fam \<in> served f eps ep. evaluate_family f zone ep fam = Some v)"
    and "ep \<in> set eps \<Longrightarrow> fam \<in> served f eps ep \<Longrightarrow> \<exists>v. evaluate_family f zone ep fam = Some v"
proof -
  obtain out where out: "map_panics (evaluate_endpoint f zone (wildcardIPv4Keys eps)) eps = Some out"
    and vs: "vs = slice_stable verdict_less (concat out)"
    using assms by (auto simp: Evaluate_def)
  show "v \<in> set vs \<longleftrightarrow> (\<exists>ep \<in> set eps. \<exists>fam \<in> served f eps ep. evaluate_family f zone ep fam = Some v)"
  proof
    assume "v \<in> set vs"
    then obtain rw where "rw \<in> set out" "v \<in> set rw" by (auto simp: vs)
    then obtain ep where "ep \<in> set eps" "evaluate_endpoint f zone (wildcardIPv4Keys eps) ep = Some rw"
      using map_panics_in [OF out] by blast
    with evaluate_endpoint_mem \<open>v \<in> set rw\<close>
    show "\<exists>ep \<in> set eps. \<exists>fam \<in> served f eps ep. evaluate_family f zone ep fam = Some v" by blast
  next
    assume "\<exists>ep \<in> set eps. \<exists>fam \<in> served f eps ep. evaluate_family f zone ep fam = Some v"
    then obtain ep fam where ep: "ep \<in> set eps" "fam \<in> served f eps ep" "evaluate_family f zone ep fam = Some v"
      by blast
    obtain rw where rw: "evaluate_endpoint f zone (wildcardIPv4Keys eps) ep = Some rw" "rw \<in> set out"
      by (rule map_panics_obtain [OF out ep(1)])
    then have "v \<in> set rw" using evaluate_endpoint_mem ep by blast
    with rw(2) show "v \<in> set vs" by (auto simp: vs)
  qed
  show "\<exists>v. evaluate_family f zone ep fam = Some v" if "ep \<in> set eps" "fam \<in> served f eps ep"
    by (rule map_panics_obtain [OF out that(1)]) (rule evaluate_endpoint_some [OF _ that(2)])
qed

definition row_of :: "verdict \<Rightarrow> endpoint \<times> string" where
  "row_of v = (v_Endpoint v, v_Family v)"

lemma evaluate_endpoint_rows:
  assumes "evaluate_endpoint f zone w ep = Some rw"
  shows "map row_of rw = map (Pair ep) (familiesFor ep (h_Sysctls (f_Host f)) w)"
  using assms unfolding evaluate_endpoint_def
  by (rule map_panics_rel) (simp add: row_of_def evaluate_family_row)

text \<open>C9 (Evaluate_rows): evaluation reports exactly one verdict for every endpoint in every address
  family it serves, and no other, in ascending order of port, family, protocol, bind address and kind.\<close>

theorem Evaluate_rows:
  assumes "Evaluate shuffle f zone = Some vs" and "endpoints shuffle f = Some eps"
  shows "sorted (map verdict_key vs) \<and>
    mset (map row_of vs) =
      mset (concat (map (\<lambda>ep. map (Pair ep) (familiesFor ep (h_Sysctls (f_Host f)) (wildcardIPv4Keys eps))) eps))"
proof
  obtain out where out: "map_panics (evaluate_endpoint f zone (wildcardIPv4Keys eps)) eps = Some out"
    and vs: "vs = slice_stable verdict_less (concat out)"
    using assms by (auto simp: Evaluate_def)
  show "sorted (map verdict_key vs)"
    unfolding vs by (rule verdicts.sorted_keys)
  have "map (map row_of) out =
      map (\<lambda>ep. map (Pair ep) (familiesFor ep (h_Sysctls (f_Host f)) (wildcardIPv4Keys eps))) eps"
    using out by (rule map_panics_rel) (rule evaluate_endpoint_rows)
  moreover have "mset (map row_of vs) = mset (concat (map (map row_of) out))"
    by (simp add: vs map_concat [symmetric])
  ultimately show "mset (map row_of vs) =
      mset (concat (map (\<lambda>ep. map (Pair ep) (familiesFor ep (h_Sysctls (f_Host f)) (wildcardIPv4Keys eps))) eps))"
    by simp
qed

lemma wf_port_22: "wf_ruleset (f_Ruleset port_22_facts)"
  by (simp add: wf_ruleset_def port_22_facts_def facts_of_def)

theorem Evaluate_rows_witness:
  "\<exists>vs. Evaluate rev port_22_facts InternetZone = Some vs \<and> sorted (map verdict_key vs)"
proof -
  obtain vs where vs: "Evaluate rev port_22_facts InternetZone = Some vs"
    using Evaluate_total [OF wf_port_22] by auto
  moreover obtain eps where "endpoints rev port_22_facts = Some eps"
    by (auto simp: endpoints_def port_22_forwards Let_def)
  ultimately show ?thesis using Evaluate_rows by blast
qed

text \<open>Supporting (unread_ruleset_unknown): when the ruleset could not be read, every verdict is unknown and
  carries no path: nothing is concluded from the rules that did arrive.\<close>

theorem unread_ruleset_unknown:
  assumes "rs_ReadFailed (f_Ruleset f)" and "Evaluate shuffle f zone = Some vs" and "v \<in> set vs"
  shows "v_Result v = ''unknown'' \<and> v_Path v = [] \<and> v_DNAT v = None"
proof -
  obtain eps where "endpoints shuffle f = Some eps" using assms(2) by (auto simp: Evaluate_def)
  then obtain ep fam where "evaluate_family f zone ep fam = Some v"
    using Evaluate_rows_mem(1) [OF assms(2)] assms(3) by blast
  then show ?thesis using assms(1) by (auto simp: evaluate_family_def unread_verdict_def verdict0_def)
qed

definition unread_facts :: facts where
  "unread_facts = port_22_facts\<lparr>f_Ruleset := \<lparr>rs_Tables = [], rs_ReadFailed = True\<rparr>\<rparr>"

theorem unread_ruleset_unknown_witness:
  "\<exists>vs v. Evaluate rev unread_facts InternetZone = Some vs \<and> v \<in> set vs \<and> v_Result v = ''unknown''"
proof -
  have wf: "wf_ruleset (f_Ruleset unread_facts)" by (simp add: unread_facts_def wf_ruleset_def)
  obtain vs where vs: "Evaluate rev unread_facts InternetZone = Some vs"
    using Evaluate_total [OF wf] by auto
  have fwd: "forwards unread_facts = Some ([], [])"
    by (simp add: forwards_def unread_facts_def fwd_bases_def)
  obtain eps where eps: "endpoints rev unread_facts = Some eps"
    by (auto simp: endpoints_def fwd Let_def)
  obtain e where e: "e \<in> set eps"
    using local_nonempty [OF eps shuffles_rev, of "hd (f_Sockets port_22_facts)"]
    by (auto simp: unread_facts_def port_22_facts_def)
  obtain fam where fam: "fam \<in> served unread_facts eps e" using served_nonempty by blast
  obtain v where v: "v \<in> set vs"
    using Evaluate_rows_mem [OF vs eps] e fam by blast
  have "rs_ReadFailed (f_Ruleset unread_facts)" by (simp add: unread_facts_def)
  from unread_ruleset_unknown [OF this vs v] vs v show ?thesis by blast
qed

end
