(* ===== verification/Evaluate_Order.thy ===== *)
theory Evaluate_Order
  imports Evaluate_Specs
begin

text \<open>
  Go ranges over the map of endpoints in an order it does not promise. No two rows of a
  report tie in the final sort, so the report does not depend on that order.
\<close>

section \<open>Two orders of one map\<close>

lemma familiesFor_cong: "set w = set w' \<Longrightarrow> familiesFor ep sc w = familiesFor ep sc w'"
  unfolding familiesFor_def by (simp only:)

lemma evaluate_endpoint_cong:
  "set w = set w' \<Longrightarrow> evaluate_endpoint f zone w ep = evaluate_endpoint f zone w' ep"
  unfolding evaluate_endpoint_def using familiesFor_cong [of w w'] by simp

lemma endpoints_shuffle:
  assumes "shuffles shuffle" and "shuffles shuffle'"
  obtains "endpoints shuffle f = None" and "endpoints shuffle' f = None"
  | eps eps' where "endpoints shuffle f = Some eps" and "endpoints shuffle' f = Some eps'" and "mset eps' = mset eps"
proof (cases "forwards f")
  case None
  then show ?thesis by (intro that(1)) (simp_all add: endpoints_def)
next
  case (Some p)
  let ?all = "map snd (fold put (fresh f (fst p)) (local_endpoints f))"
  have "endpoints sh f = Some (sh ?all)" for sh
    using Some by (simp add: endpoints_def Let_def fresh_def image_image comp_def case_prod_unfold)
  moreover have "mset (shuffle' ?all) = mset (shuffle ?all)"
    using assms by (simp add: shuffles_def)
  ultimately show ?thesis by (intro that(2))
qed

text \<open>No two rows of a document tie, when the address of a socket tells its family.\<close>

definition families_told :: "facts \<Rightarrow> bool" where
  "families_told f \<longleftrightarrow>
     (\<forall>s \<in> set (f_Sockets f). \<forall>s' \<in> set (f_Sockets f). so_BindIP s = so_BindIP s' \<longrightarrow> so_Family s = so_Family s')"

lemma row_family:
  assumes "families_told f" and "endpoints shuffle f = Some eps" and "shuffles shuffle"
    and "ep \<in> set eps" "fam \<in> served f eps ep" and "ep' \<in> set eps" "fam \<in> served f eps ep'"
    and "ep_Kind ep = ep_Kind ep'" and "ep_BindIP ep = ep_BindIP ep'"
  shows "ep_Family ep = ep_Family ep'"
proof -
  obtain fwd msgs where fwd: "forwards f = Some (fwd, msgs)"
    and eps: "set eps = snd ` set (local_endpoints f) \<union> set (fresh f fwd)"
    by (rule endpoints_mem [OF assms(2,3)])
  have origin: "e \<in> set (socket_rows f) \<or> e \<in> set (publish_rows f) \<or> row_ok e" if "e \<in> set eps" for e
    using that local_origin [of e f] forwards_rows_shape [OF fwd] unfolding eps by (auto simp: fresh_def)
  have forward: "fam = ep_Family e" if "row_ok e" "fam \<in> served f eps e" for e
    using that by (simp add: served_def familiesFor_def row_ok_def forwardKind_def)
  have sockets: "ep_Family e = ep_Family e'"
    if e: "e \<in> set (socket_rows f)" "e' \<in> set (socket_rows f)" "ep_BindIP e = ep_BindIP e'" for e e'
  proof -
    obtain s s' where "s \<in> set (f_Sockets f)" "e = socket_endpoint s" "s' \<in> set (f_Sockets f)" "e' = socket_endpoint s'"
      using e(1,2) by (auto simp: socket_rows_def)
    moreover from this e(3) have "so_BindIP s = so_BindIP s'" by (simp add: socket_endpoint_def)
    ultimately have "so_Family s = so_Family s'" using assms(1) unfolding families_told_def by blast
    with \<open>e = _\<close> \<open>e' = _\<close> show ?thesis by (simp add: socket_endpoint_def)
  qed
  have publishes: "ep_Family e = ep_Family e'"
    if "e \<in> set (publish_rows f)" "e' \<in> set (publish_rows f)" "ep_BindIP e = ep_BindIP e'" for e e'
    using that by (auto simp: publish_rows_def publish_endpoint_def)
  note kinds = row_kinds
  from origin [OF assms(4)] show ?thesis
  proof (elim disjE)
    assume ep: "ep \<in> set (socket_rows f)"
    then have "ep' \<in> set (socket_rows f)"
      using origin [OF assms(6)] kinds(1) [OF ep] kinds(2,3) [of ep'] assms(8) by auto
    with ep sockets assms(9) show ?thesis by blast
  next
    assume ep: "ep \<in> set (publish_rows f)"
    then have "ep' \<in> set (publish_rows f)"
      using origin [OF assms(6)] kinds(2) [OF ep] kinds(1,3) [of ep'] assms(8) by auto
    with ep publishes assms(9) show ?thesis by blast
  next
    assume ep: "row_ok ep"
    then have "row_ok ep'"
      using origin [OF assms(6)] kinds(3) [OF ep] kinds(1,2) [of ep'] assms(8) by auto
    with ep forward assms(5,7) show ?thesis by metis
  qed
qed

lemma verdict_key_inj:
  assumes "families_told f" and "endpoints shuffle f = Some eps" and "shuffles shuffle"
    and "map_panics (evaluate_endpoint f zone (wildcardIPv4Keys eps)) eps = Some out"
  shows "inj_on verdict_key (set (concat out))"
proof (rule inj_onI)
  have distinct: "inj_on ep_key (set eps)"
    by (rule endpoints_mem [OF assms(2,3)]) (simp add: distinct_map)
  have from_row: "v_Endpoint v \<in> set eps \<and> v_Family v \<in> served f eps (v_Endpoint v) \<and>
      evaluate_family f zone (v_Endpoint v) (v_Family v) = Some v" if v: "v \<in> set (concat out)" for v
  proof -
    obtain rw where "rw \<in> set out" "v \<in> set rw" using v by auto
    then obtain ep where ep: "ep \<in> set eps" "evaluate_endpoint f zone (wildcardIPv4Keys eps) ep = Some rw"
      using map_panics_in [OF assms(4)] by blast
    with \<open>v \<in> set rw\<close> obtain fam where "fam \<in> served f eps ep" "evaluate_family f zone ep fam = Some v"
      using evaluate_endpoint_mem by blast
    with ep evaluate_family_row show ?thesis by metis
  qed
  fix v v' assume v: "v \<in> set (concat out)" "v' \<in> set (concat out)" and key: "verdict_key v = verdict_key v'"
  let ?e = "v_Endpoint v" and ?e' = "v_Endpoint v'"
  have same: "ep_Port ?e = ep_Port ?e'" "v_Family v = v_Family v'" "ep_Proto ?e = ep_Proto ?e'"
    "ep_BindIP ?e = ep_BindIP ?e'" "ep_Kind ?e = ep_Kind ?e'"
    using key by (simp_all add: verdict_key_def)
  have "ep_Family ?e = ep_Family ?e'"
    using row_family [OF assms(1-3)] from_row [OF v(1)] from_row [OF v(2)] same by metis
  with same have "ep_key ?e = ep_key ?e'" by (simp add: ep_key_def)
  moreover have "?e \<in> set eps" "?e' \<in> set eps" using from_row [OF v(1)] from_row [OF v(2)] by blast+
  ultimately have "?e = ?e'" by (rule inj_onD [OF distinct])
  then show "v = v'" using from_row [OF v(1)] from_row [OF v(2)] same(2) by (metis option.inject)
qed

text \<open>C18 (Evaluate_deterministic): the report does not depend on the order Go ranges over its map of
  endpoints in, where sockets bound to one address are of one family (which the collector's two
  listings ensure): the final sort leaves no ties.\<close>

theorem Evaluate_deterministic:
  assumes "families_told f" and "shuffles shuffle" and "shuffles shuffle'"
  shows "Evaluate shuffle f zone = Evaluate shuffle' f zone"
  using assms(2,3)
proof (cases rule: endpoints_shuffle [where f = f])
  case 1
  then show ?thesis by (simp add: Evaluate_def)
next
  case (2 eps eps')
  have "set (wildcardIPv4Keys eps') = set (wildcardIPv4Keys eps)"
    using mset_eq_setD [OF 2(3)] by (simp add: wildcardIPv4Keys_def)
  then have same: "evaluate_endpoint f zone (wildcardIPv4Keys eps') = evaluate_endpoint f zone (wildcardIPv4Keys eps)"
    by (intro ext evaluate_endpoint_cong)
  show ?thesis
  proof (cases "map_panics (evaluate_endpoint f zone (wildcardIPv4Keys eps)) eps")
    case None
    then have "map_panics (evaluate_endpoint f zone (wildcardIPv4Keys eps)) eps' = None"
      using map_panics_perm_None [OF 2(3)] by blast
    with 2 same None show ?thesis by (simp add: Evaluate_def)
  next
    case (Some out)
    obtain out' where out': "map_panics (evaluate_endpoint f zone (wildcardIPv4Keys eps)) eps' = Some out'"
      and m: "mset out' = mset out"
      by (rule map_panics_mset [OF Some 2(3)])
    have "slice_stable verdict_less (concat out) = slice_stable verdict_less (concat out')"
      using mset_concat_cong [OF m] verdict_key_inj [OF assms(1) 2(1) assms(2) Some]
      by (intro verdicts.key_order_free) simp_all
    with 2 same Some out' show ?thesis by (simp add: Evaluate_def)
  qed
qed

theorem Evaluate_deterministic_witness:
  "families_told port_22_facts \<and> Evaluate rev port_22_facts InternetZone = Evaluate id port_22_facts InternetZone"
  using Evaluate_deterministic [OF _ shuffles_rev, of port_22_facts id]
  by (simp add: families_told_def port_22_facts_def shuffles_def)

end
