(* ===== verification/Evaluate_Routes.thy ===== *)
theory Evaluate_Routes
  imports Evaluate
begin

text \<open>
  The device a reply would leave by (\<open>routeDevFor\<close>): the loop keeps the longest covering
  prefix so far and the device its routes agree on, and the invariant of the loop gives
  the longest-prefix rule with its refusal of a tie.
\<close>

definition longest :: "route set \<Rightarrow> int \<Rightarrow> bool" where
  "longest R b \<longleftrightarrow> (\<exists>r \<in> R. rt_PrefixLen r = b) \<and> (\<forall>r \<in> R. rt_PrefixLen r \<le> b)"

text \<open>What the loop knows after the covering routes \<open>R\<close>: nothing yet, or the longest prefix length
  and the device all routes of that length name, if they agree on one.\<close>

definition route_inv :: "route set \<Rightarrow> int \<times> string \<Rightarrow> bool" where
  "route_inv R s \<longleftrightarrow>
     (R = {} \<and> s = (-1, [])) \<or>
     (longest R (fst s) \<and>
      (\<forall>d. d \<noteq> [] \<longrightarrow> (snd s = d \<longleftrightarrow> (\<forall>r \<in> R. rt_PrefixLen r = fst s \<longrightarrow> rt_Device r = d))))"

lemma route_covers_len: "route_covers family ip r \<Longrightarrow> 0 \<le> rt_PrefixLen r"
  by (auto simp: route_covers_def Let_def prefix_IsValid_def PrefixFrom_def split: option.splits if_splits)

lemma route_step_inv:
  assumes "route_inv R s" and "\<forall>r \<in> R. 0 \<le> rt_PrefixLen r"
  shows "route_inv (if route_covers family ip r then insert r R else R) (route_step family ip r s)"
proof (cases "route_covers family ip r")
  case False
  with assms show ?thesis by (simp add: route_step_def case_prod_unfold)
next
  case True
  obtain best dev where s: "s = (best, dev)" by (cases s)
  show ?thesis
  proof (cases "R = {}")
    case True
    with assms(1) s have "s = (-1, [])" by (auto simp: route_inv_def longest_def)
    with True \<open>route_covers family ip r\<close> route_covers_len [of family ip r] show ?thesis
      by (auto simp: route_step_def route_inv_def longest_def)
  next
    case False
    with assms(1) s have longest: "longest R best"
      and dev: "\<And>d. d \<noteq> [] \<Longrightarrow> dev = d \<longleftrightarrow> (\<forall>r \<in> R. rt_PrefixLen r = best \<longrightarrow> rt_Device r = d)"
      by (auto simp: route_inv_def)
    consider "rt_PrefixLen r > best" | "rt_PrefixLen r = best" | "rt_PrefixLen r < best" by linarith
    then show ?thesis
    proof cases
      case 1
      then have "\<forall>q \<in> R. rt_PrefixLen q < rt_PrefixLen r" using longest by (auto simp: longest_def)
      with 1 s \<open>route_covers family ip r\<close> show ?thesis
        by (auto simp: route_step_def route_inv_def longest_def)
    next
      case 2
      then have "longest (insert r R) best" using longest by (auto simp: longest_def)
      moreover have "(if rt_Device r \<noteq> dev then [] else dev) = d \<longleftrightarrow>
          (\<forall>q \<in> insert r R. rt_PrefixLen q = best \<longrightarrow> rt_Device q = d)" if "d \<noteq> []" for d
        using dev [OF that] 2 that by auto
      moreover have "route_step family ip r s = (best, if rt_Device r \<noteq> dev then [] else dev)"
        using 2 s \<open>route_covers family ip r\<close> by (simp add: route_step_def)
      ultimately show ?thesis
        using \<open>route_covers family ip r\<close> by (simp only: route_inv_def if_True fst_conv snd_conv) blast
    next
      case 3
      then have "longest (insert r R) best" using longest by (auto simp: longest_def)
      moreover have "route_step family ip r s = (best, dev)"
        using 3 s by (simp add: route_step_def)
      moreover have "dev = d \<longleftrightarrow> (\<forall>q \<in> insert r R. rt_PrefixLen q = best \<longrightarrow> rt_Device q = d)" if "d \<noteq> []" for d
        using dev [OF that] 3 by auto
      ultimately show ?thesis
        using \<open>route_covers family ip r\<close> by (simp only: route_inv_def if_True fst_conv snd_conv) blast
    qed
  qed
qed

definition covering :: "route list \<Rightarrow> addr \<Rightarrow> route set" where
  "covering routes ip = {r \<in> set routes. route_covers (if addr_Is6 ip then ''ip6'' else ''ip'') ip r}"

lemma route_fold_inv:
  "route_inv (covering routes ip)
     (fold (route_step (if addr_Is6 ip then ''ip6'' else ''ip'') ip) routes (-1, []))"
proof (induction routes rule: rev_induct)
  case Nil
  then show ?case by (simp add: route_inv_def covering_def)
next
  case (snoc r routes)
  let ?fam = "if addr_Is6 ip then ''ip6'' else ''ip''"
  have "covering (routes @ [r]) ip =
      (if route_covers ?fam ip r then insert r (covering routes ip) else covering routes ip)"
    by (auto simp: covering_def)
  moreover have "\<forall>q \<in> covering routes ip. 0 \<le> rt_PrefixLen q"
    using route_covers_len by (auto simp: covering_def)
  ultimately show ?case using route_step_inv [OF snoc.IH] by simp
qed

text \<open>C19 (routeDevFor_longest): a device comes back exactly when some route of the address's family covers
  it and all covering routes of the greatest prefix length name that device; a tie between devices,
  like no route at all, comes back empty.\<close>

theorem routeDevFor_longest:
  assumes "d \<noteq> []"
  shows "routeDevFor routes ip = d \<longleftrightarrow>
    (\<exists>b. longest (covering routes ip) b \<and>
       (\<forall>r \<in> covering routes ip. rt_PrefixLen r = b \<longrightarrow> rt_Device r = d))"
proof -
  let ?s = "fold (route_step (if addr_Is6 ip then ''ip6'' else ''ip'') ip) routes (-1, [])"
  have dev: "routeDevFor routes ip = snd ?s" by (simp add: routeDevFor_def)
  from route_fold_inv [of routes ip] consider
    (empty) "covering routes ip = {}" "?s = (-1, [])"
    | (some) "longest (covering routes ip) (fst ?s)"
        "snd ?s = d \<longleftrightarrow> (\<forall>r \<in> covering routes ip. rt_PrefixLen r = fst ?s \<longrightarrow> rt_Device r = d)"
    using assms unfolding route_inv_def by blast
  then show ?thesis
  proof cases
    case empty
    with assms dev show ?thesis by (simp add: longest_def)
  next
    case some
    have "b = fst ?s" if "longest (covering routes ip) b" for b
      using that some(1) unfolding longest_def by (metis order_antisym)
    with some dev show ?thesis by metis
  qed
qed

text \<open>Two default routes on different devices, and a longer route that settles it.\<close>

theorem routeDevFor_longest_witness:
  "routeDevFor [\<lparr>rt_Dest = ''0.0.0.0'', rt_PrefixLen = 0, rt_Family = ''ip'', rt_Device = ''eth0''\<rparr>]
     (Addr4 0xc6336407) = ''eth0''"
proof -
  let ?r = "\<lparr>rt_Dest = ''0.0.0.0'', rt_PrefixLen = 0, rt_Family = ''ip'', rt_Device = ''eth0''\<rparr>"
  have "ParseAddr ''0.0.0.0'' = Some (Addr4 0)"
    by (simp add: ParseAddr_def parse_v4_def parse_v4_fields_def parse_octet_def parse_uint_def
        digit_value_def bytes_word_def be_nat_def)
  then have "covering [?r] (Addr4 0xc6336407) = {?r}"
    by (auto simp: covering_def route_covers_def PrefixFrom_def prefix_IsValid_def prefix_Contains_def)
  then have "longest (covering [?r] (Addr4 0xc6336407)) 0 \<and>
      (\<forall>r \<in> covering [?r] (Addr4 0xc6336407). rt_PrefixLen r = 0 \<longrightarrow> rt_Device r = ''eth0'')"
    by (simp add: longest_def)
  then show ?thesis using routeDevFor_longest [of "''eth0''"] by blast
qed

end
