(* ===== verification/Evaluate_Verdicts.thy ===== *)
theory Evaluate_Verdicts
  imports Evaluate_Specs
begin

text \<open>
  What a verdict of the report means. \<open>admitted\<close> and \<open>refused\<close> say, for one address of the
  host, which sequence of hooks accepts or drops the synthetic packet; the verdict of a row
  is reachable when some address the endpoint is bound to admits the packet, and filtered
  when every one of them refuses it. Through the stack semantics of \<open>Kernel\<close> a reachable
  row is one the kernel's own evaluation lets through.
\<close>

section \<open>One address\<close>

text \<open>The hook accepts the packet.\<close>

definition accepts_at :: "facts \<Rightarrow> string \<Rightarrow> string \<Rightarrow> packet \<Rightarrow> bool" where
  "accepts_at f family hook pkt \<longleftrightarrow>
     (\<exists>r hs. Traverse (f_Ruleset f) family hook pkt = Some (r, hs) \<and> res_Kind r = RAccept)"

definition sent_on :: "facts \<Rightarrow> string \<Rightarrow> pub_addr \<Rightarrow> packet \<Rightarrow> dnat \<Rightarrow> bool" where
  "sent_on f family c pkt d \<longleftrightarrow>
     (if isLocal f (dn_IP d) then accepts_at f family ''input'' (rewritten f pkt d)
      else snd (forwarding (f_Host f) (pa_Iface c) family) \<and>
        (\<exists>out. ifaceFor f (dn_IP d) = Some out \<and>
           accepts_at f family ''forward'' (leaving f out (rewritten f pkt d))))"

definition admitted :: "facts \<Rightarrow> zone \<Rightarrow> endpoint \<Rightarrow> string \<Rightarrow> pub_addr \<Rightarrow> bool" where
  "admitted f zone ep family c \<longleftrightarrow>
     (let pkt = synthetic_packet f zone ep family c in
      \<exists>pre hs. Traverse (f_Ruleset f) family ''prerouting'' pkt = Some (pre, hs) \<and> res_Kind pre = RAccept \<and>
        (case res_DNAT pre of
           None \<Rightarrow> ep_Kind ep \<noteq> forwardKind \<and> accepts_at f family ''input'' pkt
         | Some d \<Rightarrow> sent_on f family c pkt d))"

lemma finish_reachable [simp]: "v_Result (finish v r how) = ''reachable'' \<longleftrightarrow> res_Kind r = RAccept"
  by (simp add: finish_result)

lemma after_dnat_reachable:
  assumes "after_dnat f ep family c d hook pkt v = Some w"
  shows "v_Result w = ''reachable'' \<longleftrightarrow> accepts_at f family hook pkt"
proof -
  obtain r hs where "Traverse (f_Ruleset f) family hook pkt = Some (r, hs)"
    using assms by (cases "Traverse (f_Ruleset f) family hook pkt") (auto simp: after_dnat_def)
  with assms show ?thesis by (auto simp: after_dnat_def accepts_at_def Let_def split: if_splits)
qed

lemma follow_dnat_reachable:
  assumes "follow_dnat f ep family c pkt d v = Some w"
  shows "v_Result w = ''reachable'' \<longleftrightarrow> sent_on f family c pkt d"
proof (cases "isLocal f (dn_IP d)")
  case True
  with assms show ?thesis
    by (auto simp: follow_dnat_def Let_def sent_on_def rewritten_def dest: after_dnat_reachable)
next
  case False
  show ?thesis
  proof (cases "snd (forwarding (f_Host f) (pa_Iface c) family)")
    case True
    with False assms show ?thesis
      by (cases "ifaceFor f (dn_IP d)")
        (auto simp: follow_dnat_def Let_def sent_on_def rewritten_def case_prod_unfold dest: after_dnat_reachable)
  next
    case False
    with \<open>\<not> isLocal f (dn_IP d)\<close> assms show ?thesis
      by (auto simp: follow_dnat_def Let_def sent_on_def rewritten_def case_prod_unfold)
  qed
qed

lemma destination_reachable:
  assumes "evaluateAtDestination f zone ep family c = Some w"
  shows "v_Result w = ''reachable'' \<longleftrightarrow> admitted f zone ep family c"
  using assms
proof (cases rule: evaluateAtDestination_cases)
  case (Ended pre hs)
  then show ?thesis by (auto simp: admitted_def Let_def)
next
  case (Nowhere pre hs)
  then show ?thesis by (auto simp: admitted_def Let_def)
next
  case (Local pre hs r hs')
  then show ?thesis by (auto simp: admitted_def accepts_at_def Let_def)
next
  case (Rewritten pre hs d)
  from follow_dnat_reachable [OF this(4)] this(1-3) show ?thesis by (simp add: admitted_def Let_def)
qed

text \<open>The same for the hook dropping the packet.\<close>

definition drops_at :: "facts \<Rightarrow> string \<Rightarrow> string \<Rightarrow> packet \<Rightarrow> bool" where
  "drops_at f family hook pkt \<longleftrightarrow>
     (\<exists>r hs. Traverse (f_Ruleset f) family hook pkt = Some (r, hs) \<and> res_Kind r = RDrop)"

definition stopped_on :: "facts \<Rightarrow> string \<Rightarrow> pub_addr \<Rightarrow> packet \<Rightarrow> dnat \<Rightarrow> bool" where
  "stopped_on f family c pkt d \<longleftrightarrow>
     (if isLocal f (dn_IP d) then drops_at f family ''input'' (rewritten f pkt d)
      else \<not> snd (forwarding (f_Host f) (pa_Iface c) family) \<or>
        (\<exists>out. ifaceFor f (dn_IP d) = Some out \<and>
           drops_at f family ''forward'' (leaving f out (rewritten f pkt d))))"

definition refused :: "facts \<Rightarrow> zone \<Rightarrow> endpoint \<Rightarrow> string \<Rightarrow> pub_addr \<Rightarrow> bool" where
  "refused f zone ep family c \<longleftrightarrow>
     (let pkt = synthetic_packet f zone ep family c in
      \<exists>pre hs. Traverse (f_Ruleset f) family ''prerouting'' pkt = Some (pre, hs) \<and>
        (res_Kind pre = RDrop \<or>
         (res_Kind pre = RAccept \<and>
          (case res_DNAT pre of
             None \<Rightarrow> ep_Kind ep = forwardKind \<or> drops_at f family ''input'' pkt
           | Some d \<Rightarrow> stopped_on f family c pkt d))))"

lemma finish_filtered [simp]: "v_Result (finish v r how) = ''filtered'' \<longleftrightarrow> res_Kind r = RDrop"
  by (simp add: finish_result)

lemma after_dnat_filtered:
  assumes "after_dnat f ep family c d hook pkt v = Some w"
  shows "v_Result w = ''filtered'' \<longleftrightarrow> drops_at f family hook pkt"
proof -
  obtain r hs where "Traverse (f_Ruleset f) family hook pkt = Some (r, hs)"
    using assms by (cases "Traverse (f_Ruleset f) family hook pkt") (auto simp: after_dnat_def)
  with assms show ?thesis by (auto simp: after_dnat_def drops_at_def Let_def split: if_splits)
qed

lemma follow_dnat_filtered:
  assumes "follow_dnat f ep family c pkt d v = Some w"
  shows "v_Result w = ''filtered'' \<longleftrightarrow> stopped_on f family c pkt d"
proof (cases "isLocal f (dn_IP d)")
  case True
  with assms show ?thesis
    by (auto simp: follow_dnat_def Let_def stopped_on_def rewritten_def dest: after_dnat_filtered)
next
  case False
  show ?thesis
  proof (cases "snd (forwarding (f_Host f) (pa_Iface c) family)")
    case True
    with False assms show ?thesis
      by (cases "ifaceFor f (dn_IP d)")
        (auto simp: follow_dnat_def Let_def stopped_on_def rewritten_def case_prod_unfold dest: after_dnat_filtered)
  next
    case False
    with \<open>\<not> isLocal f (dn_IP d)\<close> assms show ?thesis
      by (auto simp: follow_dnat_def Let_def stopped_on_def rewritten_def case_prod_unfold)
  qed
qed

lemma destination_filtered:
  assumes "evaluateAtDestination f zone ep family c = Some w"
  shows "v_Result w = ''filtered'' \<longleftrightarrow> refused f zone ep family c"
  using assms
proof (cases rule: evaluateAtDestination_cases)
  case (Ended pre hs)
  then show ?thesis by (auto simp: refused_def Let_def)
next
  case (Nowhere pre hs)
  then show ?thesis by (auto simp: refused_def Let_def)
next
  case (Local pre hs r hs')
  then show ?thesis by (auto simp: refused_def drops_at_def Let_def)
next
  case (Rewritten pre hs d)
  from follow_dnat_filtered [OF this(4)] this(1-3) show ?thesis by (simp add: refused_def Let_def)
qed

section \<open>The strongest result\<close>

lemma strongest_rank: "x \<in> insert b (set rs) \<Longrightarrow> resultRank (v_Result x) \<le> resultRank (v_Result (strongest b rs))"
  unfolding strongest_def
proof (induction rs arbitrary: b x)
  case (Cons r rs)
  let ?best = "if resultRank (v_Result r) > resultRank (v_Result b) then r else b"
  obtain y where y: "y \<in> insert ?best (set rs)" "resultRank (v_Result x) \<le> resultRank (v_Result y)"
  proof (cases "x \<in> set rs")
    case False
    then have "x = b \<or> x = r" using Cons.prems by auto
    then have "resultRank (v_Result x) \<le> resultRank (v_Result ?best)" by (elim disjE) simp_all
    then show ?thesis by (rule that [rotated]) simp
  next
    case True
    then show ?thesis by (intro that [of x]) simp_all
  qed
  from Cons.IH [OF y(1)] y(2) show ?case by simp
qed simp

lemma resultRank_reachable: "2 \<le> resultRank r \<longleftrightarrow> r = ''reachable''"
  by (simp add: resultRank_def)

lemma strongest_reachable:
  "v_Result (strongest b rs) = ''reachable'' \<longleftrightarrow> (\<exists>x \<in> insert b (set rs). v_Result x = ''reachable'')"
proof
  assume "\<exists>x \<in> insert b (set rs). v_Result x = ''reachable''"
  then obtain x where "x \<in> insert b (set rs)" "2 \<le> resultRank (v_Result x)"
    unfolding resultRank_reachable by blast
  from order_trans [OF this(2) strongest_rank [OF this(1)]]
  show "v_Result (strongest b rs) = ''reachable''" by (simp only: resultRank_reachable)
qed (use strongest_in [of b rs] in blast)


definition result_ok :: "verdict \<Rightarrow> bool" where
  "result_ok v \<longleftrightarrow> v_Result v \<in> {''reachable'', ''filtered'', ''unknown''}"

lemma finish_result_ok [simp]: "result_ok (finish v r how)"
  by (simp add: finish_result result_ok_def)

lemma resultRank_filtered: "result_ok v \<Longrightarrow> resultRank (v_Result v) = 0 \<longleftrightarrow> v_Result v = ''filtered''"
  by (auto simp: resultRank_def result_ok_def)

lemma strongest_filtered:
  assumes "\<forall>x \<in> insert b (set rs). result_ok x"
  shows "v_Result (strongest b rs) = ''filtered'' \<longleftrightarrow> (\<forall>x \<in> insert b (set rs). v_Result x = ''filtered'')"
proof
  assume "v_Result (strongest b rs) = ''filtered''"
  then have zero: "resultRank (v_Result (strongest b rs)) = 0" by (simp add: resultRank_def)
  show "\<forall>x \<in> insert b (set rs). v_Result x = ''filtered''"
  proof
    fix x assume x: "x \<in> insert b (set rs)"
    then have "resultRank (v_Result x) = 0" using strongest_rank [OF x] zero by simp
    then show "v_Result x = ''filtered''" using assms x resultRank_filtered by blast
  qed
qed (use strongest_in [of b rs] in blast)

lemma after_dnat_ok: "after_dnat f ep family c d hook pkt v = Some w \<Longrightarrow> result_ok w"
  by (auto simp: after_dnat_def Let_def finish_result result_ok_def split: if_splits)

lemma follow_dnat_ok:
  assumes "follow_dnat f ep family c pkt d v = Some w" shows "result_ok w"
proof (cases "isLocal f (dn_IP d)")
  case True
  with assms show ?thesis by (auto simp: follow_dnat_def Let_def rewritten_def dest: after_dnat_ok)
next
  case False
  show ?thesis
  proof (cases "snd (forwarding (f_Host f) (pa_Iface c) family)")
    case True
    with False assms show ?thesis
      by (cases "ifaceFor f (dn_IP d)")
        (auto simp: follow_dnat_def Let_def rewritten_def case_prod_unfold result_ok_def dest: after_dnat_ok [unfolded result_ok_def])
  next
    case False
    with \<open>\<not> isLocal f (dn_IP d)\<close> assms show ?thesis
      by (auto simp: follow_dnat_def Let_def rewritten_def case_prod_unfold result_ok_def)
  qed
qed

lemma destination_ok:
  assumes "evaluateAtDestination f zone ep family c = Some w" shows "result_ok w"
  using assms
proof (cases rule: evaluateAtDestination_cases)
  case (Rewritten pre hs d)
  then show ?thesis using follow_dnat_ok by blast
qed (auto simp: result_ok_def finish_result)

lemma evaluateOne_reachable:
  assumes "evaluateOne f zone ep family = Some w"
  shows "v_Result w = ''reachable'' \<longleftrightarrow> (\<exists>c \<in> set (reachable_addrs f ep family). admitted f zone ep family c)"
  using assms
proof (cases rule: evaluateOne_cases)
  case (Best r rs)
  have "v_Result w = ''reachable'' \<longleftrightarrow> (\<exists>x \<in> set (r # rs). v_Result x = ''reachable'')"
    using strongest_reachable [of r rs] Best(3) by simp
  also have "\<dots> \<longleftrightarrow> (\<exists>c \<in> set (reachable_addrs f ep family). admitted f zone ep family c)"
  proof
    assume "\<exists>x \<in> set (r # rs). v_Result x = ''reachable''"
    then obtain x where x: "x \<in> set (r # rs)" "v_Result x = ''reachable''" by blast
    then obtain c where "c \<in> set (reachable_addrs f ep family)" "evaluateAtDestination f zone ep family c = Some x"
      using map_panics_in [OF Best(2)] by blast
    with x(2) destination_reachable show "\<exists>c \<in> set (reachable_addrs f ep family). admitted f zone ep family c" by blast
  next
    assume "\<exists>c \<in> set (reachable_addrs f ep family). admitted f zone ep family c"
    then obtain c where c: "c \<in> set (reachable_addrs f ep family)" "admitted f zone ep family c" by blast
    obtain x where x: "evaluateAtDestination f zone ep family c = Some x" "x \<in> set (r # rs)"
      by (rule map_panics_obtain [OF Best(2) c(1)])
    with c(2) destination_reachable show "\<exists>x \<in> set (r # rs). v_Result x = ''reachable''" by blast
  qed
  finally show ?thesis .
qed (simp_all add: reachable_addrs_def)

lemma evaluateOne_filtered:
  assumes "evaluateOne f zone ep family = Some w"
  shows "v_Result w = ''filtered'' \<longleftrightarrow>
    publicAddrs f family \<noteq> [] \<and> (\<forall>c \<in> set (reachable_addrs f ep family). refused f zone ep family c)"
  using assms
proof (cases rule: evaluateOne_cases)
  case (Best r rs)
  have ok: "\<forall>x \<in> set (r # rs). result_ok x"
    using map_panics_in [OF Best(2)] destination_ok by blast
  have "v_Result w = ''filtered'' \<longleftrightarrow> (\<forall>x \<in> set (r # rs). v_Result x = ''filtered'')"
    using strongest_filtered [of r rs] ok Best(3) by simp
  also have "\<dots> \<longleftrightarrow> (\<forall>c \<in> set (reachable_addrs f ep family). refused f zone ep family c)"
  proof
    assume all: "\<forall>x \<in> set (r # rs). v_Result x = ''filtered''"
    show "\<forall>c \<in> set (reachable_addrs f ep family). refused f zone ep family c"
    proof
      fix c assume c: "c \<in> set (reachable_addrs f ep family)"
      obtain x where "evaluateAtDestination f zone ep family c = Some x" "x \<in> set (r # rs)"
        by (rule map_panics_obtain [OF Best(2) c])
      with all destination_filtered show "refused f zone ep family c" by blast
    qed
  next
    assume all: "\<forall>c \<in> set (reachable_addrs f ep family). refused f zone ep family c"
    show "\<forall>x \<in> set (r # rs). v_Result x = ''filtered''"
    proof
      fix x assume "x \<in> set (r # rs)"
      then obtain c where "c \<in> set (reachable_addrs f ep family)" "evaluateAtDestination f zone ep family c = Some x"
        using map_panics_in [OF Best(2)] by blast
      with all destination_filtered show "v_Result x = ''filtered''" by blast
    qed
  qed
  finally show ?thesis using Best(1) by simp
qed (simp_all add: reachable_addrs_def)

lemma unread_result: "v_Result (unread_verdict ep fam) = ''unknown''"
  by (simp add: unread_verdict_def)

lemma Evaluate_row:
  assumes "Evaluate shuffle f zone = Some vs" and "v \<in> set vs"
  shows "evaluate_family f zone (v_Endpoint v) (v_Family v) = Some v"
proof -
  obtain eps where "endpoints shuffle f = Some eps" using assms(1) by (auto simp: Evaluate_def)
  then obtain ep fam where "evaluate_family f zone ep fam = Some v"
    using Evaluate_rows_mem(1) [OF assms(1)] assms(2) by blast
  with evaluate_family_row show ?thesis by metis
qed

section \<open>Rows\<close>

lemma reachable_row:
  assumes "Evaluate shuffle f zone = Some vs" and "v \<in> set vs"
  shows "v_Result v = ''reachable'' \<longleftrightarrow> \<not> rs_ReadFailed (f_Ruleset f) \<and>
    (\<exists>c \<in> set (publicAddrs f (v_Family v)). bindCovers (ep_BindIP (v_Endpoint v)) (pa_IP c) \<and>
       admitted f zone (v_Endpoint v) (v_Family v) c)"
proof (cases "rs_ReadFailed (f_Ruleset f)")
  case True
  with Evaluate_row [OF assms] have "v = unread_verdict (v_Endpoint v) (v_Family v)"
    by (simp add: evaluate_family_def)
  then have "v_Result v = ''unknown''" by (metis unread_result)
  with True show ?thesis by simp
next
  case False
  with Evaluate_row [OF assms] have "evaluateOne f zone (v_Endpoint v) (v_Family v) = Some v"
    by (simp add: evaluate_family_def)
  from evaluateOne_reachable [OF this] False show ?thesis by (auto simp: reachable_addrs_def)
qed

text \<open>C1 (reachable_iff): a row is reachable exactly when the ruleset was read and some global address of
  the host that the endpoint's bind covers admits the packet: prerouting accepts it, and then
  either, unrewritten, the endpoint is not a forwarded port and the input hook accepts it, or,
  rewritten, it goes to this host and the input hook accepts it, or it goes on, the arriving
  interface forwards, the way out is known, and the forward hook accepts it.\<close>

theorem reachable_iff:
  assumes "Evaluate shuffle f zone = Some vs" and "v \<in> set vs"
  shows "v_Result v = ''reachable'' \<longleftrightarrow> \<not> rs_ReadFailed (f_Ruleset f) \<and>
    (\<exists>c \<in> set (publicAddrs f (v_Family v)). bindCovers (ep_BindIP (v_Endpoint v)) (pa_IP c) \<and>
       admitted f zone (v_Endpoint v) (v_Family v) c)"
  using assms by (rule reachable_row)

text \<open>C3 (filtered_iff): a row is filtered exactly when the ruleset was read, the host has a global address of
  the family, and every one of them that the endpoint's bind covers refuses the packet; no
  refusal rests on an expression that could not be resolved.\<close>

theorem filtered_iff:
  assumes "Evaluate shuffle f zone = Some vs" and "v \<in> set vs"
  shows "v_Result v = ''filtered'' \<longleftrightarrow> \<not> rs_ReadFailed (f_Ruleset f) \<and>
    publicAddrs f (v_Family v) \<noteq> [] \<and>
    (\<forall>c \<in> set (publicAddrs f (v_Family v)). bindCovers (ep_BindIP (v_Endpoint v)) (pa_IP c) \<longrightarrow>
       refused f zone (v_Endpoint v) (v_Family v) c)"
proof (cases "rs_ReadFailed (f_Ruleset f)")
  case True
  with Evaluate_row [OF assms] have "v = unread_verdict (v_Endpoint v) (v_Family v)"
    by (simp add: evaluate_family_def)
  then have "v_Result v = ''unknown''" by (metis unread_result)
  with True show ?thesis by simp
next
  case False
  with Evaluate_row [OF assms] have "evaluateOne f zone (v_Endpoint v) (v_Family v) = Some v"
    by (simp add: evaluate_family_def)
  from evaluateOne_filtered [OF this] False show ?thesis by (auto simp: reachable_addrs_def)
qed

section \<open>Rows and the kernel\<close>

definition kernel_verdict :: "facts \<Rightarrow> string \<Rightarrow> string \<Rightarrow> packet \<Rightarrow> result_kind \<Rightarrow> bool" where
  "kernel_verdict f family hook pkt k \<longleftrightarrow>
     (\<exists>bs. collect_bases family hook (rs_Tables (f_Ruleset f)) = Inr bs \<and>
        kernel_hook (MatchRule pkt) (f_Ruleset f) family (slice_stable base_less bs) k)"

lemma Traverse_kernel_verdict:
  assumes "goto_in_base_only (f_Ruleset f) family"
    and "Traverse (f_Ruleset f) family hook pkt = Some (r, hs)" and "res_Kind r = k" and "k \<in> {RAccept, RDrop}"
  shows "kernel_verdict f family hook pkt k"
  using Traverse_kernel [OF assms(1,2)] assms(3,4) by (auto simp: kernel_verdict_def)

lemma accepts_kernel:
  "goto_in_base_only (f_Ruleset f) family \<Longrightarrow> accepts_at f family hook pkt \<Longrightarrow> kernel_verdict f family hook pkt RAccept"
  by (auto simp: accepts_at_def intro: Traverse_kernel_verdict)

lemma drops_kernel:
  "goto_in_base_only (f_Ruleset f) family \<Longrightarrow> drops_at f family hook pkt \<Longrightarrow> kernel_verdict f family hook pkt RDrop"
  by (auto simp: drops_at_def intro: Traverse_kernel_verdict)

text \<open>
  The packet's way through the kernel's hooks, the rewrite being the one the traversal of
  prerouting found.
\<close>

definition kernel_admits :: "facts \<Rightarrow> zone \<Rightarrow> endpoint \<Rightarrow> string \<Rightarrow> pub_addr \<Rightarrow> bool" where
  "kernel_admits f zone ep family c \<longleftrightarrow>
     (let pkt = synthetic_packet f zone ep family c in
      \<exists>pre hs. Traverse (f_Ruleset f) family ''prerouting'' pkt = Some (pre, hs) \<and>
        kernel_verdict f family ''prerouting'' pkt RAccept \<and>
        (case res_DNAT pre of
           None \<Rightarrow> kernel_verdict f family ''input'' pkt RAccept
         | Some d \<Rightarrow>
             if isLocal f (dn_IP d) then kernel_verdict f family ''input'' (rewritten f pkt d) RAccept
             else snd (forwarding (f_Host f) (pa_Iface c) family) \<and>
               (\<exists>out. ifaceFor f (dn_IP d) = Some out \<and>
                  kernel_verdict f family ''forward'' (leaving f out (rewritten f pkt d)) RAccept)))"

lemma admitted_kernel:
  assumes "goto_in_base_only (f_Ruleset f) family" and "admitted f zone ep family c"
  shows "kernel_admits f zone ep family c"
proof -
  let ?pkt = "synthetic_packet f zone ep family c"
  obtain pre hs where pre: "Traverse (f_Ruleset f) family ''prerouting'' ?pkt = Some (pre, hs)" "res_Kind pre = RAccept"
    and rest: "case res_DNAT pre of None \<Rightarrow> ep_Kind ep \<noteq> forwardKind \<and> accepts_at f family ''input'' ?pkt
      | Some d \<Rightarrow> sent_on f family c ?pkt d"
    using assms(2) by (auto simp: admitted_def Let_def)
  have "kernel_verdict f family ''prerouting'' ?pkt RAccept"
    by (rule Traverse_kernel_verdict [OF assms(1) pre]) simp
  with pre rest accepts_kernel [OF assms(1)] show ?thesis
    by (cases "res_DNAT pre") (auto simp: kernel_admits_def sent_on_def Let_def split: if_splits)
qed


section \<open>An open port\<close>

definition open_facts :: facts where
  "open_facts = (facts_of [])\<lparr>
     f_Host := (f_Host (facts_of []))\<lparr>h_Interfaces := [\<lparr>if_Name = ''eth0'', if_Index = 2, if_Up = True,
        if_Addresses = [\<lparr>ad_IP = ''203.0.113.10'', ad_Prefix = 24, ad_Family = ''ip'', ad_Scope = ''global''\<rparr>],
        if_IPv4Forwarding = False, if_IPv6Forwarding = False\<rparr>]\<rparr>,
     f_Sockets := [\<lparr>so_Family = ''ip'', so_Proto = ''tcp'', so_BindIP = ''0.0.0.0'', so_Port = 22,
        so_Inode = 1, so_UID = 0, so_PID = 7, so_Process = ''sshd'', so_Unit = [], so_Container = []\<rparr>]\<rparr>"

lemma public_ip: "ParseAddr ''203.0.113.10'' = Some (Addr4 0xcb00710a)"
  by (simp add: ParseAddr_def parse_v4_def parse_v4_fields_def parse_octet_def parse_uint_def
      digit_value_def bytes_word_def be_nat_def)

lemma no_tables: "rs_Tables rs = [] \<Longrightarrow> Traverse rs family hook pkt = Some (res RAccept [], [])"
  by (simp add: Traverse_def ingressUnmodelled_def traverse_with_def res_def)

lemma open_endpoints: "endpoints rev open_facts = Some [socket_endpoint (hd (f_Sockets open_facts))]"
  by (simp add: endpoints_def forwards_def fwd_bases_def open_facts_def facts_of_def local_endpoints_def put_def)

lemma open_row:
  obtains vs v where "Evaluate rev open_facts InternetZone = Some vs" and "v \<in> set vs" and "v_Family v = ''ip''"
    and "v_Endpoint v = socket_endpoint (hd (f_Sockets open_facts))"
proof -
  let ?ep = "socket_endpoint (hd (f_Sockets open_facts))"
  have "wf_ruleset (f_Ruleset open_facts)" by (simp add: wf_ruleset_def open_facts_def facts_of_def)
  then obtain vs where vs: "Evaluate rev open_facts InternetZone = Some vs" using Evaluate_total by blast
  have fam: "''ip'' \<in> served open_facts [?ep] ?ep"
    by (simp add: served_def familiesFor_def open_facts_def facts_of_def socket_endpoint_def)
  have ep: "?ep \<in> set [?ep]" by simp
  obtain v where "evaluate_family open_facts InternetZone ?ep ''ip'' = Some v" "v \<in> set vs"
    using Evaluate_rows_mem [OF vs open_endpoints] ep fam by blast
  with that vs evaluate_family_row show ?thesis by blast
qed

lemma open_addrs: "publicAddrs open_facts ''ip'' = [\<lparr>pa_IP = Addr4 0xcb00710a, pa_Iface = ''eth0''\<rparr>]"
  by (simp add: publicAddrs_def open_facts_def facts_of_def public_ip)

lemma open_admitted:
  "admitted open_facts InternetZone (socket_endpoint (hd (f_Sockets open_facts))) ''ip'' c"
  by (simp add: admitted_def accepts_at_def no_tables open_facts_def facts_of_def res_def socket_endpoint_def forwardKind_def)

theorem reachable_iff_witness:
  "\<exists>vs v. Evaluate rev open_facts InternetZone = Some vs \<and> v \<in> set vs \<and> v_Result v = ''reachable''"
proof (rule open_row)
  fix vs v
  assume v: "Evaluate rev open_facts InternetZone = Some vs" "v \<in> set vs" "v_Family v = ''ip''"
    "v_Endpoint v = socket_endpoint (hd (f_Sockets open_facts))"
  have "bindCovers (ep_BindIP (v_Endpoint v)) a" for a
    by (simp add: bindCovers_def v(4) socket_endpoint_def open_facts_def)
  then have "v_Result v = ''reachable''"
    using v(3,4) open_admitted open_addrs
    by (simp add: reachable_iff [OF v(1,2)]) (simp add: open_facts_def facts_of_def)
  with v show ?thesis by blast
qed


text \<open>The same host behind an input chain that drops.\<close>

definition drop_chain :: chain where
  "drop_chain = \<lparr>ch_Name = ''input'', ch_Base = True, ch_Hook = ''input'', ch_Priority = 0,
     ch_Devices = [], ch_Policy = ''drop'', ch_Rules = []\<rparr>"

definition closed_facts :: facts where
  "closed_facts = open_facts\<lparr>f_Ruleset := \<lparr>rs_Tables = [\<lparr>t_Family = ''ip'', t_Name = ''filter'',
     t_Chains = [drop_chain], t_Sets = []\<rparr>], rs_ReadFailed = False\<rparr>\<rparr>"

lemma closed_traverse:
  "Traverse (f_Ruleset closed_facts) ''ip'' ''prerouting'' pkt = Some (res RAccept [], [])"
  "\<exists>r. Traverse (f_Ruleset closed_facts) ''ip'' ''input'' pkt = Some (r, []) \<and> res_Kind r = RDrop"
  by (simp_all add: Traverse_def ingressUnmodelled_def traverse_with_def res_def closed_facts_def
      drop_chain_def knownHooks_def walk_chain.simps fallthrough_def basePolicyResult_def)

lemma closed_refused:
  "refused closed_facts InternetZone (socket_endpoint (hd (f_Sockets open_facts))) ''ip'' c"
  using closed_traverse(2) by (auto simp: refused_def drops_at_def closed_traverse(1) res_def Let_def)

lemma closed_endpoints: "endpoints rev closed_facts = Some [socket_endpoint (hd (f_Sockets open_facts))]"
  using open_endpoints
  by (simp add: endpoints_def forwards_def fwd_bases_def closed_facts_def local_endpoints_def open_facts_def
      facts_of_def drop_chain_def tableFamilies_def put_def)

theorem filtered_iff_witness:
  "\<exists>vs v. Evaluate rev closed_facts InternetZone = Some vs \<and> v \<in> set vs \<and> v_Result v = ''filtered''"
proof -
  let ?ep = "socket_endpoint (hd (f_Sockets open_facts))"
  have "wf_ruleset (f_Ruleset closed_facts)"
    by (simp add: wf_ruleset_def closed_facts_def wf_chain_def drop_chain_def)
  then obtain vs where vs: "Evaluate rev closed_facts InternetZone = Some vs" using Evaluate_total by blast
  have fam: "''ip'' \<in> served closed_facts [?ep] ?ep"
    by (simp add: served_def familiesFor_def open_facts_def facts_of_def socket_endpoint_def)
  have ep: "?ep \<in> set [?ep]" by simp
  obtain v where v: "evaluate_family closed_facts InternetZone ?ep ''ip'' = Some v" "v \<in> set vs"
    using Evaluate_rows_mem [OF vs closed_endpoints] ep fam by blast
  have "publicAddrs closed_facts ''ip'' \<noteq> []"
    using open_addrs by (simp add: publicAddrs_def closed_facts_def)
  moreover have "v_Endpoint v = ?ep" "v_Family v = ''ip''" using evaluate_family_row [OF v(1)] by simp_all
  ultimately have "v_Result v = ''filtered''"
    using closed_refused by (simp add: filtered_iff [OF vs v(2)]) (simp add: closed_facts_def)
  with vs v show ?thesis by blast
qed

end
