(* ===== verification/Policy.thy ===== *)
theory Policy
  imports Evaluate
begin

text \<open>
  Policies (\<open>internal/policy\<close>): reading a policy file (\<open>policy.go\<close>), seeding one from a
  verdict set and writing it (\<open>init.go\<close>), and checking a verdict set against it
  (\<open>check.go\<close>). The YAML decoder is a parameter of \<open>Load\<close>, and so is \<open>fmt.Sprint\<close> on
  the values it delivers; Go's map of zones is the list of its entries in the order the
  loop meets them. A result or an error is a sum, \<open>Inl\<close> the error's text.
\<close>

section \<open>Entries\<close>

text \<open>\<open>Version\<close> and \<open>zoneName\<close>.\<close>

definition PolicyVersion :: int where
  "PolicyVersion = 1"

definition zoneName :: string where
  "zoneName = ''internet''"

datatype entry = Entry (en_Port: u16) (en_Proto: string)

definition Entry_String :: "entry \<Rightarrow> string" where
  "Entry_String e = itoa (unat (en_Port e)) @ ''/'' @ en_Proto e"

instantiation entry :: linorder
begin

definition less_eq_entry :: "entry \<Rightarrow> entry \<Rightarrow> bool" where
  "less_eq_entry a b \<longleftrightarrow> (en_Port a, en_Proto a) \<le> (en_Port b, en_Proto b)"

definition less_entry :: "entry \<Rightarrow> entry \<Rightarrow> bool" where
  "less_entry a b \<longleftrightarrow> (en_Port a, en_Proto a) < (en_Port b, en_Proto b)"

instance
proof
  fix a b c :: entry
  show "a < b \<longleftrightarrow> a \<le> b \<and> \<not> b \<le> a" by (simp add: less_entry_def less_eq_entry_def less_le_not_le)
  show "a \<le> a" by (simp add: less_eq_entry_def)
  show "a \<le> b \<Longrightarrow> b \<le> c \<Longrightarrow> a \<le> c" unfolding less_eq_entry_def by (rule order_trans)
  show "a \<le> b \<Longrightarrow> b \<le> a \<Longrightarrow> a = b"
    unfolding less_eq_entry_def by (cases a; cases b) (auto dest: order_antisym)
  show "a \<le> b \<or> b \<le> a" unfolding less_eq_entry_def by (rule linear)
qed

end

definition entry_less :: "entry \<Rightarrow> entry \<Rightarrow> bool" where
  "entry_less a b =
     (if en_Port a \<noteq> en_Port b then en_Port a < en_Port b else en_Proto a < en_Proto b)"

definition sortEntries :: "entry list \<Rightarrow> entry list" where
  "sortEntries es = slice_stable entry_less es"

definition parseEntry :: "string \<Rightarrow> string + entry" where
  "parseEntry s =
     (case cut (CHR ''/'') s of
        None \<Rightarrow> Inl (''allow entry '' @ quote s @ '': want PORT/PROTO, for example 22/tcp'')
      | Some (port, proto) \<Rightarrow>
          if proto \<noteq> ''tcp'' \<and> proto \<noteq> ''udp'' then
            Inl (''allow entry '' @ quote s @ '': whyopen models tcp and udp, not '' @ quote proto)
          else
            case parse_uint 10 16 port of
              None \<Rightarrow> Inl (''allow entry '' @ quote s @ '': '' @ quote port @ '' is not a port between 1 and 65535'')
            | Some n \<Rightarrow>
                if n = 0 then
                  Inl (''allow entry '' @ quote s @ '': '' @ quote port @ '' is not a port between 1 and 65535'')
                else Inr (Entry (of_nat n) proto))"

section \<open>Reading a policy file\<close>

record policy =
  po_Allow :: "entry list"
  po_FailOnUnknown :: bool

record 'v zone_doc =
  zd_Allow :: "'v list"

record 'v document =
  doc_Version :: "int option"
  doc_Zones :: "(string \<times> 'v zone_doc) list"
  doc_FailOnUnknown :: bool

text \<open>The two nested loops; \<open>seen\<close> holds exactly the entries already appended.\<close>

fun load_allow :: "('v \<Rightarrow> string) \<Rightarrow> 'v list \<Rightarrow> entry list \<Rightarrow> string + entry list" where
  "load_allow sprint [] allow = Inr allow"
| "load_allow sprint (raw # raws) allow =
     (case parseEntry (sprint raw) of
        Inl err \<Rightarrow> Inl err
      | Inr e \<Rightarrow> load_allow sprint raws (if e \<in> set allow then allow else allow @ [e]))"

fun load_zones :: "('v \<Rightarrow> string) \<Rightarrow> (string \<times> 'v zone_doc) list \<Rightarrow> entry list \<Rightarrow> string + entry list" where
  "load_zones sprint [] allow = Inr allow"
| "load_zones sprint ((name, z) # zs) allow =
     (if name \<noteq> zoneName then
        Inl (''policy names zone '' @ quote name @ '', but this build models only '' @ quote zoneName)
      else
        case load_allow sprint (zd_Allow z) allow of
          Inl err \<Rightarrow> Inl err
        | Inr allow' \<Rightarrow> load_zones sprint zs allow')"

definition Load :: "(string \<Rightarrow> string + 'v document) \<Rightarrow> ('v \<Rightarrow> string) \<Rightarrow> string + string \<Rightarrow> string + policy" where
  "Load unmarshal sprint input =
     (case input of
        Inl err \<Rightarrow> Inl err
      | Inr b \<Rightarrow>
          (case unmarshal b of
             Inl err \<Rightarrow> Inl err
           | Inr doc \<Rightarrow>
               (case doc_Version doc of
                  None \<Rightarrow> Inl (''policy file has no version key; this build understands version '' @ itoa_int PolicyVersion)
                | Some v \<Rightarrow>
                    if v \<noteq> PolicyVersion then
                      Inl (''policy version '' @ itoa_int v @ '', this build understands '' @ itoa_int PolicyVersion)
                    else
                      case load_zones sprint (doc_Zones doc) [] of
                        Inl err \<Rightarrow> Inl err
                      | Inr allow \<Rightarrow>
                          Inr \<lparr>po_Allow = sortEntries allow, po_FailOnUnknown = doc_FailOnUnknown doc\<rparr>)))"

section \<open>Seeding a policy\<close>

definition entry_of :: "verdict \<Rightarrow> entry" where
  "entry_of v = Entry (ep_Port (v_Endpoint v)) (ep_Proto (v_Endpoint v))"

text \<open>The loop of \<open>Init\<close>: the maps \<open>inAllow\<close> and \<open>inUnknown\<close> hold the entries of the two lists.\<close>

fun init_loop :: "verdict list \<Rightarrow> entry list \<Rightarrow> entry list \<Rightarrow> entry list \<times> entry list" where
  "init_loop [] allow unknown = (allow, unknown)"
| "init_loop (v # vs) allow unknown =
     (let e = entry_of v in
      if v_Result v = ''reachable'' then
        init_loop vs (if e \<notin> set allow then allow @ [e] else allow) unknown
      else if v_Result v = ''unknown'' then
        init_loop vs allow (if e \<notin> set unknown then unknown @ [e] else unknown)
      else init_loop vs allow unknown)"

definition Init :: "verdict list \<Rightarrow> policy \<times> entry list" where
  "Init vs =
     (let (allow, unknown) = init_loop vs [] [] in
      (\<lparr>po_Allow = sortEntries allow, po_FailOnUnknown = True\<rparr>, sortEntries unknown))"

section \<open>Writing a policy\<close>

definition commentWidth :: nat where
  "commentWidth = 70"

text \<open>The loop of \<open>wrapComment\<close>: the lines so far and the line being filled.\<close>

definition wrap_step :: "string \<Rightarrow> string list \<times> string \<Rightarrow> string list \<times> string" where
  "wrap_step word s =
     (let (ls, line) = s in
      if line = [] then (ls, word)
      else if length line + 1 + length word \<le> commentWidth then (ls, line @ '' '' @ word)
      else (ls @ [line], word))"

definition wrapComment :: "string \<Rightarrow> string list" where
  "wrapComment msg =
     (let (ls, line) = fold wrap_step (Go_Lib.fields msg) ([], []) in
      if line \<noteq> [] then ls @ [line] else ls)"

definition newline :: string where
  "newline = [CHR 0x0A]"

definition Marshal :: "policy \<Rightarrow> entry list \<Rightarrow> warning list \<Rightarrow> string" where
  "Marshal p unknown unreadable =
     ''# whyopen policy, generated by `whyopen policy init`.'' @ newline @
     ''# Every port reachable from the internet and not listed below is a'' @ newline @
     ''# violation, and `whyopen check --policy` exits 1 on one. A listed port'' @ newline @
     ''# that is not reachable is reported, but does not fail the run.'' @ newline @
     ''version: '' @ itoa_int PolicyVersion @ newline @
     ''zones:'' @ newline @ ''  '' @ zoneName @ '':'' @ newline @ ''    allow:'' @
     (if length (po_Allow p) = 0 then '' []'' @ newline
      else newline @ concat (map (\<lambda>e. ''      - '' @ Entry_String e @ newline) (po_Allow p))) @
     (if length unknown > 0 then
        newline @ ''# whyopen could not resolve these ports when this file was written:'' @ newline @
        concat (map (\<lambda>e. ''#   '' @ Entry_String e @ newline) unknown) @
        ''# They are deliberately not allowed above: whyopen does not know whether'' @ newline @
        ''# they are open, and an allow list is for ports you decided to open.'' @ newline
      else []) @
     (if length unreadable > 0 then
        newline @ ''# whyopen also found rewrites whose forwarded ports it could not name:'' @ newline @
        concat (map (\<lambda>w. concat (map (\<lambda>line. ''#   '' @ line @ newline) (wrapComment (w_Message w)))) unreadable) @
        ''# No entry above covers those, and none can: they name no port. They'' @ newline @
        ''# are exposure this file cannot describe, which is what the setting'' @ newline @
        ''# below is for.'' @ newline
      else []) @
     newline @ ''# With this set, check exits 2 while any port is unresolved. Turning it'' @ newline @
     ''# off makes the run green without making the host any more understood.'' @ newline @
     ''fail_on_unknown: '' @ (if po_FailOnUnknown p then ''true'' else ''false'') @ newline"

section \<open>Checking\<close>

record stale =
  sl_Entry :: entry
  sl_Found :: string

record check_result =
  cr_Violations :: "verdict list"
  cr_Stale :: "stale list"
  cr_Unknown :: "verdict list"
  cr_Unreadable :: "warning list"
  cr_FailOnUnknown :: bool

text \<open>The first loop of \<open>Check\<close>; \<open>seen\<close> holds the results each port was seen with.\<close>

fun check_verdicts :: "entry list \<Rightarrow> verdict list \<Rightarrow> (entry \<times> string) list \<Rightarrow> check_result
    \<Rightarrow> (entry \<times> string) list \<times> check_result" where
  "check_verdicts allowed [] seen r = (seen, r)"
| "check_verdicts allowed (v # vs) seen r =
     (let e = entry_of v; seen' = (e, v_Result v) # seen in
      if v_Result v = ''reachable'' then
        check_verdicts allowed vs seen'
          (if e \<notin> set allowed then r\<lparr>cr_Violations := cr_Violations r @ [v]\<rparr> else r)
      else if v_Result v = ''unknown'' then
        check_verdicts allowed vs seen' (r\<lparr>cr_Unknown := cr_Unknown r @ [v]\<rparr>)
      else check_verdicts allowed vs seen' r)"

fun check_stale :: "(entry \<times> string) list \<Rightarrow> entry list \<Rightarrow> stale list" where
  "check_stale seen [] = []"
| "check_stale seen (e # es) =
     (if (e, ''reachable'') \<in> set seen \<or> (e, ''unknown'') \<in> set seen then check_stale seen es
      else \<lparr>sl_Entry = e, sl_Found = (if (e, ''filtered'') \<in> set seen then ''filtered'' else [])\<rparr>
        # check_stale seen es)"

definition Check :: "policy \<Rightarrow> verdict list \<Rightarrow> warning list \<Rightarrow> check_result" where
  "Check p vs unreadable =
     (let (seen, r) = check_verdicts (po_Allow p) vs []
        \<lparr>cr_Violations = [], cr_Stale = [], cr_Unknown = [], cr_Unreadable = unreadable,
         cr_FailOnUnknown = po_FailOnUnknown p\<rparr> in
      r\<lparr>cr_Stale := check_stale seen (po_Allow p)\<rparr>)"

section \<open>The order of entries\<close>

interpretation entries: key_less "\<lambda>e :: entry. e" entry_less
  by unfold_locales (auto simp: entry_less_def less_entry_def less_prod_def)

end
