(* ===== verification/Policy_Specs.thy ===== *)
theory Policy_Specs
  imports Policy Evaluate_Specs
begin

text \<open>
  What a policy run concludes: which verdicts violate, which entries are stale, that a
  policy seeded from a verdict set passes it and blames later runs for new exposure only,
  and which texts are entries at all.
\<close>

section \<open>Checking\<close>

definition is_result :: "string \<Rightarrow> verdict \<Rightarrow> bool" where
  "is_result k v \<longleftrightarrow> v_Result v = k"

definition seen_as :: "verdict list \<Rightarrow> entry \<Rightarrow> string \<Rightarrow> bool" where
  "seen_as vs e k \<longleftrightarrow> (\<exists>v \<in> set vs. entry_of v = e \<and> v_Result v = k)"

lemma check_verdicts_spec:
  "check_verdicts allowed vs seen r =
     (rev (map (\<lambda>v. (entry_of v, v_Result v)) vs) @ seen,
      r\<lparr>cr_Violations := cr_Violations r @ filter (\<lambda>v. is_result ''reachable'' v \<and> entry_of v \<notin> set allowed) vs,
        cr_Unknown := cr_Unknown r @ filter (is_result ''unknown'') vs\<rparr>)"
  by (induction vs arbitrary: seen r) (simp_all add: Let_def is_result_def)

lemma check_stale_spec:
  "check_stale seen es =
     map (\<lambda>e. \<lparr>sl_Entry = e, sl_Found = (if (e, ''filtered'') \<in> set seen then ''filtered'' else [])\<rparr>)
       (filter (\<lambda>e. (e, ''reachable'') \<notin> set seen \<and> (e, ''unknown'') \<notin> set seen) es)"
  by (induction es) simp_all

text \<open>A verdict violates exactly when it is reachable and its port is not allowed,
  whatever its family; unknown verdicts are set apart; an entry is stale exactly when no verdict of
  its port is reachable or unknown, and is then said to be filtered or not found. The order of the
  verdicts and of the entries is kept.\<close>

lemma Check_fields:
  "Check p vs unreadable =
     \<lparr>cr_Violations = filter (\<lambda>v. v_Result v = ''reachable'' \<and> entry_of v \<notin> set (po_Allow p)) vs,
      cr_Stale = map (\<lambda>e. \<lparr>sl_Entry = e, sl_Found = (if seen_as vs e ''filtered'' then ''filtered'' else [])\<rparr>)
        (filter (\<lambda>e. \<not> seen_as vs e ''reachable'' \<and> \<not> seen_as vs e ''unknown'') (po_Allow p)),
      cr_Unknown = filter (\<lambda>v. v_Result v = ''unknown'') vs,
      cr_Unreadable = unreadable, cr_FailOnUnknown = po_FailOnUnknown p\<rparr>"
proof -
  let ?seen = "rev (map (\<lambda>v. (entry_of v, v_Result v)) vs)"
  have "(e, k) \<in> set ?seen \<longleftrightarrow> seen_as vs e k" for e k
    by (auto simp: seen_as_def)
  then show ?thesis
    by (simp add: Check_def check_verdicts_spec check_stale_spec is_result_def [abs_def])
qed

section \<open>Seeding\<close>

lemma seen_as_simps [simp]:
  "\<not> seen_as [] e k"
  "seen_as (v # vs) e k \<longleftrightarrow> (entry_of v = e \<and> v_Result v = k) \<or> seen_as vs e k"
  by (auto simp: seen_as_def)

lemma init_loop_spec:
  "init_loop vs allow unknown = (a, u) \<Longrightarrow>
   set a = set allow \<union> {e. seen_as vs e ''reachable''} \<and> set u = set unknown \<union> {e. seen_as vs e ''unknown''} \<and>
   (distinct allow \<longrightarrow> distinct a) \<and> (distinct unknown \<longrightarrow> distinct u)"
proof (induction vs arbitrary: allow unknown)
  case (Cons v vs)
  let ?e = "entry_of v"
  consider "v_Result v = ''reachable''" | "v_Result v = ''unknown''"
    | "v_Result v \<noteq> ''reachable''" "v_Result v \<noteq> ''unknown''" by blast
  then show ?case
  proof cases
    case 1
    with Cons.prems have "init_loop vs (if ?e \<notin> set allow then allow @ [?e] else allow) unknown = (a, u)"
      by (simp add: Let_def)
    from Cons.IH [OF this] 1 show ?thesis by (cases "?e \<in> set allow") auto
  next
    case 2
    with Cons.prems have "init_loop vs allow (if ?e \<notin> set unknown then unknown @ [?e] else unknown) = (a, u)"
      by (simp add: Let_def)
    from Cons.IH [OF this] 2 show ?thesis by (cases "?e \<in> set unknown") auto
  next
    case 3
    with Cons.prems have "init_loop vs allow unknown = (a, u)" by (simp add: Let_def)
    from Cons.IH [OF this] 3 show ?thesis by auto
  qed
qed simp

lemma Init_cases:
  obtains a u where "Init vs = (\<lparr>po_Allow = sortEntries a, po_FailOnUnknown = True\<rparr>, sortEntries u)"
    and "set a = {e. seen_as vs e ''reachable''}" and "set u = {e. seen_as vs e ''unknown''}"
    and "distinct a" and "distinct u"
proof -
  obtain a u where au: "init_loop vs [] [] = (a, u)" by fastforce
  from init_loop_spec [OF au] au that [of a u] show ?thesis by (simp add: Init_def)
qed

lemma sortEntries_facts [simp]:
  "set (sortEntries es) = set es" "distinct (sortEntries es) \<longleftrightarrow> distinct es" "sorted (sortEntries es)"
  using entries.sorted_keys [of es] mset_eq_imp_distinct_iff [of "slice_stable entry_less es" es]
  by (simp_all add: sortEntries_def)

lemma Init_entries:
  "set (po_Allow (fst (Init vs))) = {e. seen_as vs e ''reachable''}"
  "set (snd (Init vs)) = {e. seen_as vs e ''unknown''}"
  "distinct (po_Allow (fst (Init vs)))" "sorted (po_Allow (fst (Init vs)))"
  by (rule Init_cases [of vs], simp)+

text \<open>C22 (Init_then_Check): a policy seeded from a verdict set has no violation and no stale entry on that
  set; it allows the reachable ports and no others, the unresolved ones being listed apart; and on any later set it blames exactly the reachable
  ports that were not reachable when it was seeded.\<close>

theorem Init_then_Check:
  "cr_Violations (Check (fst (Init vs)) vs w) = [] \<and> cr_Stale (Check (fst (Init vs)) vs w) = [] \<and>
   set (po_Allow (fst (Init vs))) = {e. seen_as vs e ''reachable''} \<and>
   set (snd (Init vs)) = {e. seen_as vs e ''unknown''} \<and>
   cr_Violations (Check (fst (Init vs)) later w) =
     filter (\<lambda>v. v_Result v = ''reachable'' \<and> \<not> seen_as vs (entry_of v) ''reachable'') later"
  by (auto simp: Check_fields Init_entries seen_as_def filter_empty_conv)

section \<open>Entries\<close>

definition entry_ok :: "entry \<Rightarrow> bool" where
  "entry_ok e \<longleftrightarrow> en_Port e \<noteq> 0 \<and> en_Proto e \<in> {''tcp'', ''udp''}"

lemma parseEntry_ok: "parseEntry s = Inr e \<Longrightarrow> entry_ok e"
proof -
  assume "parseEntry s = Inr e"
  then obtain port n where n: "parse_uint 10 16 port = Some n" "n \<noteq> 0" "en_Port e = of_nat n"
    and proto: "en_Proto e \<in> {''tcp'', ''udp''}"
    by (auto simp: parseEntry_def split: option.splits if_splits)
  have "n < 2 ^ 16" using n(1) by (rule parse_uint_bound)
  then have "unat (of_nat n :: u16) = n" by (simp add: unsigned_of_nat take_bit_nat_eq_self)
  with n(2,3) have "en_Port e \<noteq> 0" by (metis unat_0)
  with proto show ?thesis by (simp add: entry_ok_def)
qed

lemma parseEntry_String_ok: "entry_ok e \<Longrightarrow> parseEntry (Entry_String e) = Inr e"
proof -
  assume ok: "entry_ok e"
  have "cut (CHR ''/'') (Entry_String e) = Some (itoa (unat (en_Port e)), en_Proto e)"
    using cut_append [OF itoa_no_slash] by (simp add: Entry_String_def)
  moreover have "parse_uint 10 16 (itoa (unat (en_Port e))) = Some (unat (en_Port e))"
    using unat_u16 [of "en_Port e"] by (simp add: parse_uint_itoa)
  ultimately show ?thesis
    using ok by (cases e) (auto simp: parseEntry_def entry_ok_def unat_gt_0)
qed

text \<open>Supporting (parseEntry_roundtrip): an entry is accepted back from its own text exactly when its port is not 0
  and its protocol is tcp or udp, and only such entries are ever read.\<close>

theorem parseEntry_roundtrip:
  "(parseEntry (Entry_String e) = Inr e \<longleftrightarrow> entry_ok e) \<and> (parseEntry s \<in> Inr ` {e. entry_ok e} \<union> range Inl)"
proof
  show "parseEntry (Entry_String e) = Inr e \<longleftrightarrow> entry_ok e"
    using parseEntry_ok parseEntry_String_ok by blast
  show "parseEntry s \<in> Inr ` {e. entry_ok e} \<union> range Inl"
    using parseEntry_ok by (cases "parseEntry s") auto
qed

section \<open>Loading\<close>

lemma load_allow_spec:
  "load_allow sprint raws allow = Inr a \<Longrightarrow>
   (\<forall>raw \<in> set raws. \<exists>e. parseEntry (sprint raw) = Inr e) \<and>
   set a = set allow \<union> {e. \<exists>raw \<in> set raws. parseEntry (sprint raw) = Inr e} \<and>
   (distinct allow \<longrightarrow> distinct a)"
proof (induction raws arbitrary: allow)
  case (Cons raw raws)
  then obtain e where e: "parseEntry (sprint raw) = Inr e"
    by (cases "parseEntry (sprint raw)") auto
  with Cons.prems have "load_allow sprint raws (if e \<in> set allow then allow else allow @ [e]) = Inr a" by simp
  from Cons.IH [OF this] e show ?case by auto
qed simp

lemma load_zones_spec:
  "load_zones sprint zs allow = Inr a \<Longrightarrow>
   fst ` set zs \<subseteq> {zoneName} \<and>
   set a = set allow \<union> {e. \<exists>z \<in> set zs. \<exists>raw \<in> set (zd_Allow (snd z)). parseEntry (sprint raw) = Inr e} \<and>
   (distinct allow \<longrightarrow> distinct a)"
proof (induction zs arbitrary: allow)
  case (Cons z zs)
  obtain name zd where z: "z = (name, zd)" by (cases z)
  with Cons.prems obtain allow' where "name = zoneName" and allow': "load_allow sprint (zd_Allow zd) allow = Inr allow'"
    and rest: "load_zones sprint zs allow' = Inr a"
    by (auto split: if_splits sum.splits)
  with load_allow_spec [OF allow'] Cons.IH [OF rest] z show ?case by auto
qed simp

text \<open>Supporting (Load_policy): a policy that loads is of this build's version and names no zone but the internet;
  its entries are sorted, distinct and valid, and are exactly those the file lists.\<close>

theorem Load_policy:
  assumes "Load unmarshal sprint (Inr b) = Inr p"
  shows "\<exists>doc. unmarshal b = Inr doc \<and> doc_Version doc = Some PolicyVersion \<and>
    fst ` set (doc_Zones doc) \<subseteq> {zoneName} \<and>
    sorted (po_Allow p) \<and> distinct (po_Allow p) \<and> (\<forall>e \<in> set (po_Allow p). entry_ok e) \<and>
    set (po_Allow p) = {e. \<exists>z \<in> set (doc_Zones doc). \<exists>raw \<in> set (zd_Allow (snd z)). parseEntry (sprint raw) = Inr e} \<and>
    po_FailOnUnknown p = doc_FailOnUnknown doc"
proof -
  obtain doc where doc: "unmarshal b = Inr doc" using assms by (cases "unmarshal b") (auto simp: Load_def)
  with assms obtain allow where v: "doc_Version doc = Some PolicyVersion"
    and zones: "load_zones sprint (doc_Zones doc) [] = Inr allow"
    and p: "p = \<lparr>po_Allow = sortEntries allow, po_FailOnUnknown = doc_FailOnUnknown doc\<rparr>"
    by (auto simp: Load_def split: option.splits if_splits sum.splits)
  from load_zones_spec [OF zones] doc v p show ?thesis
    using parseEntry_ok by (intro exI [of _ doc] conjI) auto
qed

theorem Load_policy_witness:
  "\<exists>p. Load (\<lambda>_. Inr \<lparr>doc_Version = Some 1, doc_Zones = [(''internet'', \<lparr>zd_Allow = [''443/tcp'', ''22/tcp'', ''443/tcp'']\<rparr>)],
       doc_FailOnUnknown = True\<rparr>) (\<lambda>x. x) (Inr []) = Inr p \<and> po_Allow p = [Entry 22 ''tcp'', Entry 443 ''tcp'']"
proof -
  let ?unmarshal = "\<lambda>_ :: string. Inr \<lparr>doc_Version = Some 1, doc_Zones = [(''internet'', \<lparr>zd_Allow = [''443/tcp'', ''22/tcp'', ''443/tcp'']\<rparr>)],
       doc_FailOnUnknown = True\<rparr> :: string + string document"
  have e: "parseEntry ''443/tcp'' = Inr (Entry 443 ''tcp'')" "parseEntry ''22/tcp'' = Inr (Entry 22 ''tcp'')"
    by (simp_all add: parseEntry_def parse_uint_def digit_value_def)
  then have l: "Load ?unmarshal (\<lambda>x. x) (Inr []) =
      Inr \<lparr>po_Allow = [Entry 22 ''tcp'', Entry 443 ''tcp''], po_FailOnUnknown = True\<rparr>"
    by (simp add: Load_def PolicyVersion_def zoneName_def sortEntries_def entry_less_def)
  from Load_policy [OF l] l show ?thesis by simp
qed

section \<open>From a verdict set to a file and back\<close>

lemma load_allow_texts:
  "\<forall>e \<in> set es. entry_ok e \<Longrightarrow> distinct (acc @ es) \<Longrightarrow>
   load_allow (\<lambda>x. x) (map Entry_String es) acc = Inr (acc @ es)"
  by (induction es arbitrary: acc) (simp_all add: parseEntry_String_ok)

lemma sortEntries_id: "sorted es \<Longrightarrow> sortEntries es = es"
  unfolding sortEntries_def
  by (rule entries.slice_stable_id) (simp add: entries.less_key not_less)

lemma Init_fails: "po_FailOnUnknown (fst (Init vs))"
  by (simp add: Init_def case_prod_unfold Let_def)

text \<open>The entries of a seeded policy, as its file spells them, load as they are.\<close>

lemma seeded_entries:
  assumes "\<forall>v \<in> set vs. entry_ok (entry_of v)"
  shows "load_allow (\<lambda>x. x) (map Entry_String (po_Allow (fst (Init vs)))) [] = Inr (po_Allow (fst (Init vs)))"
    and "sortEntries (po_Allow (fst (Init vs))) = po_Allow (fst (Init vs))"
proof -
  have "\<forall>e \<in> set (po_Allow (fst (Init vs))). entry_ok e"
    using assms by (auto simp: Init_entries seen_as_def)
  with load_allow_texts [of "po_Allow (fst (Init vs))" "[]"]
  show "load_allow (\<lambda>x. x) (map Entry_String (po_Allow (fst (Init vs)))) [] = Inr (po_Allow (fst (Init vs)))"
    by (simp add: Init_entries)
  show "sortEntries (po_Allow (fst (Init vs))) = po_Allow (fst (Init vs))"
    by (simp add: sortEntries_id Init_entries)
qed

text \<open>Supporting (Init_Load_roundtrip): a policy seeded from verdicts on real tcp and udp ports and written out loads
  back as itself, where the YAML decoder returns the values the file spells out.\<close>

theorem Init_Load_roundtrip:
  assumes "Init vs = (p, unknown)" and "\<forall>v \<in> set vs. entry_ok (entry_of v)"
    and "unmarshal (Marshal p unknown w) =
      Inr \<lparr>doc_Version = Some 1, doc_Zones = [(''internet'', \<lparr>zd_Allow = map Entry_String (po_Allow p)\<rparr>)],
           doc_FailOnUnknown = po_FailOnUnknown p\<rparr>"
  shows "Load unmarshal (\<lambda>x. x) (Inr (Marshal p unknown w)) = Inr p"
  using seeded_entries [OF assms(2)] assms(1,3) by (simp add: Load_def PolicyVersion_def zoneName_def)

definition port_row :: "string \<Rightarrow> u16 \<Rightarrow> string \<Rightarrow> verdict" where
  "port_row proto port result = (verdict0 \<lparr>ep_Kind = ''publish'', ep_Family = ''ip'', ep_Proto = proto,
     ep_BindIP = ''0.0.0.0'', ep_Port = port, ep_Owner = ''web''\<rparr> ''ip'')\<lparr>v_Result := result\<rparr>"

lemma port_row_fields [simp]: "entry_of (port_row proto port result) = Entry port proto" "v_Result (port_row proto port result) = result"
  by (simp_all add: port_row_def entry_of_def verdict0_def)

theorem Init_Load_roundtrip_witness:
  "\<exists>unmarshal p. Init [port_row ''tcp'' 443 ''reachable''] = (p, []) \<and>
     Load unmarshal (\<lambda>x. x) (Inr (Marshal p [] [])) = Inr p"
proof -
  let ?p = "\<lparr>po_Allow = [Entry 443 ''tcp''], po_FailOnUnknown = True\<rparr>"
  have i: "Init [port_row ''tcp'' 443 ''reachable''] = (?p, [])"
    by (simp add: Init_def sortEntries_def)
  have "Load (\<lambda>_. Inr \<lparr>doc_Version = Some 1, doc_Zones = [(''internet'', \<lparr>zd_Allow = map Entry_String (po_Allow ?p)\<rparr>)],
           doc_FailOnUnknown = po_FailOnUnknown ?p\<rparr>) (\<lambda>x. x) (Inr (Marshal ?p [] [])) = Inr ?p"
    by (rule Init_Load_roundtrip [OF i]) (simp_all add: entry_ok_def)
  with i show ?thesis by blast
qed


section \<open>Wrapped comments\<close>

lemma join_snoc: "ws \<noteq> [] \<Longrightarrow> join sep (ws @ [w]) = join sep ws @ sep @ w"
proof (induction ws)
  case (Cons v ws)
  then show ?case by (cases ws) simp_all
qed simp

lemma join_nonempty: "ws \<noteq> [] \<Longrightarrow> [] \<notin> set ws \<Longrightarrow> join sep ws \<noteq> []"
  by (cases ws rule: remdups_adj.cases) auto

lemma fields_words: "w \<in> set (Go_Lib.fields s) \<Longrightarrow> w \<noteq> [] \<and> (\<forall>c \<in> set w. \<not> is_space c)"
proof (induction s rule: Go_Lib.fields.induct)
  case (1 s)
  let ?t = "dropWhile is_space s"
  show ?case
  proof (cases "?t = []")
    case True
    with 1 show ?thesis by (simp add: Go_Lib.fields.simps)
  next
    case False
    then have word: "takeWhile (\<lambda>c. \<not> is_space c) ?t \<noteq> []"
      by (metis hd_dropWhile takeWhile_eq_Nil_iff)
    have "Go_Lib.fields s = takeWhile (\<lambda>c. \<not> is_space c) ?t # Go_Lib.fields (dropWhile (\<lambda>c. \<not> is_space c) ?t)"
      using False by (subst Go_Lib.fields.simps) (simp add: Let_def)
    with "1.prems" consider "w = takeWhile (\<lambda>c. \<not> is_space c) ?t"
      | "w \<in> set (Go_Lib.fields (dropWhile (\<lambda>c. \<not> is_space c) ?t))" by auto
    then show ?thesis
    proof cases
      case 1
      with word show ?thesis by (auto dest: set_takeWhileD)
    next
      case 2
      with "1.IH" [OF refl False] show ?thesis by blast
    qed
  qed
qed

definition fits :: "string list \<Rightarrow> bool" where
  "fits ws \<longleftrightarrow> length (join '' '' ws) \<le> commentWidth \<or> length ws = 1"

definition wrapped :: "string list \<Rightarrow> string list \<times> string \<Rightarrow> bool" where
  "wrapped ws s \<longleftrightarrow> (\<exists>gs cur. s = (map (join '' '') gs, join '' '' cur) \<and> concat gs @ cur = ws \<and>
     list_all (\<lambda>g. g \<noteq> [] \<and> fits g) gs \<and> (cur = [] \<and> gs = [] \<or> cur \<noteq> [] \<and> fits cur))"

lemma wrap_step_wrapped:
  assumes "wrapped ws s" and "w \<noteq> []" and "[] \<notin> set ws"
  shows "wrapped (ws @ [w]) (wrap_step w s)"
proof -
  obtain gs cur where s: "s = (map (join '' '') gs, join '' '' cur)" and ws: "concat gs @ cur = ws"
    and gs: "list_all (\<lambda>g. g \<noteq> [] \<and> fits g) gs" and cur: "cur = [] \<and> gs = [] \<or> cur \<noteq> [] \<and> fits cur"
    using assms(1) by (auto simp: wrapped_def)
  show ?thesis
  proof (cases "cur = []")
    case True
    with s ws cur show ?thesis
      unfolding wrapped_def by (intro exI [of _ "[]"] exI [of _ "[w]"]) (simp add: wrap_step_def fits_def)
  next
    case False
    then have line: "join '' '' cur \<noteq> []" using join_nonempty assms(3) ws by auto
    show ?thesis
    proof (cases "length (join '' '' cur) + 1 + length w \<le> commentWidth")
      case True
      with False s ws gs line show ?thesis
        unfolding wrapped_def
        by (intro exI [of _ gs] exI [of _ "cur @ [w]"]) (simp add: wrap_step_def fits_def join_snoc flip: append_assoc)
    next
      case False
      with \<open>cur \<noteq> []\<close> s ws gs cur line show ?thesis
        unfolding wrapped_def
        by (intro exI [of _ "gs @ [cur]"] exI [of _ "[w]"]) (simp add: wrap_step_def fits_def flip: append_assoc)
    qed
  qed
qed

lemma fold_wrapped:
  "[] \<notin> set ws \<Longrightarrow> wrapped ws (fold wrap_step ws ([], []))"
proof (induction ws rule: rev_induct)
  case Nil
  then show ?case by (auto simp: wrapped_def)
next
  case (snoc w ws)
  then have ne: "[] \<notin> set ws" "w \<noteq> []" by auto
  then show ?case using wrap_step_wrapped [OF snoc.IH [OF ne(1)] ne(2,1)] by simp
qed

text \<open>Supporting (wrapComment_lines): the lines of a wrapped comment are the words of the message, all of them and in
  order, grouped and joined with single blanks; a line longer than the width is a single word; and no
  line holds white space other than those blanks, so none can break out of its comment.\<close>

theorem wrapComment_lines:
  "\<exists>gs. wrapComment msg = map (join '' '') gs \<and> concat gs = Go_Lib.fields msg \<and>
     list_all (\<lambda>g. g \<noteq> [] \<and> fits g \<and> list_all (\<lambda>w. w \<noteq> [] \<and> list_all (\<lambda>c. \<not> is_space c) w) g) gs"
proof -
  have words: "[] \<notin> set (Go_Lib.fields msg)" using fields_words by blast
  obtain gs cur where s: "fold wrap_step (Go_Lib.fields msg) ([], []) = (map (join '' '') gs, join '' '' cur)"
    and ws: "concat gs @ cur = Go_Lib.fields msg" and gs: "list_all (\<lambda>g. g \<noteq> [] \<and> fits g) gs"
    and cur: "cur = [] \<and> gs = [] \<or> cur \<noteq> [] \<and> fits cur"
    using fold_wrapped [OF words] by (auto simp: wrapped_def)
  let ?gs = "if cur = [] then [] else gs @ [cur]"
  have "join '' '' cur \<noteq> [] \<longleftrightarrow> cur \<noteq> []" using join_nonempty [of cur] words unfolding ws [symmetric] by auto
  then have w: "wrapComment msg = map (join '' '') ?gs"
    using s cur by (auto simp: wrapComment_def)
  have c: "concat ?gs = Go_Lib.fields msg" using ws cur by auto
  have "list_all (\<lambda>w. w \<noteq> [] \<and> list_all (\<lambda>c. \<not> is_space c) w) g" if "g \<in> set ?gs" for g
  proof -
    have "set g \<subseteq> set (Go_Lib.fields msg)" using that unfolding c [symmetric] by auto
    then show ?thesis using fields_words by (auto simp: list_all_iff)
  qed
  with gs cur w c show ?thesis
    by (intro exI [of _ ?gs]) (auto simp: list_all_iff)
qed

end
