(* ===== verification/Probe.thy ===== *)
theory Probe
  imports Evaluate
begin

text \<open>
  Probing (\<open>internal/probe\<close>): port lists and the run of a probe (\<open>probe.go\<close>), folding its
  answers into a verdict set (\<open>reconcile.go\<close>), asking another machine (\<open>remote.go\<close>), and
  the part of the command line around them (\<open>cmd/whyopen/probe.go\<close>). Dialling, running
  ssh and decoding its JSON answer are parameters. The goroutines of \<open>Run\<close> write to
  different elements of one slice; the order they finish in is a parameter too.
\<close>

section \<open>Port lists\<close>

definition maxPorts :: nat where
  "maxPorts = 4096"

definition parsePort :: "string \<Rightarrow> string + u16" where
  "parsePort s =
     (case parse_uint 10 16 (trim_space s) of
        None \<Rightarrow> Inl (quote (trim_space s) @ '' is not a port number between 1 and 65535'')
      | Some n \<Rightarrow> if n = 0 then Inl ''0 is not a port whyopen probes'' else Inr (of_nat n))"

text \<open>The closure \<open>add\<close>; \<open>seen\<close> holds exactly the ports of \<open>out\<close>.\<close>

definition add_port :: "u16 \<Rightarrow> u16 list \<Rightarrow> u16 list" where
  "add_port p out = (if p \<in> set out then out else out @ [p])"

definition port_spec_error :: "string \<Rightarrow> string \<Rightarrow> string" where
  "port_spec_error part err = ''port spec '' @ quote part @ '': '' @ err"

definition add_part :: "string \<Rightarrow> u16 list \<Rightarrow> string + u16 list" where
  "add_part raw out =
     (let part = trim_space raw;
          (lo, hi) = (case cut (CHR ''-'') part of None \<Rightarrow> (part, None) | Some (a, b) \<Rightarrow> (a, Some b)) in
      case parsePort lo of
        Inl err \<Rightarrow> Inl (port_spec_error part err)
      | Inr lo_port \<Rightarrow>
          (case hi of
             None \<Rightarrow> Inr (add_port lo_port out)
           | Some h \<Rightarrow>
               (case parsePort h of
                  Inl err \<Rightarrow> Inl (port_spec_error part err)
                | Inr hi_port \<Rightarrow>
                    if hi_port < lo_port then Inl (port_spec_error part ''the range ends below where it starts'')
                    else if unat hi_port - unat lo_port + 1 > maxPorts then
                      Inl (''port spec '' @ quote part @ '' covers more than '' @ itoa maxPorts @
                        '' ports, which is more than whyopen probes in one run'')
                    else Inr (fold (\<lambda>p. add_port (of_nat p)) [unat lo_port ..< Suc (unat hi_port)] out))))"

fun add_parts :: "string list \<Rightarrow> u16 list \<Rightarrow> string + u16 list" where
  "add_parts [] out = Inr out"
| "add_parts (part # parts) out =
     (case add_part part out of
        Inl err \<Rightarrow> Inl err
      | Inr out' \<Rightarrow> add_parts parts out')"

definition ParsePorts :: "string \<Rightarrow> string + u16 list" where
  "ParsePorts spec =
     (if trim_space spec = [] then Inl ''no ports given; want something like 22,80,8000-8100''
      else
        case add_parts (split (CHR '','') spec) [] of
          Inl err \<Rightarrow> Inl err
        | Inr out \<Rightarrow>
            if length out > maxPorts then
              Inl (itoa (length out) @ '' ports, which is more than the '' @ itoa maxPorts @ '' whyopen probes in one run'')
            else Inr (slice_stable (<) out))"

section \<open>Running a probe\<close>

datatype probe_state = StateOpen | StateClosed | StateFiltered | StateError | StateOther string

record probe_result =
  pr_Port :: u16
  pr_Proto :: string
  pr_State :: probe_state
  pr_Detail :: string

text \<open>What the model knows of a dialling error: the two tests made of it, and its text.\<close>

record dial_error =
  de_Refused :: bool
  de_Timeout :: bool
  de_Text :: string

definition probeOne :: "(string \<Rightarrow> u16 \<Rightarrow> dial_error option) \<Rightarrow> string \<Rightarrow> u16 \<Rightarrow> probe_result" where
  "probeOne dial target port =
     (let r = \<lparr>pr_Port = port, pr_Proto = ''tcp'', pr_State = StateOther [], pr_Detail = []\<rparr> in
      case dial target port of
        None \<Rightarrow> r\<lparr>pr_State := StateOpen\<rparr>
      | Some err \<Rightarrow>
          if de_Refused err then r\<lparr>pr_State := StateClosed\<rparr>
          else if de_Timeout err then r\<lparr>pr_State := StateFiltered\<rparr>
          else r\<lparr>pr_State := StateError, pr_Detail := de_Text err\<rparr>)"

definition zero_result :: probe_result where
  "zero_result = \<lparr>pr_Port = 0, pr_Proto = [], pr_State = StateOther [], pr_Detail = []\<rparr>"

definition Run :: "(string \<Rightarrow> u16 \<Rightarrow> dial_error option) \<Rightarrow> nat list \<Rightarrow> string \<Rightarrow> u16 list \<Rightarrow> probe_result list" where
  "Run dial order target ports =
     fold (\<lambda>i results. results[i := probeOne dial target (ports ! i)]) order (replicate (length ports) zero_result)"

section \<open>Reconciling\<close>

record disagreement =
  dg_Port :: u16
  dg_Proto :: string
  dg_Family :: string
  dg_Modelled :: string
  dg_Probed :: probe_state
  dg_Diagnosis :: string

definition probeWord :: "probe_state \<Rightarrow> string" where
  "probeWord s =
     (if s = StateOpen then ''open''
      else if s = StateClosed then ''refused, so something answered with a reset rather than dropping the packet''
      else ''filtered: nothing answered before the timeout'')"

definition diagnose :: "string \<Rightarrow> probe_state \<Rightarrow> string" where
  "diagnose modelled probed =
     (if probed = StateOpen then
        ''the port is open and whyopen read the ruleset as closing it, so the model is missing something: an interface, a hook or an expression it does not follow. Treat the port as open and the model as wrong''
      else if modelled = ''reachable'' then
        ''the ruleset on this host allows it, and nothing answered from where the probe ran, so something between the probe and this host stops it: a provider firewall, a cloud security group, an upstream NAT. Nothing on this host will show it''
      else ''the model and the probe disagree'')"

definition by_port :: "probe_result list \<Rightarrow> u16 \<rightharpoonup> probe_result" where
  "by_port rs =
     fold (\<lambda>r m. if pr_Proto r = ''tcp'' \<and> pr_State r \<noteq> StateError then m(pr_Port r \<mapsto> r) else m) rs Map.empty"

definition probed_row :: "string \<Rightarrow> verdict \<Rightarrow> bool" where
  "probed_row family v \<longleftrightarrow> ep_Proto (v_Endpoint v) = ''tcp'' \<and> v_Family v = family"

definition row_port :: "verdict \<Rightarrow> u16" where
  "row_port v = ep_Port (v_Endpoint v)"

definition sockets_on :: "verdict list \<Rightarrow> string \<Rightarrow> u16 \<Rightarrow> nat" where
  "sockets_on vs family port = length (filter (\<lambda>v. probed_row family v \<and> row_port v = port) vs)"

definition probe_verdict :: "probe_result \<Rightarrow> string" where
  "probe_verdict r = (if pr_State r = StateOpen then ''reachable'' else ''filtered'')"

definition probe_reason :: "verdict list \<Rightarrow> string \<Rightarrow> string \<Rightarrow> verdict \<Rightarrow> probe_result \<Rightarrow> string" where
  "probe_reason vs family target v r =
     ''probed '' @ target @ '':'' @ itoa (unat (row_port v)) @ '' and it is '' @ probeWord (pr_State r) @
     (if sockets_on vs family (row_port v) > 1 then
        '', though this port has several sockets and whyopen cannot tell which socket answered'' else [])"

text \<open>The loop over the verdicts: the rows rewritten so far, the disagreements, the ports that have one.\<close>

fun reconcile_loop :: "verdict list \<Rightarrow> (u16 \<rightharpoonup> probe_result) \<Rightarrow> string \<Rightarrow> string \<Rightarrow> verdict list \<Rightarrow> u16 list
    \<Rightarrow> verdict list \<times> disagreement list" where
  "reconcile_loop vs m family target [] seen = ([], [])"
| "reconcile_loop vs m family target (v # rest) seen =
     (if \<not> probed_row family v then
        (let (out, dis) = reconcile_loop vs m family target rest seen in (v # out, dis))
      else
        case m (row_port v) of
          None \<Rightarrow> (let (out, dis) = reconcile_loop vs m family target rest seen in (v # out, dis))
        | Some r \<Rightarrow>
            let result = probe_verdict r; reason = probe_reason vs family target v r in
            if v_Result v \<noteq> ''unknown'' \<and> v_Result v \<noteq> result then
              let v' = v\<lparr>v_Result := result,
                  v_Reason := reason @ '', but whyopen read the ruleset as '' @ v_Result v\<rparr>;
                  d = \<lparr>dg_Port = row_port v, dg_Proto = ''tcp'', dg_Family = family, dg_Modelled = v_Result v,
                       dg_Probed = pr_State r, dg_Diagnosis = diagnose (v_Result v) (pr_State r)\<rparr>;
                  new = row_port v \<notin> set seen;
                  (out, dis) = reconcile_loop vs m family target rest (if new then row_port v # seen else seen) in
              (v' # out, (if new then [d] else []) @ dis)
            else
              let (out, dis) = reconcile_loop vs m family target rest seen in
              (v\<lparr>v_Result := result, v_Reason := reason\<rparr> # out, dis))"

definition Reconcile :: "verdict list \<Rightarrow> probe_result list \<Rightarrow> string \<Rightarrow> string \<Rightarrow> verdict list \<times> disagreement list" where
  "Reconcile vs rs family target = reconcile_loop vs (by_port rs) family target vs []"

section \<open>Asking another machine\<close>

definition DocumentVersion :: int where
  "DocumentVersion = 1"

record probe_document =
  pd_SchemaVersion :: int
  pd_Target :: string
  pd_Results :: "probe_result list"

text \<open>The characters \<open>strings.ContainsAny\<close> looks for: blank, tab and the shell's own.\<close>

definition shell_chars :: "char list" where
  "shell_chars = [CHR '' '', CHR 0x09, CHR 0x27, CHR 0x22, CHR ''$'', CHR 0x60, CHR '';'', CHR ''&'', CHR ''|'',
     CHR ''<'', CHR ''>'', CHR ''('', CHR '')'', CHR 0x5C]"

definition ParseSSHTarget :: "string \<Rightarrow> string + string" where
  "ParseSSHTarget s =
     (if \<not> has_prefix s ''ssh://'' then Inl (''probe source '' @ quote s @ '': want ssh://[user@]host[:port]'')
      else
        let rest = drop 6 s in
        if rest = [] \<or> list_ex (\<lambda>c. c \<in> set shell_chars) rest then
          Inl (''probe source '' @ quote s @ '': not a host ssh would accept'')
        else Inr rest)"

definition remote_args :: "string \<Rightarrow> u16 list \<Rightarrow> string list" where
  "remote_args target ports =
     [''whyopen'', ''probe'', ''-target'', target, ''-ports'', join '','' (map (\<lambda>p. itoa (unat p)) ports), ''-json'']"

definition Remote :: "(string \<Rightarrow> string list \<Rightarrow> string + string) \<Rightarrow> (string \<Rightarrow> string + probe_document)
    \<Rightarrow> string \<Rightarrow> string \<Rightarrow> u16 list \<Rightarrow> string + probe_result list" where
  "Remote run unmarshal host target ports =
     (case ParseAddr target of
        None \<Rightarrow> Inl (''probe target '' @ quote target @ '' is not an IP address'')
      | Some ip \<Rightarrow>
          if length ports = 0 then Inr []
          else
            case run host (remote_args target ports) of
              Inl err \<Rightarrow> Inl (''probe from '' @ host @ '': '' @ err)
            | Inr out \<Rightarrow>
                (case unmarshal out of
                   Inl err \<Rightarrow> Inl (''probe from '' @ host @ '': could not read what it wrote back ('' @ err @
                     ''); is whyopen installed there?'')
                 | Inr doc \<Rightarrow>
                     if pd_SchemaVersion doc \<noteq> DocumentVersion then
                       Inl (''probe from '' @ host @ '': document version '' @ itoa_int (pd_SchemaVersion doc) @
                         '', this build reads '' @ itoa_int DocumentVersion)
                     else Inr (pd_Results doc)))"

section \<open>Probing this host\<close>

fun global_of :: "string \<Rightarrow> iface list \<Rightarrow> string option" where
  "global_of family [] = None"
| "global_of family (i # is) =
     (if \<not> if_Up i then global_of family is
      else
        case filter (\<lambda>a. ad_Family a = family \<and> ad_Scope a = ''global'') (if_Addresses i) of
          [] \<Rightarrow> global_of family is
        | a # _ \<Rightarrow> Some (ad_IP a))"

definition globalAddr :: "facts \<Rightarrow> string \<Rightarrow> string option" where
  "globalAddr f family = global_of family (h_Interfaces (f_Host f))"

fun tcp_ports :: "string \<Rightarrow> verdict list \<Rightarrow> u16 list \<Rightarrow> u16 list" where
  "tcp_ports family [] seen = []"
| "tcp_ports family (v # vs) seen =
     (if ep_Proto (v_Endpoint v) \<noteq> ''tcp'' \<or> v_Family v \<noteq> family \<or> row_port v \<in> set seen
      then tcp_ports family vs seen
      else row_port v # tcp_ports family vs (row_port v # seen))"

definition tcpPorts :: "verdict list \<Rightarrow> string \<Rightarrow> u16 list" where
  "tcpPorts vs family = tcp_ports family vs []"

text \<open>The loop over the two families, with the verdicts, the disagreements and the count of probes.\<close>

fun probe_families :: "(string \<Rightarrow> u16 list \<Rightarrow> string + probe_result list) \<Rightarrow> facts \<Rightarrow> string list
    \<Rightarrow> verdict list \<Rightarrow> disagreement list \<Rightarrow> nat \<Rightarrow> string + (verdict list \<times> disagreement list \<times> nat)" where
  "probe_families remote f [] vs all probed = Inr (vs, all, probed)"
| "probe_families remote f (family # fams) vs all probed =
     (case globalAddr f family of
        None \<Rightarrow> probe_families remote f fams vs all probed
      | Some ip \<Rightarrow>
          if length (tcpPorts vs family) = 0 then probe_families remote f fams vs all probed
          else
            case remote ip (tcpPorts vs family) of
              Inl err \<Rightarrow> Inl err
            | Inr rs \<Rightarrow>
                let (vs', dis) = Reconcile vs rs family ip in
                probe_families remote f fams vs' (all @ dis) (Suc probed))"

definition probeThisHost :: "(string \<Rightarrow> string list \<Rightarrow> string + string) \<Rightarrow> (string \<Rightarrow> string + probe_document)
    \<Rightarrow> string \<Rightarrow> facts \<Rightarrow> verdict list \<Rightarrow> string + (verdict list \<times> disagreement list)" where
  "probeThisHost run unmarshal source f vs =
     (case ParseSSHTarget source of
        Inl err \<Rightarrow> Inl err
      | Inr host \<Rightarrow>
          (case probe_families (Remote run unmarshal host) f [''ip'', ''ip6''] vs [] 0 of
             Inl err \<Rightarrow> Inl err
           | Inr (vs', all, probed) \<Rightarrow>
               if probed = 0 then
                 Inl ''nothing to probe: this host has no global address with a listening tcp port''
               else Inr (vs', all)))"

end
