(* ===== verification/Probe_Specs.thy ===== *)
theory Probe_Specs
  imports Probe Evaluate_Verdicts
begin

text \<open>
  What a probe sends packets to and what its answers do to a verdict set: the ports of a
  list, the same list after it travelled to another machine, the answers whatever order
  they came in, and the rows they change.
\<close>

section \<open>Port lists\<close>

interpretation ports: key_less "\<lambda>p :: u16. p" "(<)"
  by unfold_locales simp

lemma parsePort_nonzero: "parsePort s = Inr p \<Longrightarrow> p \<noteq> 0"
proof -
  assume "parsePort s = Inr p"
  then obtain n where n: "parse_uint 10 16 (trim_space s) = Some n" "n \<noteq> 0" "p = of_nat n"
    by (auto simp: parsePort_def split: option.splits if_splits)
  from parse_uint_bound [OF n(1)] have "unat p = n"
    by (simp add: n(3) unsigned_of_nat take_bit_nat_eq_self)
  with n(2) show ?thesis by auto
qed

lemma add_port_facts: "set (add_port p out) = insert p (set out)" "distinct out \<Longrightarrow> distinct (add_port p out)"
  by (auto simp: add_port_def)

lemma fold_add_port:
  "set (fold (\<lambda>p. add_port (of_nat p)) ns out) = of_nat ` set ns \<union> set out"
  "distinct out \<Longrightarrow> distinct (fold (\<lambda>p. add_port (of_nat p)) ns out)"
  by (induction ns arbitrary: out) (simp_all add: add_port_facts)

lemma port_range: "(of_nat :: nat \<Rightarrow> u16) ` set [unat lo ..< Suc (unat hi)] = {p. lo \<le> p \<and> p \<le> hi}"
proof (intro set_eqI iffI)
  fix p :: u16 assume "p \<in> of_nat ` set [unat lo ..< Suc (unat hi)]"
  then obtain n where n: "unat lo \<le> n" "n \<le> unat hi" "p = of_nat n" by auto
  then have "unat p = n" using unat_u16 [of hi] by (simp add: unsigned_of_nat take_bit_nat_eq_self)
  with n show "p \<in> {p. lo \<le> p \<and> p \<le> hi}" by (simp add: word_le_nat_alt)
next
  fix p :: u16 assume "p \<in> {p. lo \<le> p \<and> p \<le> hi}"
  then have "unat p \<in> set [unat lo ..< Suc (unat hi)]" by (auto simp: word_le_nat_alt)
  then show "p \<in> of_nat ` set [unat lo ..< Suc (unat hi)]" by (rule rev_image_eqI) simp
qed

text \<open>The ports one part of a list names: one port, or the ports of a range, its ends included.\<close>

definition part_names :: "string \<Rightarrow> u16 \<Rightarrow> bool" where
  "part_names raw p \<longleftrightarrow>
     (case cut (CHR ''-'') (trim_space raw) of
        None \<Rightarrow> parsePort (trim_space raw) = Inr p
      | Some (a, b) \<Rightarrow> \<exists>lo hi. parsePort a = Inr lo \<and> parsePort b = Inr hi \<and> lo \<le> p \<and> p \<le> hi)"

lemma add_part_spec:
  assumes "add_part raw out = Inr out'"
  shows "set out' = set out \<union> {p. part_names raw p} \<and> (distinct out \<longrightarrow> distinct out')"
proof (cases "cut (CHR ''-'') (trim_space raw)")
  case None
  with assms obtain p where p: "parsePort (trim_space raw) = Inr p" and out': "out' = add_port p out"
    by (auto simp: add_part_def Let_def split: sum.splits)
  have "{q. part_names raw q} = {p}" using None p by (auto simp: part_names_def)
  then show ?thesis unfolding out' using add_port_facts [where p = p and out = out] by simp
next
  case (Some ab)
  then obtain a b where ab: "cut (CHR ''-'') (trim_space raw) = Some (a, b)" by (cases ab) simp
  with assms obtain lo hi where lo: "parsePort a = Inr lo" and hi: "parsePort b = Inr hi"
    and out': "out' = fold (\<lambda>p. add_port (of_nat p)) [unat lo ..< Suc (unat hi)] out"
    by (auto simp: add_part_def Let_def split: sum.splits if_splits)
  have "{p. part_names raw p} = {p. lo \<le> p \<and> p \<le> hi}"
    using ab lo hi by (simp add: part_names_def)
  then have "set out' = {p. part_names raw p} \<union> set out"
    unfolding out' fold_add_port(1) port_range by (simp only:)
  moreover have "distinct out \<longrightarrow> distinct out'"
    unfolding out' using fold_add_port(2) by blast
  ultimately show ?thesis by blast
qed

lemma add_parts_spec:
  "add_parts parts out = Inr out' \<Longrightarrow>
   set out' = set out \<union> {p. \<exists>raw \<in> set parts. part_names raw p} \<and> (distinct out \<longrightarrow> distinct out')"
proof (induction parts arbitrary: out)
  case (Cons raw parts)
  then obtain mid where mid: "add_part raw out = Inr mid" "add_parts parts mid = Inr out'"
    by (auto split: sum.splits)
  from Cons.IH [OF mid(2)] add_part_spec [OF mid(1)] show ?case by auto
qed simp

lemma part_names_nonzero: "part_names raw p \<Longrightarrow> p \<noteq> 0"
  by (auto simp: part_names_def dest: parsePort_nonzero split: option.splits)

text \<open>C24 (ParsePorts_spec): an accepted port list holds exactly the ports its parts name, ascending and
  without repetition, never port 0, and never more than the bound of one run.\<close>

theorem ParsePorts_spec:
  assumes "ParsePorts spec = Inr ps"
  shows "sorted ps \<and> distinct ps \<and> length ps \<le> maxPorts \<and> 0 \<notin> set ps \<and>
    set ps = {p. \<exists>raw \<in> set (split (CHR '','') spec). part_names raw p}"
proof -
  obtain out where out: "add_parts (split (CHR '','') spec) [] = Inr out" "length out \<le> maxPorts"
    and ps: "ps = slice_stable (<) out"
    using assms by (auto simp: ParsePorts_def split: if_splits sum.splits)
  have "set ps = {p. \<exists>raw \<in> set (split (CHR '','') spec). part_names raw p}" "distinct out"
    using add_parts_spec [OF out(1)] by (simp_all add: ps)
  moreover have "distinct ps \<longleftrightarrow> distinct out"
    unfolding ps by (rule mset_eq_imp_distinct_iff) simp
  moreover have "sorted ps" using ports.sorted_keys [of out] by (simp add: ps)
  ultimately show ?thesis using out(2) part_names_nonzero by (auto simp: ps)
qed

section \<open>A list of ports on its way to another machine\<close>

lemma split_join:
  "ws \<noteq> [] \<Longrightarrow> \<forall>w \<in> set ws. sep \<notin> set w \<Longrightarrow> split sep (join [sep] ws) = ws"
proof (induction ws rule: induct_list012)
  case (2 x)
  have "split sep x = [x]" if "sep \<notin> set x" for x
    using that by (induction x) auto
  then show ?case using 2 by simp
next
  case (3 x y xs)
  have "split sep (x @ sep # s) = x # split sep s" if "sep \<notin> set x" for x s
    using that by (induction x) (auto split: list.split simp: split_nonempty)
  with 3 show ?case by simp
qed simp

lemma digit_char_ne:
  assumes "d < 10" and "of_char c < (48 :: nat)" shows "digit_char d \<noteq> c"
proof
  assume "digit_char d = c"
  then have "of_char c = (48 + d :: nat)" using assms(1) by (auto simp: digit_char_def)
  with assms(2) show False by simp
qed

lemma digit_facts: "d < 10 \<Longrightarrow> \<not> is_space (digit_char d) \<and> digit_char d \<noteq> CHR '','' \<and> digit_char d \<noteq> CHR ''-''"
  using digit_char_ne [of d "CHR '',''"] digit_char_ne [of d "CHR ''-''"]
  by (simp add: is_space_def digit_char_def)

lemma itoa_chars: "c \<in> set (itoa n) \<Longrightarrow> \<not> is_space c \<and> c \<noteq> CHR '','' \<and> c \<noteq> CHR ''-''"
proof -
  assume "c \<in> set (itoa n)"
  then obtain d where "d < 10" "c = digit_char d" using itoa_digits by blast
  with digit_facts [OF this(1)] show ?thesis by simp
qed

lemma trim_space_none: "\<forall>c \<in> set s. \<not> is_space c \<Longrightarrow> trim_space s = s"
proof -
  assume none: "\<forall>c \<in> set s. \<not> is_space c"
  have "dropWhile is_space t = t" if "\<forall>c \<in> set t. \<not> is_space c" for t
    using that by (cases t) simp_all
  from this [of s] this [of "rev s"] none show ?thesis by (simp add: trim_space_def)
qed

lemma cut_none: "sep \<notin> set s \<Longrightarrow> cut sep s = None"
  by (induction s) auto

lemma add_part_itoa:
  assumes "p \<noteq> 0" and "p \<notin> set out"
  shows "add_part (itoa (unat p)) out = Inr (out @ [p])"
proof -
  have t: "trim_space (itoa (unat p)) = itoa (unat p)"
    by (rule trim_space_none) (use itoa_chars in blast)
  moreover have "cut (CHR ''-'') (itoa (unat p)) = None"
    by (rule cut_none) (use itoa_chars in blast)
  moreover have "parsePort (itoa (unat p)) = Inr p"
    using assms(1) unat_u16 [of p] by (simp add: parsePort_def t parse_uint_itoa unat_gt_0)
  ultimately show ?thesis using assms(2) by (simp add: add_part_def add_port_def)
qed

lemma add_parts_itoa:
  "0 \<notin> set ps \<Longrightarrow> distinct (out @ ps) \<Longrightarrow> add_parts (map (\<lambda>p. itoa (unat p)) ps) out = Inr (out @ ps)"
  by (induction ps arbitrary: out) (auto simp: add_part_itoa)

text \<open>Supporting (remote_ports_understood): the port list \<open>Remote\<close> puts on the other machine's command line is read
  there as the same ports, ascending.\<close>

theorem remote_ports_understood:
  assumes "ps \<noteq> []" and "distinct ps" and "0 \<notin> set ps" and "length ps \<le> maxPorts"
  shows "ParsePorts (remote_args target ps ! 5) = Inr (sort ps)"
proof -
  let ?ws = "map (\<lambda>p. itoa (unat p)) ps"
  have parts: "split (CHR '','') (join '','' ?ws) = ?ws"
    using assms(1) itoa_chars by (intro split_join) auto
  have "trim_space (join '','' ?ws) \<noteq> []"
  proof -
    obtain p qs where ps: "ps = p # qs" using assms(1) by (cases ps) auto
    obtain c cs where c: "itoa (unat p) = c # cs" using itoa_nonempty by (cases "itoa (unat p)") auto
    have "c \<in> set (join '','' ?ws)" unfolding ps by (cases qs) (simp_all add: c)
    moreover have "\<not> is_space c" using itoa_chars [of c "unat p"] c by simp
    ultimately have "dropWhile is_space (join '','' ?ws) \<noteq> []" by (auto simp: dropWhile_eq_Nil_conv)
    then have "\<not> is_space (hd (dropWhile is_space (join '','' ?ws)))" "hd (dropWhile is_space (join '','' ?ws)) \<in> set (rev (dropWhile is_space (join '','' ?ws)))"
      by (auto simp: hd_dropWhile)
    then show ?thesis by (auto simp: trim_space_def dropWhile_eq_Nil_conv)
  qed
  moreover have "slice_stable (<) ps = sort ps"
    using ports.sorted_keys [of ps] by (intro properties_for_sort [symmetric]) simp_all
  ultimately show ?thesis
    using assms add_parts_itoa [of ps "[]"] by (simp add: ParsePorts_def remote_args_def parts)
qed

theorem ParsePorts_spec_witness:
  "ParsePorts ''80,22'' = Inr [22, 80] \<and> part_names ''80'' 80"
proof -
  have eight: "trim_space ''80'' = ''80''" "cut (CHR ''-'') ''80'' = None"
    by (simp_all add: trim_space_def is_space_def)
  have p: "ParsePorts ''80,22'' = Inr [22, 80]"
    by (simp add: ParsePorts_def trim_space_def is_space_def add_part_def parsePort_def parse_uint_def
        digit_value_def add_port_def maxPorts_def)
  from ParsePorts_spec [OF p] have "{22, 80} = {p. part_names ''80'' p \<or> part_names ''22'' p}" by simp
  moreover have "part_names ''80'' 80"
    by (simp add: part_names_def eight parsePort_def parse_uint_def digit_value_def)
  ultimately show ?thesis using p by blast
qed

theorem remote_ports_understood_witness:
  "ParsePorts (remote_args ''192.0.2.1'' [443, 22] ! 5) = Inr [22, 443]"
  using remote_ports_understood [of "[443, 22]"] by (simp add: maxPorts_def)

section \<open>The answers, in whatever order they come\<close>

lemma length_fold_update [simp]: "length (fold (\<lambda>i rs. rs[i := g i]) order results) = length results"
  by (induction order arbitrary: results) simp_all

lemma fold_update_nth:
  "j < length results \<Longrightarrow>
   fold (\<lambda>i rs. rs[i := g i]) order results ! j = (if j \<in> set order then g j else results ! j)"
  by (induction order arbitrary: results) (simp_all add: nth_list_update)

text \<open>Supporting (Run_order_free): whatever order the goroutines finish in, the results are one per port, in the
  order the ports were given.\<close>

theorem Run_order_free:
  assumes "mset order = mset [0..<length ports]"
  shows "Run dial order target ports = map (probeOne dial target) ports"
proof -
  have "set order = set [0..<length ports]" using assms by (rule mset_eq_setD)
  then show ?thesis by (intro nth_equalityI) (simp_all add: Run_def fold_update_nth)
qed

theorem Run_order_free_witness:
  "Run (\<lambda>_ _. None) [1, 0] ''192.0.2.1'' [22, 80] =
     map (probeOne (\<lambda>_ _. None) ''192.0.2.1'') [22, 80]"
  by (rule Run_order_free) (simp add: upt_rec)

section \<open>What the answers change\<close>

definition conflicting :: "(u16 \<rightharpoonup> probe_result) \<Rightarrow> string \<Rightarrow> verdict \<Rightarrow> bool" where
  "conflicting m family v \<longleftrightarrow> probed_row family v \<and>
     (case m (row_port v) of None \<Rightarrow> False | Some r \<Rightarrow> v_Result v \<noteq> ''unknown'' \<and> v_Result v \<noteq> probe_verdict r)"

definition reconciled :: "verdict list \<Rightarrow> (u16 \<rightharpoonup> probe_result) \<Rightarrow> string \<Rightarrow> string \<Rightarrow> verdict \<Rightarrow> verdict" where
  "reconciled vs m family target v =
     (if \<not> probed_row family v then v
      else
        case m (row_port v) of
          None \<Rightarrow> v
        | Some r \<Rightarrow> v\<lparr>v_Result := probe_verdict r,
            v_Reason := probe_reason vs family target v r @
              (if conflicting m family v then '', but whyopen read the ruleset as '' @ v_Result v else [])\<rparr>)"

definition disagreement_of :: "(u16 \<rightharpoonup> probe_result) \<Rightarrow> string \<Rightarrow> verdict \<Rightarrow> disagreement" where
  "disagreement_of m family v =
     (let s = pr_State (the (m (row_port v))) in
      \<lparr>dg_Port = row_port v, dg_Proto = ''tcp'', dg_Family = family, dg_Modelled = v_Result v,
       dg_Probed = s, dg_Diagnosis = diagnose (v_Result v) s\<rparr>)"

lemma reconcile_loop_spec:
  "reconcile_loop vs m family target rest seen =
     (map (reconciled vs m family target) rest,
      map (disagreement_of m family) (first_by row_port seen (filter (conflicting m family) rest)))"
proof (induction rest arbitrary: seen)
  case (Cons v rest)
  show ?case
  proof (cases "probed_row family v")
    case False
    with Cons show ?thesis by (simp add: reconciled_def conflicting_def)
  next
    case True
    show ?thesis
    proof (cases "m (row_port v)")
      case None
      with True Cons show ?thesis by (simp add: reconciled_def conflicting_def)
    next
      case (Some r)
      with True Cons show ?thesis
        by (simp add: reconciled_def conflicting_def disagreement_of_def Let_def)
    qed
  qed
qed simp


lemma reconciled_keeps [simp]:
  "v_Endpoint (reconciled vs m family target v) = v_Endpoint v"
  "v_Family (reconciled vs m family target v) = v_Family v"
  by (simp_all add: reconciled_def split: option.split)

text \<open>Supporting (Reconcile_settles): after a probe's answers are folded in, the same answers contradict nothing and
  leave every result as it is.\<close>

theorem Reconcile_settles:
  "snd (Reconcile (fst (Reconcile vs rs family target)) rs family target') = [] \<and>
   map v_Result (fst (Reconcile (fst (Reconcile vs rs family target)) rs family target')) =
     map v_Result (fst (Reconcile vs rs family target))"
proof -
  let ?m = "by_port rs" and ?once = "reconciled vs (by_port rs) family target"
  have row: "probed_row family (?once v) = probed_row family v" "row_port (?once v) = row_port v" for v
    by (simp_all add: probed_row_def row_port_def)
  have calm: "\<not> conflicting ?m family (?once v)" for v
    unfolding conflicting_def row by (auto simp: reconciled_def split: option.split)
  have same: "v_Result (reconciled ws ?m family target' (?once v)) = v_Result (?once v)" for ws v
    unfolding reconciled_def [of ws] row by (auto simp: reconciled_def split: option.split)
  have "filter (conflicting ?m family) (map ?once vs) = []"
    using calm by (simp add: filter_empty_conv)
  with same show ?thesis by (simp add: Reconcile_def reconcile_loop_spec comp_def)
qed

section \<open>What reaches a shell\<close>


text \<open>C29 (remote_target_zone): the check of a probe target, that it parses as an address, lets an IPv6 zone
  through, and a zone is any text; so the command run on the other machine can hold any text after
  the percent sign.\<close>

theorem remote_target_zone:
  assumes "z \<noteq> []"
  shows "Remote (\<lambda>h args. Inl (join '' '' args)) unmarshal host (''::1%'' @ z) [22] =
    Inl (''probe from '' @ host @ '': whyopen probe -target ::1%'' @ z @ '' -ports 22 -json'')"
proof -
  have "ParseAddr (''::1%'' @ z) = Some (Addr6 1 z)"
    using assms
    by (simp add: ParseAddr_def parse_v6_def has_prefix_def v6_finish_def is_hex_def digit_value_def
        be_put16_def bytes_word_def be_nat_def numeral_eq_Suc)
  then show ?thesis
    by (simp add: Remote_def remote_args_def itoa.simps digit_char_def char_of_eq_iff)
qed

theorem remote_target_zone_witness:
  "\<exists>msg. Remote (\<lambda>h args. Inl (join '' '' args)) (\<lambda>_. Inl []) ''h'' (''::1%'' @ ''a;reboot'') [22] = Inl msg"
  using remote_target_zone [of "''a;reboot''"] by blast

end
