(* ===== verification/Probe_Run.thy ===== *)
theory Probe_Run
  imports Probe
begin

text \<open>
  The goroutines of \<open>Run\<close> (\<open>internal/probe/probe.go\<close>) as a step relation: one goroutine per
  port, the semaphore and the results as shared state, the buffered channel of finished
  indices, and the function itself, which starts the goroutines and then receives one index per
  port. A step is one of them moving, in any order. Also the runner that hands a command to ssh
  (\<open>remote.go\<close>). Time-outs are part of what dialling answers.
\<close>

section \<open>Steps\<close>

datatype phase = Unborn | Queued | Dialling | Written | Sent | Exited

record run_state =
  rt_Phases :: "phase list"
  rt_Results :: "probe_result list"
  rt_Sem :: nat
  rt_Done :: "nat list"
  rt_Started :: nat
  rt_Received :: nat

text \<open>\<open>Concurrency\<close> with its default.\<close>

definition concurrency :: "int \<Rightarrow> nat" where
  "concurrency c = (if c \<le> 0 then 16 else nat c)"

definition run_init :: "u16 list \<Rightarrow> run_state" where
  "run_init ports = \<lparr>rt_Phases = replicate (length ports) Unborn, rt_Results = replicate (length ports) zero_result,
     rt_Sem = 0, rt_Done = [], rt_Started = 0, rt_Received = 0\<rparr>"

definition at_phase :: "run_state \<Rightarrow> nat \<Rightarrow> phase \<Rightarrow> bool" where
  "at_phase s i p \<longleftrightarrow> i < length (rt_Phases s) \<and> rt_Phases s ! i = p"

definition move :: "nat \<Rightarrow> phase \<Rightarrow> run_state \<Rightarrow> run_state" where
  "move i p s = s\<lparr>rt_Phases := (rt_Phases s)[i := p]\<rparr>"

text \<open>
  \<open>start\<close> is the \<open>go\<close> statement of the first loop; \<open>acquire\<close> the send to \<open>sem\<close>, which blocks while it
  is full; \<open>dialled\<close> the assignment to the goroutine's element of the results; \<open>announce\<close> the send
  to \<open>done\<close>, which holds one index per port; \<open>release\<close> the deferred receive from \<open>sem\<close>; and
  \<open>receive\<close> one iteration of the second loop.
\<close>

inductive run_step :: "(string \<Rightarrow> u16 \<Rightarrow> dial_error option) \<Rightarrow> string \<Rightarrow> u16 list \<Rightarrow> nat \<Rightarrow> run_state \<Rightarrow> run_state \<Rightarrow> bool"
  for dial target ports limit where
  launch: "rt_Started s < length ports \<Longrightarrow>
    run_step dial target ports limit s ((move (rt_Started s) Queued s)\<lparr>rt_Started := Suc (rt_Started s)\<rparr>)"
| acquire: "at_phase s i Queued \<Longrightarrow> rt_Sem s < limit \<Longrightarrow>
    run_step dial target ports limit s ((move i Dialling s)\<lparr>rt_Sem := Suc (rt_Sem s)\<rparr>)"
| dialled: "at_phase s i Dialling \<Longrightarrow>
    run_step dial target ports limit s
      ((move i Written s)\<lparr>rt_Results := (rt_Results s)[i := probeOne dial target (ports ! i)]\<rparr>)"
| announce: "at_phase s i Written \<Longrightarrow> length (rt_Done s) < length ports \<Longrightarrow>
    run_step dial target ports limit s ((move i Sent s)\<lparr>rt_Done := rt_Done s @ [i]\<rparr>)"
| release: "at_phase s i Sent \<Longrightarrow>
    run_step dial target ports limit s ((move i Exited s)\<lparr>rt_Sem := rt_Sem s - 1\<rparr>)"
| receive: "rt_Started s = length ports \<Longrightarrow> rt_Received s < length ports \<Longrightarrow> rt_Done s = j # rest \<Longrightarrow>
    run_step dial target ports limit s (s\<lparr>rt_Done := rest, rt_Received := Suc (rt_Received s)\<rparr>)"

text \<open>The function returns its results once both loops are over.\<close>

definition run_returned :: "u16 list \<Rightarrow> run_state \<Rightarrow> bool" where
  "run_returned ports s \<longleftrightarrow> rt_Started s = length ports \<and> rt_Received s = length ports"

section \<open>The command over ssh\<close>

datatype exec_error = ExitError string string | OtherError string

text \<open>\<open>exec\<close> runs a program with arguments: its output, and what \<open>Output\<close> returned as an error.\<close>

definition SSHRunner_Run :: "(string \<Rightarrow> string list \<Rightarrow> string \<times> exec_error option) \<Rightarrow> string \<Rightarrow> string \<Rightarrow> string list
    \<Rightarrow> string + string" where
  "SSHRunner_Run exec binary host args =
     (let bin = (if binary = [] then ''ssh'' else binary) in
      case exec bin (host # args) of
        (out, None) \<Rightarrow> Inr out
      | (out, Some (ExitError err stderr)) \<Rightarrow>
          if length stderr > 0 then Inl (err @ '': '' @ trim_space stderr) else Inl err
      | (out, Some (OtherError err)) \<Rightarrow> Inl err)"

section \<open>Systems whose steps are bounded\<close>

locale bounded_system =
  fixes step :: "'s \<Rightarrow> 's \<Rightarrow> bool" and start :: 's and inv :: "'s \<Rightarrow> bool" and weight :: "'s \<Rightarrow> nat"
  assumes inv_start: "inv start"
    and inv_step: "inv s \<Longrightarrow> step s t \<Longrightarrow> inv t"
    and step_less: "inv s \<Longrightarrow> step s t \<Longrightarrow> weight t < weight s"
begin

lemma reachable_inv: "step\<^sup>*\<^sup>* start s \<Longrightarrow> inv s"
  by (induction rule: rtranclp_induct) (auto intro: inv_start inv_step)

lemma steps_bounded: "(step ^^ k) start s \<Longrightarrow> k + weight s \<le> weight start"
proof (induction k arbitrary: s)
  case (Suc k)
  then obtain u where u: "(step ^^ k) start u" "step u s" by auto
  then have "inv u" by (meson reachable_inv relpowp_imp_rtranclp)
  with u Suc.IH [OF u(1)] step_less [of u s] show ?case by simp
qed simp

text \<open>From wherever it is, the system comes to a state without a step.\<close>

lemma ends: "inv s \<Longrightarrow> \<exists>t. step\<^sup>*\<^sup>* s t \<and> (\<nexists>u. step t u)"
proof (induction "weight s" arbitrary: s rule: less_induct)
  case less
  show ?case
  proof (cases "\<exists>u. step s u")
    case True
    then obtain u where "step s u" by blast
    moreover obtain t where "step\<^sup>*\<^sup>* u t" "\<nexists>v. step t v"
      using less inv_step step_less \<open>step s u\<close> by metis
    ultimately show ?thesis by (meson converse_rtranclp_into_rtranclp)
  qed blast
qed

end

section \<open>The invariant\<close>

definition counts :: "phase set \<Rightarrow> run_state \<Rightarrow> nat" where
  "counts P s = length (filter (\<lambda>p. p \<in> P) (rt_Phases s))"

fun phase_weight :: "phase \<Rightarrow> nat" where
  "phase_weight Unborn = 5"
| "phase_weight Queued = 4"
| "phase_weight Dialling = 3"
| "phase_weight Written = 2"
| "phase_weight Sent = 1"
| "phase_weight Exited = 0"

definition run_weight :: "u16 list \<Rightarrow> run_state \<Rightarrow> nat" where
  "run_weight ports s = sum_list (map phase_weight (rt_Phases s)) + (length ports - rt_Received s)"

definition run_inv :: "(string \<Rightarrow> u16 \<Rightarrow> dial_error option) \<Rightarrow> string \<Rightarrow> u16 list \<Rightarrow> nat \<Rightarrow> run_state \<Rightarrow> bool" where
  "run_inv dial target ports limit s \<longleftrightarrow>
     length (rt_Phases s) = length ports \<and> length (rt_Results s) = length ports \<and> rt_Started s \<le> length ports \<and>
     (\<forall>i < length ports. rt_Phases s ! i = Unborn \<longleftrightarrow> rt_Started s \<le> i) \<and>
     (\<forall>i < length ports. rt_Phases s ! i \<in> {Written, Sent, Exited} \<longrightarrow>
        rt_Results s ! i = probeOne dial target (ports ! i)) \<and>
     rt_Sem s = counts {Dialling, Written, Sent} s \<and> rt_Sem s \<le> limit \<and>
     rt_Received s + length (rt_Done s) = counts {Sent, Exited} s"

lemma filter_update:
  "i < length ps \<Longrightarrow> length (filter P (ps[i := q])) + (if P (ps ! i) then 1 else 0) =
     length (filter P ps) + (if P q then 1 else 0)"
proof (induction ps arbitrary: i)
  case (Cons p ps)
  then show ?case by (cases i) (auto split: if_splits)
qed simp

lemma weight_update:
  "i < length ps \<Longrightarrow> sum_list (map phase_weight (ps[i := q])) + phase_weight (ps ! i) =
     sum_list (map phase_weight ps) + phase_weight q"
proof (induction ps arbitrary: i)
  case (Cons p ps)
  then show ?case by (cases i) auto
qed simp

lemma counts_move:
  "at_phase s i p \<Longrightarrow> counts P (move i q s) + (if p \<in> P then 1 else 0) = counts P s + (if q \<in> P then 1 else 0)"
  using filter_update [of i "rt_Phases s" "\<lambda>p. p \<in> P" q] by (simp add: counts_def move_def at_phase_def)

end
