(* ===== verification/Probe_Run_Specs.thy ===== *)
theory Probe_Run_Specs
  imports Probe_Run Probe_Specs
begin

text \<open>
  What the concurrent run of a probe guarantees: it never dials more ports at once than it
  was told to, it ends after a bounded number of steps whatever the schedule, it never
  deadlocks, and what it returns is one result per port in the order of the ports.
\<close>

section \<open>The invariant holds\<close>

lemma run_inv_init: "run_inv dial target ports limit (run_init ports)"
  by (simp add: run_inv_def run_init_def counts_def)

lemma move_fields [simp]:
  "rt_Phases (move i p s) = (rt_Phases s)[i := p]" "rt_Results (move i p s) = rt_Results s"
  "rt_Sem (move i p s) = rt_Sem s" "rt_Done (move i p s) = rt_Done s"
  "rt_Started (move i p s) = rt_Started s" "rt_Received (move i p s) = rt_Received s"
  by (simp_all add: move_def)

lemma counts_fields [simp]:
  "counts P (s\<lparr>rt_Sem := a\<rparr>) = counts P s" "counts P (s\<lparr>rt_Done := d\<rparr>) = counts P s"
  "counts P (s\<lparr>rt_Results := r\<rparr>) = counts P s" "counts P (s\<lparr>rt_Started := n\<rparr>) = counts P s"
  "counts P (s\<lparr>rt_Received := n\<rparr>) = counts P s"
  by (simp_all add: counts_def)

lemma run_inv_step:
  assumes "run_inv dial target ports limit s" and "run_step dial target ports limit s t"
  shows "run_inv dial target ports limit t"
  using assms(2,1)
proof (induction rule: run_step.induct)
  case (launch s)
  then have at: "at_phase s (rt_Started s) Unborn" by (simp add: run_inv_def at_phase_def)
  with launch counts_move [OF at, of "{Dialling, Written, Sent}" Queued] counts_move [OF at, of "{Sent, Exited}" Queued]
  show ?case by (auto simp: run_inv_def nth_list_update)
next
  case (acquire s i)
  with counts_move [OF acquire(1), of "{Dialling, Written, Sent}" Dialling] counts_move [OF acquire(1), of "{Sent, Exited}" Dialling]
  show ?case by (auto simp: run_inv_def nth_list_update at_phase_def)
next
  case (dialled s i)
  with counts_move [OF dialled(1), of "{Dialling, Written, Sent}" Written] counts_move [OF dialled(1), of "{Sent, Exited}" Written]
  show ?case by (auto simp: run_inv_def nth_list_update at_phase_def)
next
  case (announce s i)
  with counts_move [OF announce(1), of "{Dialling, Written, Sent}" Sent] counts_move [OF announce(1), of "{Sent, Exited}" Sent]
  show ?case by (auto simp: run_inv_def nth_list_update at_phase_def)
next
  case (release s i)
  with counts_move [OF release(1), of "{Dialling, Written, Sent}" Exited] counts_move [OF release(1), of "{Sent, Exited}" Exited]
  show ?case by (auto simp: run_inv_def nth_list_update at_phase_def)
next
  case (receive s j rest)
  then show ?case by (auto simp: run_inv_def)
qed

lemma run_weight_move:
  "at_phase s i p \<Longrightarrow> phase_weight q < phase_weight p \<Longrightarrow> run_weight ports (move i q s) < run_weight ports s"
  using weight_update [of i "rt_Phases s" q] by (simp add: run_weight_def at_phase_def)

lemma run_weight_fields [simp]:
  "run_weight ports (s\<lparr>rt_Sem := a\<rparr>) = run_weight ports s" "run_weight ports (s\<lparr>rt_Done := d\<rparr>) = run_weight ports s"
  "run_weight ports (s\<lparr>rt_Results := r\<rparr>) = run_weight ports s" "run_weight ports (s\<lparr>rt_Started := n\<rparr>) = run_weight ports s"
  by (simp_all add: run_weight_def)

lemma run_step_less:
  assumes "run_inv dial target ports limit s" and "run_step dial target ports limit s t"
  shows "run_weight ports t < run_weight ports s"
  using assms(2,1)
proof (induction rule: run_step.induct)
  case (launch s)
  then have "at_phase s (rt_Started s) Unborn" by (simp add: run_inv_def at_phase_def)
  then show ?case using run_weight_move [of s "rt_Started s" Unborn Queued] by simp
next
  case (receive s j rest)
  then show ?case by (simp add: run_weight_def)
qed (simp_all add: run_weight_move)

interpretation probe_run: bounded_system "run_step dial target ports limit" "run_init ports"
    "run_inv dial target ports limit" "run_weight ports"
  for dial target ports limit
  by unfold_locales (rule run_inv_init, erule run_inv_step, assumption, erule run_step_less, assumption)

lemma run_weight_init: "run_weight ports (run_init ports) = 6 * length ports"
  by (simp add: run_weight_def run_init_def sum_list_replicate)

section \<open>No deadlock\<close>

lemma counts_all: "counts P s = length (rt_Phases s) \<longleftrightarrow> (\<forall>i < length (rt_Phases s). rt_Phases s ! i \<in> P)"
proof -
  have "length (filter Q xs) = length xs \<longleftrightarrow> (\<forall>x \<in> set xs. Q x)" for Q and xs :: "phase list"
    by (metis filter_id_conv length_filter_less less_irrefl)
  then show ?thesis by (simp add: counts_def all_set_conv_all_nth)
qed

lemma counts_mono: "P \<subseteq> Q \<Longrightarrow> counts P s \<le> counts Q s"
proof -
  assume "P \<subseteq> Q"
  then have "length (filter (\<lambda>p. p \<in> P) ps) \<le> length (filter (\<lambda>p. p \<in> Q) ps)" for ps :: "phase list"
    by (induction ps) auto
  then show ?thesis by (simp add: counts_def)
qed

lemma counts_some: "0 < counts P s \<Longrightarrow> \<exists>i p. at_phase s i p \<and> p \<in> P"
  by (auto simp: counts_def at_phase_def filter_empty_conv in_set_conv_nth)

lemma holder_moves:
  assumes "at_phase s i p" and "p \<in> {Dialling, Written, Sent}" and "length (rt_Done s) < length ports"
  shows "\<exists>t. run_step dial target ports limit s t"
  using assms by (auto intro: dialled announce release)

lemma run_progress:
  assumes "run_inv dial target ports limit s" and "0 < limit" and "\<not> run_returned ports s"
  shows "\<exists>t. run_step dial target ports limit s t"
proof (cases "rt_Started s < length ports")
  case True
  then show ?thesis by (blast intro: launch)
next
  case False
  with assms(1,3) have started: "rt_Started s = length ports" "rt_Received s \<noteq> length ports"
    by (auto simp: run_inv_def run_returned_def)
  have "rt_Received s + length (rt_Done s) \<le> length ports"
    using assms(1) by (simp add: run_inv_def counts_def) (metis length_filter_le)
  with started(2) have received: "rt_Received s < length ports" by simp
  show ?thesis
  proof (cases "rt_Done s")
    case Nil
    with assms(1) received have "counts {Sent, Exited} s \<noteq> length (rt_Phases s)" by (simp add: run_inv_def)
    then obtain i where i: "i < length (rt_Phases s)" "rt_Phases s ! i \<notin> {Sent, Exited}"
      using counts_all by blast
    have len: "length (rt_Done s) < length ports" using Nil received by (cases ports) simp_all
    have "rt_Phases s ! i \<noteq> Unborn" using assms(1) i(1) started(1) by (auto simp: run_inv_def)
    with i consider "at_phase s i Queued" | "at_phase s i Dialling" | "at_phase s i Written"
      by (cases "rt_Phases s ! i") (auto simp: at_phase_def)
    then show ?thesis
    proof cases
      case 1
      show ?thesis
      proof (cases "rt_Sem s < limit")
        case True
        with 1 show ?thesis by (blast intro: acquire)
      next
        case False
        with assms(1,2) have "0 < counts {Dialling, Written, Sent} s" by (simp add: run_inv_def)
        then show ?thesis using counts_some holder_moves len by metis
      qed
    qed (use holder_moves len in auto)
  next
    case (Cons j rest)
    with started received show ?thesis by (blast intro: receive)
  qed
qed

section \<open>The results\<close>

lemma returned_results:
  assumes "run_inv dial target ports limit s" and "run_returned ports s"
  shows "rt_Results s = map (probeOne dial target) ports"
proof -
  have "counts {Sent, Exited} s \<le> length (rt_Phases s)" by (simp add: counts_def)
  with assms have "counts {Sent, Exited} s = length (rt_Phases s)" by (simp add: run_inv_def run_returned_def)
  with assms(1) have "\<forall>i < length ports. rt_Phases s ! i \<in> {Sent, Exited}"
    using counts_all [of "{Sent, Exited}" s] by (simp add: run_inv_def)
  with assms(1) show ?thesis by (intro nth_equalityI) (auto simp: run_inv_def)
qed

text \<open>C26 (Run_concurrent): however the goroutines are scheduled, at most the limit of them dial at once, and the
  results the function returns are one per port, in the order of the ports, each the answer of its
  own port, as the sequential run of the command line has it.\<close>

theorem Run_concurrent:
  assumes "(run_step dial target ports limit)\<^sup>*\<^sup>* (run_init ports) s"
  shows "counts {Dialling} s \<le> limit
    \<and> (run_returned ports s \<longrightarrow> rt_Results s = map (probeOne dial target) ports \<and>
        rt_Results s = Run dial [0..<length ports] target ports)"
proof
  have inv: "run_inv dial target ports limit s" using assms by (rule probe_run.reachable_inv)
  have "counts {Dialling} s \<le> counts {Dialling, Written, Sent} s"
    by (rule counts_mono) simp
  with inv show "counts {Dialling} s \<le> limit" by (simp add: run_inv_def)
  show "run_returned ports s \<longrightarrow> rt_Results s = map (probeOne dial target) ports \<and>
      rt_Results s = Run dial [0..<length ports] target ports"
    using returned_results [OF inv] Run_order_free [of "[0..<length ports]" ports] by simp
qed

text \<open>C25 (Run_returns): whatever the schedule, a run makes at most six steps per port, and when no step is left
  the function has returned: no goroutine waits for ever on a channel.\<close>

theorem Run_returns:
  assumes "(run_step dial target ports (concurrency c) ^^ k) (run_init ports) s"
  shows "k \<le> 6 * length ports \<and>
    ((\<exists>t. run_step dial target ports (concurrency c) s t) \<or>
     run_returned ports s \<and> rt_Results s = map (probeOne dial target) ports)"
proof
  show "k \<le> 6 * length ports"
    using probe_run.steps_bounded [OF assms] by (simp add: run_weight_init)
  have inv: "run_inv dial target ports (concurrency c) s"
    using assms probe_run.reachable_inv by (meson relpowp_imp_rtranclp)
  have "0 < concurrency c" by (simp add: concurrency_def)
  with run_progress [OF inv] returned_results [OF inv]
  show "(\<exists>t. run_step dial target ports (concurrency c) s t) \<or>
     run_returned ports s \<and> rt_Results s = map (probeOne dial target) ports" by blast
qed

section \<open>A run\<close>

text \<open>One port, to the end of the function, and one goroutine's way there.\<close>

definition open_result :: probe_result where
  "open_result = \<lparr>pr_Port = 22, pr_Proto = ''tcp'', pr_State = StateOpen, pr_Detail = []\<rparr>"

definition one_port :: "phase \<Rightarrow> probe_result \<Rightarrow> nat \<Rightarrow> nat list \<Rightarrow> nat \<Rightarrow> nat \<Rightarrow> run_state" where
  "one_port p r sem finished started received = \<lparr>rt_Phases = [p], rt_Results = [r], rt_Sem = sem, rt_Done = finished,
     rt_Started = started, rt_Received = received\<rparr>"

lemma one_port_run:
  "(run_step (\<lambda>t p. None) ''192.0.2.1'' [22] 16 ^^ 5) (run_init [22]) (one_port Sent open_result 1 [] 1 1)"
proof -
  let ?step = "run_step (\<lambda>t p. None) ''192.0.2.1'' [22] 16"
  note defs = one_port_def at_phase_def move_def probeOne_def open_result_def
  have 1: "?step (run_init [22]) (one_port Queued zero_result 0 [] 1 0)"
    using launch [of "run_init [22]" "[22]" "\<lambda>t p. None" "''192.0.2.1''" 16] by (simp add: defs run_init_def)
  have 2: "?step (one_port Queued zero_result 0 [] 1 0) (one_port Dialling zero_result 1 [] 1 0)"
    using acquire [of "one_port Queued zero_result 0 [] 1 0" 0 16] by (simp add: defs)
  have 3: "?step (one_port Dialling zero_result 1 [] 1 0) (one_port Written open_result 1 [] 1 0)"
    using dialled [of "one_port Dialling zero_result 1 [] 1 0" 0 "\<lambda>t p. None" "''192.0.2.1''" "[22]"] by (simp add: defs)
  have 4: "?step (one_port Written open_result 1 [] 1 0) (one_port Sent open_result 1 [0] 1 0)"
    using announce [of "one_port Written open_result 1 [] 1 0" 0 "[22]"] by (simp add: defs)
  have 5: "?step (one_port Sent open_result 1 [0] 1 0) (one_port Sent open_result 1 [] 1 1)"
    using receive [of "one_port Sent open_result 1 [0] 1 0" "[22]" 0 "[]"] by (simp add: defs)
  have "(?step ^^ Suc (Suc (Suc (Suc (Suc 0))))) (run_init [22]) (one_port Sent open_result 1 [] 1 1)"
    by (rule relpowp_Suc_I [where P = ?step, OF _ 5], rule relpowp_Suc_I [where P = ?step, OF _ 4], rule relpowp_Suc_I [where P = ?step, OF _ 3],
      rule relpowp_Suc_I [where P = ?step, OF _ 2], rule relpowp_Suc_I [where P = ?step, OF _ 1], rule relpowp_0_I)
  moreover have "Suc (Suc (Suc (Suc (Suc 0)))) = 5" by simp
  ultimately show ?thesis by metis
qed

theorem Run_concurrent_witness:
  "run_returned [22] (one_port Sent open_result 1 [] 1 1)
   \<and> rt_Results (one_port Sent open_result 1 [] 1 1) = map (probeOne (\<lambda>t p. None) ''192.0.2.1'') [22]"
proof -
  have "(run_step (\<lambda>t p. None) ''192.0.2.1'' [22] 16)\<^sup>*\<^sup>* (run_init [22]) (one_port Sent open_result 1 [] 1 1)"
    using one_port_run by (rule relpowp_imp_rtranclp)
  moreover have "run_returned [22] (one_port Sent open_result 1 [] 1 1)"
    by (simp add: run_returned_def one_port_def)
  ultimately show ?thesis using Run_concurrent by blast
qed

theorem Run_returns_witness:
  "(5 :: nat) \<le> 6 * length [22 :: u16] \<and> (\<exists>s. (run_step (\<lambda>t p. None) ''192.0.2.1'' [22] 16 ^^ 5) (run_init [22]) s)"
proof -
  have "(run_step (\<lambda>t p. None) ''192.0.2.1'' [22] (concurrency 0) ^^ 5) (run_init [22]) (one_port Sent open_result 1 [] 1 1)"
    using one_port_run by (simp add: concurrency_def)
  from Run_returns [OF this] one_port_run show ?thesis by blast
qed

end
