(* ===== verification/Nftconv.thy ===== *)
theory Nftconv
  imports Match
begin

text \<open>
  The collector's decoding of netlink expressions (\<open>internal/collect/nftconv.go\<close>). The
  nftables library's expression objects are its exported fields, as far as the source
  reads them; an object of a type without a case is known by its type's name, which is
  what \<open>%T\<close> prints. Enumerations of the library are its named constants and one
  constructor for any other value. \<open>xt.Unmarshal\<close> is a parameter of \<open>Redecode\<close>.
  \<open>reflect.DeepEqual\<close> is equality: the model does not tell a nil slice from an empty one.
\<close>

section \<open>Names\<close>

datatype payload_base =
  PayloadBaseLLHeader | PayloadBaseNetworkHeader | PayloadBaseTransportHeader | PayloadBaseOther nat

datatype cmp_op = CmpOpEq | CmpOpNeq | CmpOpLt | CmpOpLte | CmpOpGt | CmpOpGte | CmpOpOther nat

datatype meta_key =
  MetaKeySKUID | MetaKeySKGID | MetaKeyIIF | MetaKeyOIF | MetaKeyIIFNAME | MetaKeyOIFNAME
  | MetaKeyL4PROTO | MetaKeyNFPROTO | MetaKeyOther nat

datatype verdict_kind =
  VerdictAccept | VerdictDrop | VerdictJump | VerdictGoto | VerdictReturn | VerdictContinue
  | VerdictQueue | VerdictOther nat

fun payloadBaseName :: "payload_base \<Rightarrow> string" where
  "payloadBaseName PayloadBaseLLHeader = ''link''"
| "payloadBaseName PayloadBaseNetworkHeader = ''network''"
| "payloadBaseName PayloadBaseTransportHeader = ''transport''"
| "payloadBaseName (PayloadBaseOther n) = ''unknown''"

fun cmpOpName :: "cmp_op \<Rightarrow> string" where
  "cmpOpName CmpOpEq = ''eq''"
| "cmpOpName CmpOpNeq = ''neq''"
| "cmpOpName CmpOpLt = ''lt''"
| "cmpOpName CmpOpLte = ''lte''"
| "cmpOpName CmpOpGt = ''gt''"
| "cmpOpName CmpOpGte = ''gte''"
| "cmpOpName (CmpOpOther n) = ''unknown''"

fun metaKeyName :: "meta_key \<Rightarrow> string" where
  "metaKeyName MetaKeySKUID = ''skuid''"
| "metaKeyName MetaKeySKGID = ''skgid''"
| "metaKeyName MetaKeyIIF = ''iif''"
| "metaKeyName MetaKeyOIF = ''oif''"
| "metaKeyName MetaKeyIIFNAME = ''iifname''"
| "metaKeyName MetaKeyOIFNAME = ''oifname''"
| "metaKeyName MetaKeyL4PROTO = ''l4proto''"
| "metaKeyName MetaKeyNFPROTO = ''nfproto''"
| "metaKeyName (MetaKeyOther n) = ''unknown''"

fun verdictKindName :: "verdict_kind \<Rightarrow> string" where
  "verdictKindName VerdictAccept = ''accept''"
| "verdictKindName VerdictDrop = ''drop''"
| "verdictKindName VerdictJump = ''jump''"
| "verdictKindName VerdictGoto = ''goto''"
| "verdictKindName VerdictReturn = ''return''"
| "verdictKindName VerdictContinue = ''continue''"
| "verdictKindName VerdictQueue = ''queue''"
| "verdictKindName (VerdictOther n) = ''unknown''"

section \<open>Masks\<close>

definition ctStateInvalid :: u16 where "ctStateInvalid = 0x1"
definition ctStateEstablished :: u16 where "ctStateEstablished = 0x2"
definition ctStateRelated :: u16 where "ctStateRelated = 0x4"
definition ctStateNew :: u16 where "ctStateNew = 0x8"

definition ctStateNames :: "(u16 \<times> string) list" where
  "ctStateNames = [(ctStateInvalid, ''invalid''), (ctStateEstablished, ''established''),
     (ctStateRelated, ''related''), (ctStateNew, ''new'')]"

definition xtConntrackStateFlag :: u16 where "xtConntrackStateFlag = 0x1"
definition xtConntrackStateAliasFlag :: u16 where "xtConntrackStateAliasFlag = 0x2000"

definition xtAddrTypeInvertSource :: u32 where "xtAddrTypeInvertSource = 0x1"
definition xtAddrTypeInvertDest :: u32 where "xtAddrTypeInvertDest = 0x2"
definition xtAddrTypeLimitIfaceIn :: u32 where "xtAddrTypeLimitIfaceIn = 0x4"
definition xtAddrTypeLimitIfaceOut :: u32 where "xtAddrTypeLimitIfaceOut = 0x8"

definition addrTypeNames :: "(u16 \<times> string) list" where
  "addrTypeNames = [(0x1, ''unspec''), (0x2, ''unicast''), (0x4, ''local''), (0x8, ''broadcast''),
     (0x10, ''anycast''), (0x20, ''multicast'')]"

definition conntrack :: "u16 \<Rightarrow> u16 \<Rightarrow> u16 \<Rightarrow> conntrack_info \<times> bool" where
  "conntrack matchFlags invertFlags stateMask =
     (let matches = matchFlags AND xtConntrackStateFlag \<noteq> 0;
          invert = invertFlags AND xtConntrackStateFlag \<noteq> 0;
          decoded = matchFlags AND NOT (xtConntrackStateFlag OR xtConntrackStateAliasFlag) = 0 in
      if \<not> matches then (\<lparr>ci_MatchesState = matches, ci_States = [], ci_Invert = invert\<rparr>, decoded)
      else
        (\<lparr>ci_MatchesState = matches,
          ci_States = map snd (filter (\<lambda>s. stateMask AND fst s \<noteq> 0) ctStateNames),
          ci_Invert = invert\<rparr>, decoded))"

definition addrTypes :: "u16 \<Rightarrow> string list \<times> bool" where
  "addrTypes m =
     (let named = filter (\<lambda>t. m AND fst t \<noteq> 0) addrTypeNames in
      (map snd named, fold (\<lambda>t w. w OR fst t) named 0 = m))"

section \<open>The recent match\<close>

definition xtRecentCheckBit :: byte where "xtRecentCheckBit = 0x1"
definition xtRecentSetBit :: byte where "xtRecentSetBit = 0x2"
definition xtRecentUpdateBit :: byte where "xtRecentUpdateBit = 0x4"
definition xtRecentRemoveBit :: byte where "xtRecentRemoveBit = 0x8"

definition xtRecentRev1Len :: nat where "xtRecentRev1Len = 232"
definition xtRecentSecondsOff :: nat where "xtRecentSecondsOff = 0"
definition xtRecentHitCountOff :: nat where "xtRecentHitCountOff = 4"
definition xtRecentCheckSetOff :: nat where "xtRecentCheckSetOff = 8"
definition xtRecentInvertOff :: nat where "xtRecentInvertOff = 9"
definition xtRecentNameOff :: nat where "xtRecentNameOff = 10"
definition xtRecentNameLen :: nat where "xtRecentNameLen = 200"

definition recentModeName :: "byte \<Rightarrow> string option" where
  "recentModeName checkSet =
     (if checkSet = xtRecentSetBit then Some ''set''
      else if checkSet = xtRecentUpdateBit then Some ''update''
      else if checkSet = xtRecentCheckBit then Some ''rcheck''
      else if checkSet = xtRecentRemoveBit then Some ''remove''
      else None)"

text \<open>A Go string is its bytes.\<close>

definition bytes_string :: "bytes \<Rightarrow> string" where
  "bytes_string bs = map (\<lambda>b. char_of (unat b)) bs"

definition recentInfo :: "u32 \<Rightarrow> bytes \<Rightarrow> recent_info option" where
  "recentInfo rv data =
     (if rv \<noteq> 1 \<or> length data \<noteq> xtRecentRev1Len then None
      else
        case recentModeName (data ! xtRecentCheckSetOff) of
          None \<Rightarrow> None
        | Some mode \<Rightarrow>
            let name = take xtRecentNameLen (drop xtRecentNameOff data) in
            Some \<lparr>ri_Mode = mode, ri_Seconds = le_uint32 (drop xtRecentSecondsOff data),
              ri_HitCount = le_uint32 (drop xtRecentHitCountOff data),
              ri_Invert = (data ! xtRecentInvertOff \<noteq> 0),
              ri_Name = bytes_string (takeWhile (\<lambda>b. b \<noteq> 0) name)\<rparr>)"

section \<open>Address ranges\<close>

text \<open>
  \<open>net.IP\<close> is a slice of 4 or 16 bytes, or nil, and prints a mapped address in dotted
  form. \<open>None\<close> is nil.
\<close>

definition net_ip_String :: "bytes \<Rightarrow> string" where
  "net_ip_String ip =
     (if ip = [] then ''<nil>''
      else
        case AddrFromSlice ip of
          None \<Rightarrow> ''?'' @ hex_encode ip
        | Some a \<Rightarrow> addr_String (addr_Unmap a))"

definition ipString :: "bytes option \<Rightarrow> string" where
  "ipString ip = (case ip of None \<Rightarrow> [] | Some bs \<Rightarrow> net_ip_String bs)"

record nat_range =
  nr_Flags :: u32
  nr_MinIP :: "bytes option"
  nr_MaxIP :: "bytes option"
  nr_MinPort :: u16
  nr_MaxPort :: u16

definition natRange :: "nat_range \<Rightarrow> dnat_info" where
  "natRange r = \<lparr>di_MinIP = ipString (nr_MinIP r), di_MaxIP = ipString (nr_MaxIP r),
     di_MinPort = nr_MinPort r, di_MaxPort = nr_MaxPort r\<rparr>"

section \<open>Extensions\<close>

text \<open>
  The payloads the library types, and every other: \<open>XtUnknown\<close> is the library's own
  \<open>xt.Unknown\<close>, the raw bytes; \<open>XtTyped\<close> a payload type the conversion has no case for.
\<close>

datatype xt_info =
    XtNatRange2 nat_range
  | XtNatRange nat_range
  | XtConntrackMtinfo3 u16 u16 u16
  | XtConntrackMtinfo2 u16 u16 u16
  | XtConntrackMtinfo1 u16 u16 byte
  | XtAddrTypeV1 u16 u16 u32
  | XtAddrType u16 u16 bool bool
  | XtUnknown bytes
  | XtTyped string

definition xt0 :: "string \<Rightarrow> string \<Rightarrow> u32 \<Rightarrow> xt_expr" where
  "xt0 kind name rv = \<lparr>xt_Kind = kind, xt_Name = name, xt_Rev = rv, xt_Decoded = False, xt_DNAT = None,
     xt_Conntrack = None, xt_AddrType = None, xt_Recent = None, xt_Raw = []\<rparr>"

text \<open>The expression with what the byte-level decoders made of it, and whether one of them did.\<close>

definition decodeXtRaw :: "xt_expr \<Rightarrow> xt_expr \<times> bool" where
  "decodeXtRaw x =
     (if xt_Decoded x \<or> xt_Raw x = [] then (x, False)
      else
        case hex_decode (xt_Raw x) of
          None \<Rightarrow> (x, False)
        | Some raw \<Rightarrow>
            if xt_Name x = ''recent'' then
              (case recentInfo (xt_Rev x) raw of
                 None \<Rightarrow> (x, False)
               | Some info \<Rightarrow> (x\<lparr>xt_Recent := Some info, xt_Decoded := True\<rparr>, True))
            else (x, False))"

definition with_conntrack :: "u16 \<Rightarrow> u16 \<Rightarrow> u16 \<Rightarrow> xt_expr \<Rightarrow> xt_expr" where
  "with_conntrack matchFlags invertFlags stateMask x =
     (let (ct, decoded) = conntrack matchFlags invertFlags stateMask in
      x\<lparr>xt_Conntrack := Some ct, xt_Decoded := decoded\<rparr>)"

fun convertXt :: "string \<Rightarrow> string \<Rightarrow> u32 \<Rightarrow> xt_info \<Rightarrow> xt_expr" where
  "convertXt kind name rv (XtNatRange2 r) = (xt0 kind name rv)\<lparr>xt_Decoded := True, xt_DNAT := Some (natRange r)\<rparr>"
| "convertXt kind name rv (XtNatRange r) = (xt0 kind name rv)\<lparr>xt_Decoded := True, xt_DNAT := Some (natRange r)\<rparr>"
| "convertXt kind name rv (XtConntrackMtinfo3 mf inv_f sm) = with_conntrack mf inv_f sm (xt0 kind name rv)"
| "convertXt kind name rv (XtConntrackMtinfo2 mf inv_f sm) = with_conntrack mf inv_f sm (xt0 kind name rv)"
| "convertXt kind name rv (XtConntrackMtinfo1 mf inv_f sm) = with_conntrack mf inv_f (ucast sm) (xt0 kind name rv)"
| "convertXt kind name rv (XtAddrTypeV1 source dest flags) =
     (let (dst, dstOK) = addrTypes dest; (src, srcOK) = addrTypes source in
      (xt0 kind name rv)\<lparr>
        xt_Decoded := flags AND (xtAddrTypeLimitIfaceIn OR xtAddrTypeLimitIfaceOut) = 0 \<and> dstOK \<and> srcOK,
        xt_AddrType := Some \<lparr>ai_DestTypes = dst, ai_SourceTypes = src,
          ai_InvertDest = (flags AND xtAddrTypeInvertDest \<noteq> 0),
          ai_InvertSource = (flags AND xtAddrTypeInvertSource \<noteq> 0)\<rparr>\<rparr>)"
| "convertXt kind name rv (XtAddrType source dest invertSource invertDest) =
     (let (dst, dstOK) = addrTypes dest; (src, srcOK) = addrTypes source in
      (xt0 kind name rv)\<lparr>xt_Decoded := dstOK \<and> srcOK,
        xt_AddrType := Some \<lparr>ai_DestTypes = dst, ai_SourceTypes = src,
          ai_InvertDest = invertDest, ai_InvertSource = invertSource\<rparr>\<rparr>)"
| "convertXt kind name rv (XtUnknown raw) = fst (decodeXtRaw ((xt0 kind name rv)\<lparr>xt_Raw := hex_encode raw\<rparr>))"
| "convertXt kind name rv (XtTyped t) = xt0 kind name rv"

section \<open>Expressions\<close>

text \<open>NFPROTO_IPV6, as \<open>golang.org/x/sys/unix\<close> exports it.\<close>

definition NFPROTO_IPV6 :: u32 where "NFPROTO_IPV6 = 10"

datatype nat_type = NATTypeDestNAT | NATTypeOther nat
datatype ct_key = CtKeySTATE | CtKeySTATUS | CtKeyOther nat

record lib_fib =
  lf_Register :: u32
  lf_ResultOIF :: bool
  lf_ResultOIFNAME :: bool
  lf_ResultADDRTYPE :: bool
  lf_FlagSADDR :: bool
  lf_FlagDADDR :: bool
  lf_FlagIIF :: bool
  lf_FlagPRESENT :: bool

datatype nft_any =
    LibPayload u32 payload_base u32 u32
  | LibCmp cmp_op u32 bytes
  | LibMeta meta_key u32
  | LibBitwise u32 u32 u32 bytes bytes
  | LibCt bool ct_key u32
  | LibRange cmp_op u32 bytes bytes
  | LibImmediate u32 bytes
  | LibNAT nat_type u32 u32 u32
  | LibFib lib_fib
  | LibLookup u32 string u32 bool bool
  | LibVerdict verdict_kind string
  | LibMatch string u32 xt_info
  | LibTarget string u32 xt_info
  | LibReject
  | LibLog
  | LibCounter
  | LibLimit
  | LibOther string

definition unknown_expr :: "string \<Rightarrow> expr" where
  "unknown_expr type_name = (expr0 ExprUnknown)\<lparr>e_Note := type_name\<rparr>"

definition convertCt :: "bool \<Rightarrow> ct_key \<Rightarrow> u32 \<Rightarrow> expr" where
  "convertCt source_register key reg =
     (if source_register then unknown_expr ''*expr.Ct''
      else
        case key of
          CtKeySTATE \<Rightarrow> (expr0 ExprCt)\<lparr>e_Ct := Some \<lparr>ce_Key = ''state'', ce_Register = reg\<rparr>\<rparr>
        | CtKeySTATUS \<Rightarrow> (expr0 ExprCt)\<lparr>e_Ct := Some \<lparr>ce_Key = ''status'', ce_Register = reg\<rparr>\<rparr>
        | CtKeyOther n \<Rightarrow> unknown_expr ''*expr.Ct'')"

definition convertNAT :: "nat_type \<Rightarrow> u32 \<Rightarrow> u32 \<Rightarrow> u32 \<Rightarrow> expr" where
  "convertNAT ty family reg_addr_min reg_proto_min =
     (if ty \<noteq> NATTypeDestNAT then unknown_expr ''*expr.NAT''
      else (expr0 ExprNAT)\<lparr>e_NAT := Some \<lparr>nt_Type = ''dnat'',
        nt_Family = (if family = NFPROTO_IPV6 then ''ip6'' else ''ip''),
        nt_AddrRegister = reg_addr_min, nt_ProtoRegister = reg_proto_min\<rparr>\<rparr>)"

definition fib_source :: "lib_fib \<Rightarrow> string option" where
  "fib_source v =
     (if lf_FlagSADDR v \<and> \<not> lf_FlagDADDR v then Some ''saddr''
      else if lf_FlagDADDR v \<and> \<not> lf_FlagSADDR v then Some ''daddr''
      else None)"

definition convertFib :: "lib_fib \<Rightarrow> expr" where
  "convertFib v =
     (case fib_source v of
        None \<Rightarrow> unknown_expr ''*expr.Fib''
      | Some source \<Rightarrow>
          if lf_ResultADDRTYPE v \<and> \<not> lf_ResultOIF v \<and> \<not> lf_ResultOIFNAME v then
            (expr0 ExprFib)\<lparr>e_Fib := Some \<lparr>fb_Query = ''addrtype'', fb_Register = lf_Register v,
              fb_Source = source, fb_MatchesIface = False\<rparr>\<rparr>
          else if lf_ResultOIF v \<and> lf_FlagPRESENT v \<and> \<not> lf_ResultOIFNAME v \<and> \<not> lf_ResultADDRTYPE v then
            (expr0 ExprFib)\<lparr>e_Fib := Some \<lparr>fb_Query = ''oif-present'', fb_Register = lf_Register v,
              fb_Source = source, fb_MatchesIface = lf_FlagIIF v\<rparr>\<rparr>
          else unknown_expr ''*expr.Fib'')"

definition convertLookup :: "u32 \<Rightarrow> string \<Rightarrow> u32 \<Rightarrow> bool \<Rightarrow> bool \<Rightarrow> expr" where
  "convertLookup source_register set_name set_id invert is_dest_reg_set =
     (expr0 ExprLookup)\<lparr>e_Lookup := Some \<lparr>lk_SourceRegister = source_register, lk_Set = set_name,
        lk_SetID = set_id, lk_Invert = invert, lk_IsDestRegSet = is_dest_reg_set\<rparr>\<rparr>"

fun convertExpr :: "nft_any \<Rightarrow> expr" where
  "convertExpr (LibPayload dreg base offset len) = (expr0 ExprPayload)\<lparr>e_Payload :=
     Some \<lparr>pl_DestRegister = dreg, pl_Base = payloadBaseName base, pl_Offset = offset, pl_Len = len\<rparr>\<rparr>"
| "convertExpr (LibCmp op reg data) = (expr0 ExprCmp)\<lparr>e_Cmp :=
     Some \<lparr>cm_Op = cmpOpName op, cm_Register = reg, cm_Data = hex_encode data\<rparr>\<rparr>"
| "convertExpr (LibMeta key reg) = (expr0 ExprMeta)\<lparr>e_Meta :=
     Some \<lparr>mt_Key = metaKeyName key, mt_Register = reg\<rparr>\<rparr>"
| "convertExpr (LibBitwise sreg dreg len m x) = (expr0 ExprBitwise)\<lparr>e_Bitwise :=
     Some \<lparr>bw_SourceRegister = sreg, bw_DestRegister = dreg, bw_Len = len, bw_Mask = hex_encode m,
           bw_Xor = hex_encode x\<rparr>\<rparr>"
| "convertExpr (LibCt source_register key reg) = convertCt source_register key reg"
| "convertExpr (LibRange op reg lo hi) = (expr0 ExprRange)\<lparr>e_Range :=
     Some \<lparr>rg_Op = cmpOpName op, rg_Register = reg, rg_From = hex_encode lo, rg_To = hex_encode hi\<rparr>\<rparr>"
| "convertExpr (LibImmediate reg data) = (expr0 ExprImmediate)\<lparr>e_Immediate :=
     Some \<lparr>im_Register = reg, im_Data = hex_encode data\<rparr>\<rparr>"
| "convertExpr (LibNAT ty family ra rp) = convertNAT ty family ra rp"
| "convertExpr (LibFib v) = convertFib v"
| "convertExpr (LibLookup sreg name sid invert dreg_set) = convertLookup sreg name sid invert dreg_set"
| "convertExpr (LibVerdict k chain_name) = (expr0 ExprVerdict)\<lparr>e_Verdict :=
     Some \<lparr>ve_Kind = verdictKindName k, ve_Chain = chain_name\<rparr>\<rparr>"
| "convertExpr (LibMatch name rv info) = (expr0 ExprXt)\<lparr>e_Xt := Some (convertXt ''match'' name rv info)\<rparr>"
| "convertExpr (LibTarget name rv info) = (expr0 ExprXt)\<lparr>e_Xt := Some (convertXt ''target'' name rv info)\<rparr>"
| "convertExpr LibReject = (expr0 ExprVerdict)\<lparr>e_Note := ''reject'',
     e_Verdict := Some \<lparr>ve_Kind = ''reject'', ve_Chain = []\<rparr>\<rparr>"
| "convertExpr LibLog = (expr0 ExprOther)\<lparr>e_Note := ''log''\<rparr>"
| "convertExpr LibCounter = (expr0 ExprOther)\<lparr>e_Note := ''counter''\<rparr>"
| "convertExpr LibLimit = (expr0 ExprOther)\<lparr>e_Note := ''limit''\<rparr>"
| "convertExpr (LibOther type_name) = unknown_expr type_name"

definition ConvertExprs :: "nft_any list \<Rightarrow> expr list" where
  "ConvertExprs es = map convertExpr es"

section \<open>Decoding a document again\<close>

text \<open>The families \<open>xt.Unmarshal\<close> takes.\<close>

datatype xt_family = XtIPv4 | XtIPv6 | XtINet | XtNetdev

definition xtFamily :: "string \<Rightarrow> xt_family" where
  "xtFamily family =
     (if family = ''ip6'' then XtIPv6
      else if family = ''inet'' then XtINet
      else if family = ''netdev'' then XtNetdev
      else XtIPv4)"

type_synonym xt_unmarshal = "string \<Rightarrow> xt_family \<Rightarrow> u32 \<Rightarrow> bytes \<Rightarrow> string + xt_info"

text \<open>The expression after, and whether it changed.\<close>

definition redecodeXt :: "xt_unmarshal \<Rightarrow> string \<Rightarrow> xt_expr \<Rightarrow> xt_expr \<times> bool" where
  "redecodeXt unmarshal family x =
     (if xt_Raw x = [] then (x, False)
      else
        case hex_decode (xt_Raw x) of
          None \<Rightarrow> (x, False)
        | Some raw \<Rightarrow>
            (case unmarshal (xt_Name x) (xtFamily family) (xt_Rev x) raw of
               Inl err \<Rightarrow> (x, False)
             | Inr info \<Rightarrow>
                 let fresh = (convertXt (xt_Kind x) (xt_Name x) (xt_Rev x) info)\<lparr>xt_Raw := xt_Raw x\<rparr> in
                 if fresh = x then (x, False) else (fresh, True)))"

text \<open>The four nested loops of \<open>Redecode\<close>, each returning what it rewrote and how many changed.\<close>

definition redecode_expr :: "xt_unmarshal \<Rightarrow> string \<Rightarrow> expr \<Rightarrow> expr \<times> nat" where
  "redecode_expr unmarshal family e =
     (if e_Kind e \<noteq> ExprXt then (e, 0)
      else
        case e_Xt e of
          None \<Rightarrow> (e, 0)
        | Some x \<Rightarrow>
            (let (x', changed) = redecodeXt unmarshal family x in
             (e\<lparr>e_Xt := Some x'\<rparr>, if changed then 1 else 0)))"

fun map_count :: "('a \<Rightarrow> 'a \<times> nat) \<Rightarrow> 'a list \<Rightarrow> 'a list \<times> nat" where
  "map_count f [] = ([], 0)"
| "map_count f (x # xs) = (let (y, m) = f x; (ys, n) = map_count f xs in (y # ys, m + n))"

definition redecode_rule :: "xt_unmarshal \<Rightarrow> string \<Rightarrow> rule \<Rightarrow> rule \<times> nat" where
  "redecode_rule unmarshal family r =
     (let (es, n) = map_count (redecode_expr unmarshal family) (r_Exprs r) in (r\<lparr>r_Exprs := es\<rparr>, n))"

definition redecode_chain :: "xt_unmarshal \<Rightarrow> string \<Rightarrow> chain \<Rightarrow> chain \<times> nat" where
  "redecode_chain unmarshal family ch =
     (let (rs, n) = map_count (redecode_rule unmarshal family) (ch_Rules ch) in (ch\<lparr>ch_Rules := rs\<rparr>, n))"

definition redecode_table :: "xt_unmarshal \<Rightarrow> table \<Rightarrow> table \<times> nat" where
  "redecode_table unmarshal t =
     (let (chs, n) = map_count (redecode_chain unmarshal (t_Family t)) (t_Chains t) in (t\<lparr>t_Chains := chs\<rparr>, n))"

definition Redecode :: "xt_unmarshal \<Rightarrow> facts \<Rightarrow> facts \<times> nat" where
  "Redecode unmarshal f =
     (let (ts, n) = map_count (redecode_table unmarshal) (rs_Tables (f_Ruleset f)) in
      (f\<lparr>f_Ruleset := (f_Ruleset f)\<lparr>rs_Tables := ts\<rparr>\<rparr>, n))"

end
