(* ===== verification/Ruleset_Read.thy ===== *)
theory Ruleset_Read
  imports Nftconv
begin

text \<open>
  The reading of the ruleset: \<open>internal/collect/ruleset.go\<close>, and the two netlink dumps
  whyopen decodes itself, \<open>internal/collect/chaindev.go\<close> (hook devices) and
  \<open>internal/collect/rulepayload.go\<close> (xt payloads). The nftables library is the record
  \<open>source\<close>, one field per method of the interface \<open>rulesetSource\<close>: a call is answered by
  an error's text or a value. The netlink attribute decoder is the record \<open>attr_decoder\<close>;
  a dump is the outcome of its two calls. Numbers of the kernel's interface are those of
  \<open>linux/netfilter.h\<close> and \<open>linux/netfilter/nf_tables.h\<close>.
\<close>

section \<open>Names\<close>

definition TableFamilyINet :: byte where "TableFamilyINet = 1"
definition TableFamilyIPv4 :: byte where "TableFamilyIPv4 = 2"
definition TableFamilyARP :: byte where "TableFamilyARP = 3"
definition TableFamilyNetdev :: byte where "TableFamilyNetdev = 5"
definition TableFamilyBridge :: byte where "TableFamilyBridge = 7"
definition TableFamilyIPv6 :: byte where "TableFamilyIPv6 = 10"

definition FamilyName :: "byte \<Rightarrow> string" where
  "FamilyName f =
     (if f = TableFamilyIPv4 then ''ip''
      else if f = TableFamilyIPv6 then ''ip6''
      else if f = TableFamilyINet then ''inet''
      else if f = TableFamilyARP then ''arp''
      else if f = TableFamilyBridge then ''bridge''
      else if f = TableFamilyNetdev then ''netdev''
      else ''family'' @ itoa (unat f))"

definition nfInetIngress :: u32 where "nfInetIngress = 5"

definition HookName :: "u32 option \<Rightarrow> byte \<Rightarrow> string" where
  "HookName h family =
     (case h of
        None \<Rightarrow> []
      | Some n \<Rightarrow>
          if family = TableFamilyNetdev then
            (if n = 0 then ''ingress'' else if n = 1 then ''egress'' else ''unknown'')
          else if n = 0 then ''prerouting''
          else if n = 1 then ''input''
          else if n = 2 then ''forward''
          else if n = 3 then ''output''
          else if n = 4 then ''postrouting''
          else if n = nfInetIngress then ''ingress''
          else ''unknown'')"

definition PolicyName :: "u32 option \<Rightarrow> string" where
  "PolicyName p =
     (case p of
        None \<Rightarrow> []
      | Some n \<Rightarrow> if n = 0 then ''drop'' else if n = 1 then ''accept'' else ''unknown'')"

section \<open>Payload bytes of a rule\<close>

record rule_key =
  rk_Family :: byte
  rk_Table :: string
  rk_Chain :: string
  rk_Handle :: u64

record xt_payload =
  xp_Name :: string
  xp_Rev :: u32
  xp_Info :: bytes

text \<open>
  The expressions from the first one left on. Stopping leaves the rest as they are: the
  source returns out of its loop.
\<close>

fun attachXtPayloads :: "expr list \<Rightarrow> xt_payload list \<Rightarrow> expr list" where
  "attachXtPayloads [] ps = []"
| "attachXtPayloads (e # es) ps =
     (case (e_Kind e, e_Xt e) of
        (ExprXt, Some x) \<Rightarrow>
          (case ps of
             [] \<Rightarrow> e # es
           | p # ps' \<Rightarrow>
               if xp_Name p \<noteq> xt_Name x \<or> xp_Rev p \<noteq> xt_Rev x then e # es
               else
                 (if xt_Raw x = [] then e\<lparr>e_Xt := Some (x\<lparr>xt_Raw := hex_encode (xp_Info p)\<rparr>)\<rparr> else e)
                 # attachXtPayloads es ps')
      | _ \<Rightarrow> e # attachXtPayloads es ps)"

section \<open>Sets\<close>

record lib_table =
  lt_Family :: byte
  lt_Name :: string

record lib_element =
  le_Key :: bytes
  le_Val :: bytes
  le_KeyEnd :: bytes
  le_IntervalEnd :: bool

record lib_set =
  ls_Name :: string
  ls_Anonymous :: bool
  ls_ID :: u32
  ls_Interval :: bool
  ls_IsMap :: bool
  ls_Concatenation :: bool

record lib_chain =
  lc_Table :: lib_table
  lc_Name :: string
  lc_Hooknum :: "u32 option"
  lc_Priority :: "int option"
  lc_Policy :: "u32 option"

record lib_rule =
  lr_Handle :: u64
  lr_Exprs :: "nft_any list"

text \<open>
  The interface \<open>rulesetSource\<close>. A call fails with an error, here its text. The family
  cache asks for the chains of a family once, so the answer is a function of the family.
\<close>

record source =
  ListTables :: "string + lib_table list"
  ListChainsOfTableFamily :: "byte \<Rightarrow> string + lib_chain list"
  GetRules :: "lib_table \<Rightarrow> lib_chain \<Rightarrow> string + lib_rule list"
  GetSets :: "lib_table \<Rightarrow> string + lib_set list"
  GetSetElements :: "lib_set \<Rightarrow> string + lib_element list"

definition convertElement :: "lib_element \<Rightarrow> set_element" where
  "convertElement e = \<lparr>se_Key = hex_encode (le_Key e),
     se_Val = (if length (le_Val e) > 0 then hex_encode (le_Val e) else []),
     se_KeyEnd = (if length (le_KeyEnd e) > 0 then hex_encode (le_KeyEnd e) else []),
     se_IntervalEnd = le_IntervalEnd e\<rparr>"

definition convertSet :: "lib_set \<Rightarrow> lib_element list \<Rightarrow> nft_set" where
  "convertSet s elems = \<lparr>st_Name = ls_Name s, st_Anonymous = ls_Anonymous s, st_ID = ls_ID s,
     st_Interval = ls_Interval s, st_IsMap = ls_IsMap s, st_Concatenation = ls_Concatenation s,
     st_Elements = map convertElement elems\<rparr>"

definition ruleset_warning :: "string \<Rightarrow> warning" where
  "ruleset_warning msg = \<lparr>w_Source = ''ruleset'', w_Message = msg\<rparr>"

text \<open>The sets read, the warnings, and whether a call failed.\<close>

fun read_sets :: "source \<Rightarrow> lib_table \<Rightarrow> string \<Rightarrow> lib_set list \<Rightarrow> nft_set list \<times> warning list \<times> bool" where
  "read_sets c t fam [] = ([], [], False)"
| "read_sets c t fam (s # ss) =
     (let (out, warns, failed) = read_sets c t fam ss in
      case GetSetElements c s of
        Inl err \<Rightarrow> (out, ruleset_warning (''get elements for set '' @ fam @ ''/'' @ lt_Name t @ ''/'' @
                      ls_Name s @ '': '' @ err) # warns, True)
      | Inr elems \<Rightarrow> (convertSet s elems # out, warns, failed))"

definition readSets :: "source \<Rightarrow> lib_table \<Rightarrow> string \<Rightarrow> nft_set list \<times> warning list \<times> bool" where
  "readSets c t fam =
     (case GetSets c t of
        Inl err \<Rightarrow> ([], [ruleset_warning (''list sets for '' @ fam @ ''/'' @ lt_Name t @ '': '' @ err)], True)
      | Inr ss \<Rightarrow> read_sets c t fam ss)"

section \<open>Tables, chains and rules\<close>

record chain_key =
  ck_Family :: byte
  ck_Table :: string
  ck_Chain :: string

type_synonym devices = "chain_key \<rightharpoonup> string list"
type_synonym payloads = "rule_key \<rightharpoonup> xt_payload list"

definition read_family :: "string \<Rightarrow> bool" where
  "read_family fam \<longleftrightarrow> fam = ''ip'' \<or> fam = ''ip6'' \<or> fam = ''inet'' \<or> fam = ''netdev''"

text \<open>A missing key of a Go map reads as the zero value, here no device and no payload.\<close>

definition at_key :: "('k \<rightharpoonup> 'v list) \<Rightarrow> 'k \<Rightarrow> 'v list" where
  "at_key m k = (case m k of None \<Rightarrow> [] | Some v \<Rightarrow> v)"

definition convert_rule :: "payloads \<Rightarrow> lib_table \<Rightarrow> lib_chain \<Rightarrow> lib_rule \<Rightarrow> rule" where
  "convert_rule payloads t ch r = \<lparr>r_Handle = lr_Handle r,
     r_Exprs = attachXtPayloads (ConvertExprs (lr_Exprs r))
       (at_key payloads \<lparr>rk_Family = lt_Family t, rk_Table = lt_Name t, rk_Chain = lc_Name ch,
                         rk_Handle = lr_Handle r\<rparr>)\<rparr>"

definition convert_chain :: "devices \<Rightarrow> payloads \<Rightarrow> lib_table \<Rightarrow> lib_chain \<Rightarrow> lib_rule list \<Rightarrow> chain" where
  "convert_chain devices payloads t ch rules = \<lparr>ch_Name = lc_Name ch, ch_Base = (lc_Hooknum ch \<noteq> None),
     ch_Hook = HookName (lc_Hooknum ch) (lt_Family t),
     ch_Priority = (case lc_Priority ch of None \<Rightarrow> 0 | Some p \<Rightarrow> p),
     ch_Devices = at_key devices \<lparr>ck_Family = lt_Family t, ck_Table = lt_Name t, ck_Chain = lc_Name ch\<rparr>,
     ch_Policy = PolicyName (lc_Policy ch), ch_Rules = map (convert_rule payloads t ch) rules\<rparr>"

definition chain_of_table :: "lib_table \<Rightarrow> lib_chain \<Rightarrow> bool" where
  "chain_of_table t ch \<longleftrightarrow>
     \<not> (lt_Name (lc_Table ch) \<noteq> lt_Name t \<or> lt_Family (lc_Table ch) \<noteq> lt_Family t)"

fun read_chains ::
  "source \<Rightarrow> devices \<Rightarrow> payloads \<Rightarrow> lib_table \<Rightarrow> lib_chain list \<Rightarrow> chain list \<times> warning list \<times> bool"
where
  "read_chains c devices payloads t [] = ([], [], False)"
| "read_chains c devices payloads t (ch # chs) =
     (let (out, warns, failed) = read_chains c devices payloads t chs in
      if \<not> chain_of_table t ch then (out, warns, failed)
      else
        case GetRules c t ch of
          Inl err \<Rightarrow> (out, ruleset_warning (''get rules for '' @ FamilyName (lt_Family t) @ ''/'' @ lt_Name t @
                        ''/'' @ lc_Name ch @ '': '' @ err) # warns, True)
        | Inr rules \<Rightarrow> (convert_chain devices payloads t ch rules # out, warns, failed))"

definition read_table ::
  "source \<Rightarrow> devices \<Rightarrow> payloads \<Rightarrow> lib_table \<Rightarrow> table option \<times> warning list \<times> bool"
where
  "read_table c devices payloads t =
     (let fam = FamilyName (lt_Family t) in
      if \<not> read_family fam then (None, [], False)
      else
        let (sets, setWarns, setsFailed) = readSets c t fam in
        case ListChainsOfTableFamily c (lt_Family t) of
          Inl err \<Rightarrow> (None, setWarns @ [ruleset_warning (''list chains for '' @ fam @ ''/'' @ lt_Name t @ '': '' @ err)], True)
        | Inr chs \<Rightarrow>
            let (out, warns, failed) = read_chains c devices payloads t chs in
            (Some \<lparr>t_Family = fam, t_Name = lt_Name t, t_Chains = out, t_Sets = sets\<rparr>,
             setWarns @ warns, setsFailed \<or> failed))"

fun read_tables ::
  "source \<Rightarrow> devices \<Rightarrow> payloads \<Rightarrow> lib_table list \<Rightarrow> table list \<times> warning list \<times> bool"
where
  "read_tables c devices payloads [] = ([], [], False)"
| "read_tables c devices payloads (t # ts) =
     (let (out1, warns1, failed1) = read_table c devices payloads t;
          (out, warns, failed) = read_tables c devices payloads ts in
      ((case out1 of None \<Rightarrow> out | Some ft \<Rightarrow> ft # out), warns1 @ warns, failed1 \<or> failed))"

text \<open>The ruleset, the warnings, and the error of a read that could not start.\<close>

definition readRuleset ::
  "source \<Rightarrow> devices \<Rightarrow> payloads \<Rightarrow> ruleset \<times> warning list \<times> string option"
where
  "readRuleset c devices payloads =
     (case ListTables c of
        Inl err \<Rightarrow> (\<lparr>rs_Tables = [], rs_ReadFailed = True\<rparr>, [], Some (''list tables: '' @ err))
      | Inr tables \<Rightarrow>
          let (ts, warns, failed) = read_tables c devices payloads tables in
          (\<lparr>rs_Tables = ts, rs_ReadFailed = failed\<rparr>, warns, None))"

section \<open>Netlink attributes\<close>

text \<open>
  \<open>netlink.AttributeDecoder\<close>, a third-party type. \<open>at_attrs\<close> is what a decoder over some bytes
  visits: \<open>None\<close> when it cannot be created, else the attributes \<open>Next\<close> stops at, with
  type and data, and whether \<open>Err\<close> is nil after the last. \<open>at_string\<close>, \<open>at_uint32\<close> and
  \<open>at_uint64\<close> read one attribute's data; a \<open>None\<close> is an error, which ends the iteration
  and is what \<open>Err\<close> returns.
\<close>

record attr_decoder =
  at_attrs :: "bytes \<Rightarrow> ((nat \<times> bytes) list \<times> bool) option"
  at_string :: "bytes \<Rightarrow> string"
  at_uint32 :: "bytes \<Rightarrow> u32 option"
  at_uint64 :: "bytes \<Rightarrow> u64 option"

text \<open>A loop over attributes: the state after it, or \<open>None\<close> when an accessor or the iteration failed.\<close>

fun attr_fold :: "(nat \<Rightarrow> bytes \<Rightarrow> 's \<Rightarrow> 's option) \<Rightarrow> (nat \<times> bytes) list \<Rightarrow> bool \<Rightarrow> 's \<Rightarrow> 's option" where
  "attr_fold step [] ok s = (if ok then Some s else None)"
| "attr_fold step ((ty, b) # xs) ok s =
     (case step ty b s of None \<Rightarrow> None | Some s' \<Rightarrow> attr_fold step xs ok s')"

definition decode_attrs :: "attr_decoder \<Rightarrow> (nat \<Rightarrow> bytes \<Rightarrow> 's \<Rightarrow> 's option) \<Rightarrow> bytes \<Rightarrow> 's \<Rightarrow> 's option" where
  "decode_attrs d step b s =
     (case at_attrs d b of None \<Rightarrow> None | Some (xs, ok) \<Rightarrow> attr_fold step xs ok s)"

definition xtInfo :: "attr_decoder \<Rightarrow> bytes \<Rightarrow> xt_payload option" where
  "xtInfo d b =
     (case decode_attrs d (\<lambda>ty v p.
          if ty = 1 then Some (p\<lparr>xp_Name := at_string d v\<rparr>)
          else if ty = 2 then map_option (\<lambda>n. p\<lparr>xp_Rev := n\<rparr>) (at_uint32 d v)
          else if ty = 3 then Some (p\<lparr>xp_Info := v\<rparr>)
          else Some p) b \<lparr>xp_Name = [], xp_Rev = 0, xp_Info = []\<rparr> of
        None \<Rightarrow> None
      | Some p \<Rightarrow> if xp_Name p = [] \<or> length (xp_Info p) = 0 then None else Some p)"

text \<open>The state is the variables \<open>kind\<close> and \<open>p\<close>, \<open>found\<close>.\<close>

definition xtFromExpression :: "attr_decoder \<Rightarrow> bytes \<Rightarrow> xt_payload option" where
  "xtFromExpression d b =
     (case decode_attrs d (\<lambda>ty v (kind, p).
          if ty = 1 then Some (at_string d v, p)
          else if ty = 2 then
            (if kind \<noteq> ''match'' \<and> kind \<noteq> ''target'' then Some (kind, p)
             else Some (kind, xtInfo d v))
          else Some (kind, p)) b ([], None) of
        None \<Rightarrow> None
      | Some (kind, p) \<Rightarrow> p)"

definition expressionPayloads :: "attr_decoder \<Rightarrow> bytes \<Rightarrow> xt_payload list" where
  "expressionPayloads d b =
     (case decode_attrs d (\<lambda>ty v out.
          if ty \<noteq> 1 then Some out
          else
            (case xtFromExpression d v of
               Some p \<Rightarrow> Some (out @ [p])
             | None \<Rightarrow> Some out)) b [] of
        None \<Rightarrow> []
      | Some out \<Rightarrow> out)"

fun parseRulePayloads :: "attr_decoder \<Rightarrow> bytes list \<Rightarrow> payloads \<Rightarrow> payloads" where
  "parseRulePayloads d [] out = out"
| "parseRulePayloads d (m # ms) out =
     (if length m < 4 then parseRulePayloads d ms out
      else
        case decode_attrs d (\<lambda>ty v (key, ps).
             if ty = 1 then Some (key\<lparr>rk_Table := at_string d v\<rparr>, ps)
             else if ty = 2 then Some (key\<lparr>rk_Chain := at_string d v\<rparr>, ps)
             else if ty = 3 then map_option (\<lambda>h. (key\<lparr>rk_Handle := h\<rparr>, ps)) (at_uint64 d v)
             else if ty = 4 then Some (key, expressionPayloads d v)
             else Some (key, ps))
           (drop 4 m) (\<lparr>rk_Family = m ! 0, rk_Table = [], rk_Chain = [], rk_Handle = 0\<rparr>, []) of
          None \<Rightarrow> parseRulePayloads d ms out
        | Some (key, ps) \<Rightarrow>
            if rk_Table key = [] \<or> rk_Chain key = [] \<or> length ps = 0 then parseRulePayloads d ms out
            else parseRulePayloads d ms (out(key \<mapsto> ps)))"

definition nftaHookDevs :: nat where "nftaHookDevs = 4"
definition nftaDeviceName :: nat where "nftaDeviceName = 1"

text \<open>
  A nested decoder appends what it visits; its own error is not looked at, and a nested list
  that cannot be decoded adds nothing.
\<close>

definition nested_devices :: "attr_decoder \<Rightarrow> bytes \<Rightarrow> string list" where
  "nested_devices d b =
     (case at_attrs d b of
        None \<Rightarrow> []
      | Some (xs, ok) \<Rightarrow> map (\<lambda>(ty, v). at_string d v) (filter (\<lambda>(ty, v). ty = nftaDeviceName) xs))"

definition hookDevices :: "attr_decoder \<Rightarrow> bytes \<Rightarrow> string list" where
  "hookDevices d b =
     (case decode_attrs d (\<lambda>ty v out.
          if ty = 3 then Some (out @ [at_string d v])
          else if ty = nftaHookDevs then Some (out @ nested_devices d v)
          else Some out) b [] of
        None \<Rightarrow> []
      | Some out \<Rightarrow> out)"

fun parseChainDevices :: "attr_decoder \<Rightarrow> bytes list \<Rightarrow> devices \<Rightarrow> devices" where
  "parseChainDevices d [] out = out"
| "parseChainDevices d (m # ms) out =
     (if length m < 4 then parseChainDevices d ms out
      else
        case decode_attrs d (\<lambda>ty v (key, devs).
             if ty = 1 then Some (key\<lparr>ck_Table := at_string d v\<rparr>, devs)
             else if ty = 3 then Some (key\<lparr>ck_Chain := at_string d v\<rparr>, devs)
             else if ty = 4 then Some (key, hookDevices d v)
             else Some (key, devs))
           (drop 4 m) (\<lparr>ck_Family = m ! 0, ck_Table = [], ck_Chain = []\<rparr>, []) of
          None \<Rightarrow> parseChainDevices d ms out
        | Some (key, devs) \<Rightarrow>
            if ck_Table key = [] \<or> ck_Chain key = [] \<or> length devs = 0 then parseChainDevices d ms out
            else parseChainDevices d ms (out(key \<mapsto> devs)))"

text \<open>A dump: the socket may not open, the request may fail, or messages come back.\<close>

datatype dump = DialError string | ExecuteError string | Messages "bytes list"

definition ChainDevices :: "attr_decoder \<Rightarrow> dump \<Rightarrow> devices \<times> warning list" where
  "ChainDevices d dump =
     (case dump of
        DialError err \<Rightarrow> (Map.empty, [ruleset_warning (''could not open netlink to read chain hook devices ('' @ err @
          ''), so an ingress chain is treated as seeing every packet and may make more verdicts unknown than it should'')])
      | ExecuteError err \<Rightarrow> (Map.empty, [ruleset_warning (''could not read chain hook devices ('' @ err @
          ''), so an ingress chain is treated as seeing every packet and may make more verdicts unknown than it should'')])
      | Messages msgs \<Rightarrow> (parseChainDevices d msgs Map.empty, []))"

definition RulePayloads :: "attr_decoder \<Rightarrow> dump \<Rightarrow> payloads \<times> warning list" where
  "RulePayloads d dump =
     (case dump of
        DialError err \<Rightarrow> (Map.empty, [ruleset_warning (''could not open netlink to read xt payloads ('' @ err @
          ''), so this document cannot be re-evaluated by a later build with a better decoder'')])
      | ExecuteError err \<Rightarrow> (Map.empty, [ruleset_warning (''could not read xt payloads ('' @ err @
          ''), so this document cannot be re-evaluated by a later build with a better decoder'')])
      | Messages msgs \<Rightarrow> (parseRulePayloads d msgs Map.empty, []))"

text \<open>The whole read, from the outcome of \<open>nftables.New\<close> and of the two dumps.\<close>

definition Ruleset ::
  "string + source \<Rightarrow> attr_decoder \<Rightarrow> dump \<Rightarrow> dump \<Rightarrow> ruleset \<times> warning list \<times> string option"
where
  "Ruleset conn d chain_dump rule_dump =
     (case conn of
        Inl err \<Rightarrow> (\<lparr>rs_Tables = [], rs_ReadFailed = True\<rparr>, [], Some (''open netlink: '' @ err))
      | Inr c \<Rightarrow>
          let (devs, devWarns) = ChainDevices d chain_dump;
              (payloads, payloadWarns) = RulePayloads d rule_dump;
              (rs, warns, err) = readRuleset c devs payloads in
          (rs, (devWarns @ payloadWarns) @ warns, err))"

section \<open>The legacy backend\<close>

datatype file_read = NotExist | ReadError string | Content string

definition legacyTableFiles :: "(string \<times> string) list" where
  "legacyTableFiles = [(''net/ip_tables_names'', ''iptables-legacy''), (''net/ip6_tables_names'', ''ip6tables-legacy'')]"

definition legacy_warning :: "(string \<Rightarrow> file_read) \<Rightarrow> string \<times> string \<Rightarrow> warning list" where
  "legacy_warning read_file f =
     (case read_file (fst f) of
        NotExist \<Rightarrow> []
      | ReadError err \<Rightarrow> [ruleset_warning (''could not check /proc/'' @ fst f @ '' for '' @ snd f @ '' rules ('' @ err @
          ''), so whyopen cannot rule out a legacy ruleset it would not see'')]
      | Content b \<Rightarrow>
          let tables = Go_Lib.fields b in
          if length tables = 0 then []
          else [ruleset_warning (snd f @ '' has registered the tables '' @ join '', '' tables @ '' (/proc/'' @ fst f @
            ''). Registering a table is not the same as filling it, and whyopen cannot tell from /proc which of these carry rules: loading the module is enough to create this entry. whyopen reads only the nftables ruleset, so if they do carry rules EVERY verdict below may be incomplete, and a port reported filtered may in fact be open. Check with '' @
            snd f @ '' -S'')])"

definition LegacyBackend :: "(string \<Rightarrow> file_read) \<Rightarrow> warning list" where
  "LegacyBackend read_file = concat (map (legacy_warning read_file) legacyTableFiles)"

end
