(* ===== verification/Collect_Specs.thy ===== *)
theory Collect_Specs
  imports Ruleset_Read Evaluate_Verdicts
begin

text \<open>
  What the collector guarantees about the document it writes: its expressions carry what
  their kind promises, an incomplete read is never taken for a complete one, payload bytes
  go to the extensions they belong to, and decoding a document again is stable.
\<close>

section \<open>Converted expressions are well-formed\<close>

lemma convertExpr_wf: "wf_expr (convertExpr e)"
  by (cases e) (simp_all add: wf_expr_def expr_missing_def expr0_def convertCt_def convertNAT_def
      convertFib_def convertLookup_def unknown_expr_def split: ct_key.split option.split)

lemma convertXt_ident [simp]:
  "xt_Kind (convertXt kind name rv info) = kind"
  "xt_Name (convertXt kind name rv info) = name"
  "xt_Rev (convertXt kind name rv info) = rv"
  by (cases info; simp add: xt0_def with_conntrack_def decodeXtRaw_def Let_def
      split: prod.split option.split)+

lemma attach_other:
  "e_Kind e \<noteq> ExprXt \<or> e_Xt e = None \<Longrightarrow> attachXtPayloads (e # es) ps = e # attachXtPayloads es ps"
  by (auto split: expr_kind.split option.split)

lemma attach_xt:
  "e_Kind e = ExprXt \<Longrightarrow> e_Xt e = Some x \<Longrightarrow>
   attachXtPayloads (e # es) ps =
     (case ps of
        [] \<Rightarrow> e # es
      | p # ps' \<Rightarrow>
          if xp_Name p \<noteq> xt_Name x \<or> xp_Rev p \<noteq> xt_Rev x then e # es
          else (if xt_Raw x = [] then e\<lparr>e_Xt := Some (x\<lparr>xt_Raw := hex_encode (xp_Info p)\<rparr>)\<rparr> else e)
            # attachXtPayloads es ps')"
  by simp

declare attachXtPayloads.simps(2) [simp del]

lemma attach_cases:
  obtains (other) "e_Kind e \<noteq> ExprXt \<or> e_Xt e = None"
  | (xt) x where "e_Kind e = ExprXt" and "e_Xt e = Some x"
  by blast

lemma attachXtPayloads_wf:
  "\<forall>e \<in> set es. wf_expr e \<Longrightarrow> e \<in> set (attachXtPayloads es ps) \<Longrightarrow> wf_expr e"
proof (induction es arbitrary: ps)
  case (Cons e0 es)
  show ?case
  proof (cases e0 rule: attach_cases)
    case other
    with Cons show ?thesis by (auto simp: attach_other)
  next
    case (xt x)
    with Cons show ?thesis
      by (auto simp: attach_xt wf_expr_def expr_missing_def split: list.splits if_splits)
  qed
qed simp

lemma convert_rule_wf: "wf_rule (convert_rule pls t ch r)"
  using attachXtPayloads_wf [of "ConvertExprs (lr_Exprs r)"]
  by (auto simp: wf_rule_def convert_rule_def ConvertExprs_def convertExpr_wf)

lemma read_chains_wf: "c \<in> set (fst (read_chains src devs pls t chs)) \<Longrightarrow> wf_chain c"
  by (induction chs)
     (auto simp: Let_def convert_chain_def wf_chain_def convert_rule_wf
       split: prod.splits if_splits sum.splits)

lemma read_table_wf: "fst (read_table src devs pls t) = Some ft \<Longrightarrow> c \<in> set (t_Chains ft) \<Longrightarrow> wf_chain c"
  using read_chains_wf [of c src devs pls t]
  by (auto simp: read_table_def Let_def split: if_splits prod.splits sum.splits)
     (metis fst_conv)+

lemma read_tables_wf:
  "ft \<in> set (fst (read_tables src devs pls ts)) \<Longrightarrow> c \<in> set (t_Chains ft) \<Longrightarrow> wf_chain c"
proof (induction ts)
  case (Cons t ts)
  then show ?case
    using read_table_wf [of src devs pls t ft c]
    by (auto simp: Let_def split: prod.splits option.splits)
qed simp

lemma readRuleset_wf: "wf_ruleset (fst (readRuleset src devs pls))"
  using read_tables_wf [of _ src devs pls]
  by (auto simp: readRuleset_def wf_ruleset_def Let_def split: sum.splits prod.splits)
     (metis fst_conv)+

lemma Ruleset_wf: "wf_ruleset (fst (Ruleset conn d cd rd))"
  using readRuleset_wf
  by (auto simp: Ruleset_def wf_ruleset_def Let_def split: sum.splits prod.splits)
     (metis fst_conv)+

section \<open>Decoding again\<close>

lemma map_count_map: "map_count f xs = (map (fst \<circ> f) xs, sum_list (map (snd \<circ> f) xs))"
  by (induction xs) (simp_all add: Let_def split: prod.split)

lemma redecodeXt_fix:
  "redecodeXt u fam (fst (redecodeXt u fam x)) = (fst (redecodeXt u fam x), False)"
  by (auto simp: redecodeXt_def Let_def split: option.split sum.split)

lemma redecodeXt_count: "snd (redecodeXt u fam x) \<longleftrightarrow> fst (redecodeXt u fam x) \<noteq> x"
  by (auto simp: redecodeXt_def Let_def split: option.split sum.split)

text \<open>
  A decoding pass, as every level of the document's loops is one: it returns what it rewrote
  and how many changes it made. Its contract is that a second run changes nothing and that
  no change is counted exactly when nothing changed.
\<close>

locale decoding_pass =
  fixes pass :: "'a \<Rightarrow> 'a \<times> nat"
  assumes pass_again: "pass (fst (pass x)) = (fst (pass x), 0)"
    and pass_count: "snd (pass x) = 0 \<longleftrightarrow> fst (pass x) = x"
begin

lemma pass_keeps: "fst (pass (fst (pass x))) = fst (pass x)"
  by (simp add: pass_again)

lemma list_again: "map_count pass (fst (map_count pass xs)) = (fst (map_count pass xs), 0)"
  by (simp add: map_count_map pass_again comp_def)

lemma list_count: "snd (map_count pass xs) = 0 \<longleftrightarrow> fst (map_count pass xs) = xs"
  by (induction xs) (auto simp: map_count_map pass_count)

end

lemma redecode_expr_alt:
  "redecode_expr u fam e =
     (if e_Kind e \<noteq> ExprXt then (e, 0)
      else
        case e_Xt e of
          None \<Rightarrow> (e, 0)
        | Some x \<Rightarrow> (e\<lparr>e_Xt := Some (fst (redecodeXt u fam x))\<rparr>, if snd (redecodeXt u fam x) then 1 else 0))"
  by (simp add: redecode_expr_def split: prod.split option.split)

interpretation expr_pass: decoding_pass "redecode_expr u fam" for u fam
proof
  fix e
  show "redecode_expr u fam (fst (redecode_expr u fam e)) = (fst (redecode_expr u fam e), 0)"
    by (cases "e_Xt e") (auto simp: redecode_expr_alt redecodeXt_fix)
  show "snd (redecode_expr u fam e) = 0 \<longleftrightarrow> fst (redecode_expr u fam e) = e"
    by (cases e) (auto simp: redecode_expr_alt redecodeXt_count split: option.split)
qed

text \<open>A pass over the list in one field of a record is again a pass.\<close>

lemma field_pass:
  assumes "decoding_pass (map_count f)"
    and p: "\<And>x. p x = (upd (fst (map_count f (get x))) x, snd (map_count f (get x)))"
    and "\<And>x v. get (upd v x) = v" and "\<And>x v w. upd v (upd w x) = upd v x"
    and "\<And>x. upd (get x) x = x"
  shows "decoding_pass p"
proof
  fix x
  show "p (fst (p x)) = (fst (p x), 0)"
    using decoding_pass.pass_again [OF assms(1)] by (simp add: p assms)
  show "snd (p x) = 0 \<longleftrightarrow> fst (p x) = x"
    using decoding_pass.pass_count [OF assms(1), of "get x"] by (simp add: p) (metis assms(3,5))
qed

lemmas redecode_levels = redecode_rule_def redecode_chain_def redecode_table_def Redecode_def

lemma list_pass:
  assumes "decoding_pass p" shows "decoding_pass (map_count p)"
  using assms by unfold_locales (simp_all add: decoding_pass.list_again decoding_pass.list_count)

interpretation rule_pass: decoding_pass "redecode_rule u fam" for u fam
  by (rule field_pass [where f = "redecode_expr u fam" and get = r_Exprs and upd = "\<lambda>v. r_Exprs_update (\<lambda>_. v)"])
     (simp_all add: redecode_rule_def list_pass expr_pass.decoding_pass_axioms split: prod.split)

interpretation chain_pass: decoding_pass "redecode_chain u fam" for u fam
  by (rule field_pass [where f = "redecode_rule u fam" and get = ch_Rules and upd = "\<lambda>v. ch_Rules_update (\<lambda>_. v)"])
     (simp_all add: redecode_chain_def list_pass rule_pass.decoding_pass_axioms split: prod.split)

interpretation table_pass: decoding_pass "redecode_table u" for u
proof
  fix t
  have again: "decoding_pass (map_count (redecode_chain u (t_Family t)))" for t
    by (simp add: list_pass chain_pass.decoding_pass_axioms)
  show "redecode_table u (fst (redecode_table u t)) = (fst (redecode_table u t), 0)"
    using decoding_pass.pass_again [OF again, of t "t_Chains t"]
    by (auto simp: redecode_table_def Let_def split: prod.splits)
  show "snd (redecode_table u t) = 0 \<longleftrightarrow> fst (redecode_table u t) = t"
    using decoding_pass.pass_count [OF again, of t "t_Chains t"]
    by (cases t) (auto simp: redecode_table_def Let_def split: prod.splits)
qed

lemma Redecode_pass: "decoding_pass (Redecode u)"
proof
  fix f
  have ts: "decoding_pass (map_count (redecode_table u))"
    by (simp add: list_pass table_pass.decoding_pass_axioms)
  show "Redecode u (fst (Redecode u f)) = (fst (Redecode u f), 0)"
    using decoding_pass.pass_again [OF ts, of "rs_Tables (f_Ruleset f)"]
    by (auto simp: Redecode_def Let_def split: prod.splits)
  show "snd (Redecode u f) = 0 \<longleftrightarrow> fst (Redecode u f) = f"
    using decoding_pass.pass_count [OF ts, of "rs_Tables (f_Ruleset f)"]
    by (cases f; cases "f_Ruleset f") (auto simp: Redecode_def Let_def split: prod.splits)
qed

interpretation document_pass: decoding_pass "Redecode u" for u
  by (rule Redecode_pass)

lemma redecode_expr_wf: "wf_expr (fst (redecode_expr u fam e)) = wf_expr e"
  by (cases "e_Xt e") (simp_all add: redecode_expr_alt wf_expr_def expr_missing_def split: expr_kind.split)

lemma redecode_rule_wf: "wf_rule (fst (redecode_rule u fam r)) = wf_rule r"
  by (simp add: redecode_rule_def wf_rule_def map_count_map redecode_expr_wf)

lemma redecode_chain_wf: "wf_chain (fst (redecode_chain u fam c)) = wf_chain c"
  by (simp add: redecode_chain_def wf_chain_def map_count_map redecode_rule_wf)

lemma redecode_table_chains: "t_Chains (fst (redecode_table u t)) = map (fst \<circ> redecode_chain u (t_Family t)) (t_Chains t)"
  by (simp add: redecode_table_def map_count_map)

lemma Redecode_wf: "wf_ruleset (f_Ruleset (fst (Redecode u f))) = wf_ruleset (f_Ruleset f)"
  by (simp add: Redecode_def wf_ruleset_def map_count_map redecode_table_chains redecode_chain_wf)

text \<open>Supporting (Redecode_stable): decoding a document again changes a document once: a second run with the
  same decoders finds nothing, the count it reports is zero exactly when it changed nothing, and
  the document validates after it exactly when it did before.\<close>

theorem Redecode_stable:
  "Redecode u (fst (Redecode u f)) = (fst (Redecode u f), 0)
   \<and> (snd (Redecode u f) = 0 \<longleftrightarrow> fst (Redecode u f) = f)
   \<and> (Validate (fst (Redecode u f)) = None \<longleftrightarrow> Validate f = None)"
  by (simp add: document_pass.pass_again document_pass.pass_count Validate_wf Redecode_wf)

text \<open>Supporting (collected_validates): a ruleset the collector read, from whatever the kernel and the library
  answered, validates, and still does after its extensions were decoded again: the evaluator
  can dereference no nil object in a document of this build.\<close>

theorem collected_validates:
  "Validate (f\<lparr>f_Ruleset := fst (Ruleset conn d cd rd)\<rparr>) = None
   \<and> Validate (fst (Redecode u (f\<lparr>f_Ruleset := fst (Ruleset conn d cd rd)\<rparr>))) = None"
  by (simp add: Validate_wf Redecode_wf Ruleset_wf)

section \<open>An incomplete read\<close>

definition answered :: "string + 'a \<Rightarrow> bool" where
  "answered x \<longleftrightarrow> (case x of Inl err \<Rightarrow> False | Inr v \<Rightarrow> True)"

definition answer :: "string + 'a list \<Rightarrow> 'a list" where
  "answer x = (case x of Inl err \<Rightarrow> [] | Inr v \<Rightarrow> v)"

definition table_answered :: "source \<Rightarrow> lib_table \<Rightarrow> bool" where
  "table_answered c t \<longleftrightarrow>
     answered (GetSets c t) \<and> (\<forall>s \<in> set (answer (GetSets c t)). answered (GetSetElements c s))
     \<and> answered (ListChainsOfTableFamily c (lt_Family t))
     \<and> (\<forall>ch \<in> set (filter (chain_of_table t) (answer (ListChainsOfTableFamily c (lt_Family t)))).
          answered (GetRules c t ch))"

definition walked_tables :: "source \<Rightarrow> lib_table list" where
  "walked_tables c = filter (\<lambda>t. read_family (FamilyName (lt_Family t))) (answer (ListTables c))"

text \<open>Every call the read makes is answered.\<close>

definition source_answers :: "source \<Rightarrow> bool" where
  "source_answers c \<longleftrightarrow> answered (ListTables c) \<and> (\<forall>t \<in> set (walked_tables c). table_answered c t)"

text \<open>The ruleset of a read in which nothing failed: every table, chain, rule and set, in order.\<close>

definition whole_table :: "source \<Rightarrow> devices \<Rightarrow> payloads \<Rightarrow> lib_table \<Rightarrow> table" where
  "whole_table c devs pls t =
     \<lparr>t_Family = FamilyName (lt_Family t), t_Name = lt_Name t,
      t_Chains = map (\<lambda>ch. convert_chain devs pls t ch (answer (GetRules c t ch)))
        (filter (chain_of_table t) (answer (ListChainsOfTableFamily c (lt_Family t)))),
      t_Sets = map (\<lambda>s. convertSet s (answer (GetSetElements c s))) (answer (GetSets c t))\<rparr>"

definition whole_ruleset :: "source \<Rightarrow> devices \<Rightarrow> payloads \<Rightarrow> ruleset" where
  "whole_ruleset c devs pls = \<lparr>rs_Tables = map (whole_table c devs pls) (walked_tables c), rs_ReadFailed = False\<rparr>"

lemma answered_simps [simp]:
  "\<not> answered (Inl err)" "answered (Inr v)" "answer (Inl err) = []" "answer (Inr vs) = vs"
  by (simp_all add: answered_def answer_def)

lemma answered_cases: obtains err where "x = Inl err" | v where "x = Inr v"
  by (cases x) auto

text \<open>A read of a list of calls: complete without warnings, or failed with some.\<close>

definition all_read :: "'a list \<times> warning list \<times> bool \<Rightarrow> bool \<Rightarrow> 'a list \<Rightarrow> bool" where
  "all_read r ok whole \<longleftrightarrow>
     (case r of (out, warns, failed) \<Rightarrow> (failed \<longleftrightarrow> \<not> ok) \<and> (warns = [] \<longleftrightarrow> ok) \<and> (ok \<longrightarrow> out = whole))"

lemma read_sets_all:
  "all_read (read_sets c t fam ss) (\<forall>s \<in> set ss. answered (GetSetElements c s))
     (map (\<lambda>s. convertSet s (answer (GetSetElements c s))) ss)"
  by (induction ss) (auto simp: all_read_def Let_def split: prod.splits sum.splits)

lemma readSets_all:
  "all_read (readSets c t fam)
     (answered (GetSets c t) \<and> (\<forall>s \<in> set (answer (GetSets c t)). answered (GetSetElements c s)))
     (map (\<lambda>s. convertSet s (answer (GetSetElements c s))) (answer (GetSets c t)))"
  using read_sets_all [of c t fam "answer (GetSets c t)"]
  by (cases "GetSets c t") (simp_all add: readSets_def all_read_def)

lemma read_chains_all:
  "all_read (read_chains c devs pls t chs) (\<forall>ch \<in> set (filter (chain_of_table t) chs). answered (GetRules c t ch))
     (map (\<lambda>ch. convert_chain devs pls t ch (answer (GetRules c t ch))) (filter (chain_of_table t) chs))"
  by (induction chs) (auto simp: all_read_def Let_def split: prod.splits sum.splits)

lemma read_table_skipped:
  "\<not> read_family (FamilyName (lt_Family t)) \<Longrightarrow> read_table c devs pls t = (None, [], False)"
  by (simp add: read_table_def Let_def)

lemma read_table_all:
  assumes "read_family (FamilyName (lt_Family t))"
  shows "\<exists>out warns failed. read_table c devs pls t = (out, warns, failed)
    \<and> (failed \<longleftrightarrow> \<not> table_answered c t) \<and> (warns = [] \<longleftrightarrow> table_answered c t)
    \<and> (table_answered c t \<longrightarrow> out = Some (whole_table c devs pls t))"
proof -
  obtain sets sw sf where s: "readSets c t (FamilyName (lt_Family t)) = (sets, sw, sf)" by (metis prod_cases3)
  note sa = readSets_all [of c t "FamilyName (lt_Family t)", unfolded s]
  show ?thesis
  proof (cases "ListChainsOfTableFamily c (lt_Family t)")
    case (Inl err)
    then show ?thesis using assms by (auto simp: read_table_def s table_answered_def)
  next
    case (Inr chs)
    obtain out warns failed where r: "read_chains c devs pls t chs = (out, warns, failed)" by (metis prod_cases3)
    note ra = read_chains_all [of c devs pls t chs, unfolded r]
    show ?thesis
      using sa ra Inr assms
      by (auto simp: read_table_def s r table_answered_def whole_table_def all_read_def)
  qed
qed

lemma read_tables_all:
  "all_read (read_tables c devs pls ts)
     (\<forall>t \<in> set (filter (\<lambda>t. read_family (FamilyName (lt_Family t))) ts). table_answered c t)
     (map (whole_table c devs pls) (filter (\<lambda>t. read_family (FamilyName (lt_Family t))) ts))"
proof (induction ts)
  case Nil
  then show ?case by (simp add: all_read_def)
next
  case (Cons t ts)
  show ?case
  proof (cases "read_family (FamilyName (lt_Family t))")
    case False
    with Cons show ?thesis by (simp add: read_table_skipped split: prod.split)
  next
    case True
    from read_table_all [OF this, of c devs pls] Cons True show ?thesis
      by (auto simp: all_read_def Let_def split: prod.splits)
  qed
qed

lemma readRuleset_all:
  "(\<not> rs_ReadFailed (fst (readRuleset c devs pls)) \<longleftrightarrow> source_answers c)
   \<and> (readRuleset c devs pls = (whole_ruleset c devs pls, [], None) \<longleftrightarrow> source_answers c)
   \<and> (fst (snd (readRuleset c devs pls)) = [] \<and> snd (snd (readRuleset c devs pls)) = None \<longleftrightarrow> source_answers c)"
proof (cases "ListTables c")
  case (Inl err)
  then show ?thesis by (simp add: readRuleset_def source_answers_def whole_ruleset_def)
next
  case (Inr ts)
  obtain out warns failed where r: "read_tables c devs pls ts = (out, warns, failed)" by (metis prod_cases3)
  show ?thesis
    using read_tables_all [of c devs pls ts, unfolded r] Inr
    by (auto simp: readRuleset_def r source_answers_def whole_ruleset_def walked_tables_def all_read_def)
qed


lemma Ruleset_Inr:
  "fst (Ruleset (Inr c) d cd rd) = fst (readRuleset c (fst (ChainDevices d cd)) (fst (RulePayloads d rd)))"
  by (simp add: Ruleset_def split: prod.split)

text \<open>C31 (confident_verdict_whole_ruleset): a verdict other than unknown rests on a ruleset that was read
  whole: netlink opened, every call was answered, and the rules evaluated are all of the
  kernel's, with the devices and payloads the two dumps gave.\<close>

theorem confident_verdict_whole_ruleset:
  assumes "Evaluate shuffle (f\<lparr>f_Ruleset := fst (Ruleset conn d cd rd)\<rparr>) zone = Some vs"
    and "v \<in> set vs" and "v_Result v \<noteq> ''unknown''"
  shows "\<exists>c. conn = Inr c \<and> source_answers c
    \<and> fst (Ruleset conn d cd rd) = whole_ruleset c (fst (ChainDevices d cd)) (fst (RulePayloads d rd))"
proof -
  have "\<not> rs_ReadFailed (fst (Ruleset conn d cd rd))"
  proof
    assume "rs_ReadFailed (fst (Ruleset conn d cd rd))"
    with Evaluate_row [OF assms(1,2)] have "v = unread_verdict (v_Endpoint v) (v_Family v)"
      by (simp add: evaluate_family_def)
    with assms(3) show False by (metis unread_result)
  qed
  moreover from this obtain c where c: "conn = Inr c"
    by (cases conn) (simp_all add: Ruleset_def)
  ultimately have "source_answers c"
    by (simp add: Ruleset_Inr readRuleset_all)
  then have "fst (Ruleset conn d cd rd) = whole_ruleset c (fst (ChainDevices d cd)) (fst (RulePayloads d rd))"
    using readRuleset_all by (metis Ruleset_Inr c fst_conv)
  with c \<open>source_answers c\<close> show ?thesis by blast
qed

definition empty_source :: source where
  "empty_source = \<lparr>ListTables = Inr [], ListChainsOfTableFamily = (\<lambda>f. Inr []), GetRules = (\<lambda>t c. Inr []),
     GetSets = (\<lambda>t. Inr []), GetSetElements = (\<lambda>s. Inr [])\<rparr>"

definition no_attrs :: attr_decoder where
  "no_attrs = \<lparr>at_attrs = (\<lambda>b. None), at_string = (\<lambda>b. []), at_uint32 = (\<lambda>b. None), at_uint64 = (\<lambda>b. None)\<rparr>"

lemma open_facts_collected:
  "open_facts\<lparr>f_Ruleset := fst (Ruleset (Inr empty_source) no_attrs (Messages []) (Messages []))\<rparr> = open_facts"
  by (simp add: Ruleset_def readRuleset_def empty_source_def ChainDevices_def RulePayloads_def
      open_facts_def facts_of_def)

theorem confident_verdict_whole_ruleset_witness:
  "\<exists>c. (Inr empty_source :: string + source) = Inr c \<and> source_answers c
    \<and> fst (Ruleset (Inr empty_source) no_attrs (Messages []) (Messages [])) =
      whole_ruleset c (fst (ChainDevices no_attrs (Messages []))) (fst (RulePayloads no_attrs (Messages [])))"
proof (rule open_row)
  fix vs v
  assume v: "Evaluate rev open_facts InternetZone = Some vs" "v \<in> set vs" "v_Family v = ''ip''"
    "v_Endpoint v = socket_endpoint (hd (f_Sockets open_facts))"
  have "bindCovers (ep_BindIP (v_Endpoint v)) a" for a
    by (simp add: bindCovers_def v(4) socket_endpoint_def open_facts_def)
  then have "v_Result v = ''reachable''"
    using v(3,4) open_admitted open_addrs
    by (simp add: reachable_row [OF v(1,2)]) (simp add: open_facts_def facts_of_def)
  then show ?thesis
    using confident_verdict_whole_ruleset
      [where conn = "Inr empty_source" and d = no_attrs and cd = "Messages []" and rd = "Messages []"
        and f = open_facts, OF _ v(2)]
      v(1) unfolding open_facts_collected by simp
qed

end
