(* ===== verification/Nftconv_Specs.thy ===== *)
theory Nftconv_Specs
  imports Collect_Specs
begin

text \<open>
  What the decoding of extensions means: payload bytes are attached to the extensions they
  belong to, a document decoded again by the build that collected it does not change, the two
  spellings of a connection-state condition agree, and an extension is decoded only when all
  it asks is carried over.
\<close>

section \<open>Attaching payload bytes\<close>

definition xts_of :: "expr list \<Rightarrow> xt_expr list" where
  "xts_of es = List.map_filter (\<lambda>e. if e_Kind e = ExprXt then e_Xt e else None) es"

definition without_raw :: "expr \<Rightarrow> expr" where
  "without_raw e =
     (if e_Kind e = ExprXt then e\<lparr>e_Xt := map_option (\<lambda>x. x\<lparr>xt_Raw := []\<rparr>) (e_Xt e)\<rparr> else e)"

definition same_ext :: "xt_expr \<times> xt_payload \<Rightarrow> bool" where
  "same_ext = (\<lambda>(x, p). xp_Name p = xt_Name x \<and> xp_Rev p = xt_Rev x)"

definition with_bytes :: "xt_expr \<times> xt_payload \<Rightarrow> xt_expr" where
  "with_bytes = (\<lambda>(x, p). if xt_Raw x = [] then x\<lparr>xt_Raw := hex_encode (xp_Info p)\<rparr> else x)"

lemma xts_of_simps [simp]:
  "xts_of [] = []"
  "e_Kind e \<noteq> ExprXt \<or> e_Xt e = None \<Longrightarrow> xts_of (e # es) = xts_of es"
  "e_Kind e = ExprXt \<Longrightarrow> e_Xt e = Some x \<Longrightarrow> xts_of (e # es) = x # xts_of es"
  by (auto simp: xts_of_def List.map_filter_def)

text \<open>Supporting (attach_by_position): the extensions of a rule get the payloads in order, each of its own name
  and revision, up to the first that disagrees, and no further; bytes already there stay, and
  nothing else of any expression changes.\<close>

theorem attach_by_position:
  "map without_raw (attachXtPayloads es ps) = map without_raw es
   \<and> xts_of (attachXtPayloads es ps) =
      (let paired = takeWhile same_ext (zip (xts_of es) ps) in
       map with_bytes paired @ drop (length paired) (xts_of es))"
proof (induction es arbitrary: ps)
  case Nil
  then show ?case by simp
next
  case (Cons e es)
  show ?case
  proof (cases e rule: attach_cases)
    case other
    with Cons [of ps] show ?thesis by (simp add: attach_other)
  next
    case (xt x)
    show ?thesis
    proof (cases ps)
      case Nil
      with xt show ?thesis by (simp add: attach_xt)
    next
      case (Cons p ps')
      with xt Cons.IH [of ps'] show ?thesis
        by (auto simp: attach_xt same_ext_def with_bytes_def without_raw_def Let_def)
    qed
  qed
qed

section \<open>Decoding what this build collected\<close>

text \<open>An extension as the library hands it over.\<close>

fun lib_xt :: "nft_any \<Rightarrow> (string \<times> u32 \<times> xt_info) option" where
  "lib_xt (LibMatch name rv info) = Some (name, rv, info)"
| "lib_xt (LibTarget name rv info) = Some (name, rv, info)"
| "lib_xt e = None"

text \<open>
  The library typed the extension from the payload with the same \<open>xt.Unmarshal\<close> the document
  is decoded with, and its untyped form is the payload itself.
\<close>

definition typed_by :: "xt_unmarshal \<Rightarrow> string \<Rightarrow> string \<times> u32 \<times> xt_info \<Rightarrow> xt_payload \<Rightarrow> bool" where
  "typed_by u fam = (\<lambda>(name, rv, info) p.
     xp_Name p = name \<and> xp_Rev p = rv \<and> u name (xtFamily fam) rv (xp_Info p) = Inr info
     \<and> (case info of XtUnknown raw \<Rightarrow> raw = xp_Info p | _ \<Rightarrow> True))"

lemma convertXt_raw:
  "xt_Raw (convertXt kind name rv info) = (case info of XtUnknown raw \<Rightarrow> hex_encode raw | _ \<Rightarrow> [])"
  by (cases info) (simp_all add: xt0_def with_conntrack_def decodeXtRaw_def Let_def
      split: prod.split option.split)

lemma redecode_typed:
  assumes "typed_by u fam (name, rv, info) p"
  shows "redecodeXt u fam (with_bytes (convertXt kind name rv info, p)) = (with_bytes (convertXt kind name rv info, p), False)"
proof -
  let ?x = "with_bytes (convertXt kind name rv info, p)"
  have raw: "xt_Raw ?x = hex_encode (xp_Info p)"
    using assms convertXt_raw [of kind name rv info]
    by (cases info) (auto simp: with_bytes_def typed_by_def simp del: convertXt.simps)
  have "(convertXt kind name rv info)\<lparr>xt_Raw := xt_Raw ?x\<rparr> = ?x"
    by (simp add: with_bytes_def)
  moreover have "xt_Kind ?x = kind" "xt_Name ?x = name" "xt_Rev ?x = rv"
    by (simp_all add: with_bytes_def)
  ultimately show ?thesis
    using assms raw by (simp add: redecodeXt_def typed_by_def hex_decode_encode)
qed

lemma lib_xt_convert:
  "lib_xt e = None \<Longrightarrow> e_Kind (convertExpr e) \<noteq> ExprXt"
  "lib_xt e = Some (name, rv, info) \<Longrightarrow>
     \<exists>kind. convertExpr e = (expr0 ExprXt)\<lparr>e_Xt := Some (convertXt kind name rv info)\<rparr>"
  by (cases e; auto simp: expr0_def convertCt_def convertNAT_def convertFib_def convertLookup_def
      unknown_expr_def split: ct_key.split option.split)+

lemma redecode_other: "e_Kind e \<noteq> ExprXt \<Longrightarrow> redecode_expr u fam e = (e, 0)"
  by (simp add: redecode_expr_def)

lemma redecode_attached:
  assumes "list_all2 (typed_by u fam) (List.map_filter lib_xt es) ps"
    and "e \<in> set (attachXtPayloads (ConvertExprs es) ps)"
  shows "redecode_expr u fam e = (e, 0)"
  using assms
proof (induction es arbitrary: ps)
  case Nil
  then show ?case by (simp add: ConvertExprs_def)
next
  case (Cons l es)
  show ?case
  proof (cases "lib_xt l")
    case None
    with Cons show ?thesis
      by (auto simp: ConvertExprs_def attach_other lib_xt_convert(1) redecode_other List.map_filter_def)
  next
    case (Some y)
    obtain name rv info where y: "y = (name, rv, info)" by (metis prod_cases3)
    from lib_xt_convert(2) [OF Some [unfolded y]] obtain kind
      where k: "convertExpr l = (expr0 ExprXt)\<lparr>e_Xt := Some (convertXt kind name rv info)\<rparr>" by blast
    from Cons.prems(1) Some y obtain p ps' where ps: "ps = p # ps'" "typed_by u fam (name, rv, info) p"
      "list_all2 (typed_by u fam) (List.map_filter lib_xt es) ps'"
      by (auto simp: List.map_filter_def list_all2_Cons1)
    have x: "e_Kind (convertExpr l) = ExprXt" "e_Xt (convertExpr l) = Some (convertXt kind name rv info)"
      by (simp_all add: k expr0_def)
    have same: "(convertExpr l)\<lparr>e_Xt := Some (convertXt kind name rv info)\<rparr> = convertExpr l"
      by (simp add: k)
    have "attachXtPayloads (ConvertExprs (l # es)) ps =
        (convertExpr l)\<lparr>e_Xt := Some (with_bytes (convertXt kind name rv info, p))\<rparr>
        # attachXtPayloads (ConvertExprs es) ps'"
      using ps(2) by (simp add: ps(1) ConvertExprs_def attach_xt [OF x] typed_by_def with_bytes_def same)
    with Cons.prems(2) Cons.IH [OF ps(3)] redecode_typed [OF ps(2), of kind] show ?thesis
      by (auto simp: redecode_expr_def x(1))
  qed
qed

lemma map_count_id: "\<forall>x \<in> set xs. f x = (x, 0) \<Longrightarrow> map_count f xs = (xs, 0)"
  by (induction xs) simp_all

text \<open>The payloads the dump gave each rule are those the library typed its extensions from.\<close>

definition payloads_typed :: "xt_unmarshal \<Rightarrow> source \<Rightarrow> payloads \<Rightarrow> bool" where
  "payloads_typed u c pls \<longleftrightarrow>
     (\<forall>t \<in> set (walked_tables c).
        \<forall>ch \<in> set (filter (chain_of_table t) (answer (ListChainsOfTableFamily c (lt_Family t)))).
          \<forall>r \<in> set (answer (GetRules c t ch)).
            list_all2 (typed_by u (FamilyName (lt_Family t))) (List.map_filter lib_xt (lr_Exprs r))
              (at_key pls \<lparr>rk_Family = lt_Family t, rk_Table = lt_Name t, rk_Chain = lc_Name ch,
                           rk_Handle = lr_Handle r\<rparr>))"

text \<open>C36 (redecode_collected): decoding again a document of this build, whose payload dump gave every
  extension the bytes the library typed it from, changes nothing: the kept bytes reproduce
  exactly what the evaluator was given when the host was read.\<close>

theorem redecode_collected:
  assumes "f_Ruleset f = whole_ruleset c devs pls" and "payloads_typed u c pls"
  shows "Redecode u f = (f, 0)"
proof -
  have rule: "redecode_rule u (FamilyName (lt_Family t)) (convert_rule pls t ch r) = (convert_rule pls t ch r, 0)"
    if "t \<in> set (walked_tables c)" "ch \<in> set (filter (chain_of_table t) (answer (ListChainsOfTableFamily c (lt_Family t))))"
      "r \<in> set (answer (GetRules c t ch))" for t ch r
  proof -
    let ?es = "r_Exprs (convert_rule pls t ch r)"
    have "redecode_expr u (FamilyName (lt_Family t)) e = (e, 0)" if "e \<in> set ?es" for e
      using that \<open>t \<in> _\<close> \<open>ch \<in> _\<close> \<open>r \<in> _\<close> assms(2)
      by (auto simp: convert_rule_def payloads_typed_def intro!: redecode_attached)
    then have "map_count (redecode_expr u (FamilyName (lt_Family t))) ?es = (?es, 0)"
      by (simp add: map_count_id)
    then show ?thesis by (simp add: redecode_rule_def)
  qed
  have chain: "redecode_chain u (FamilyName (lt_Family t)) (convert_chain devs pls t ch (answer (GetRules c t ch)))
      = (convert_chain devs pls t ch (answer (GetRules c t ch)), 0)"
    if "t \<in> set (walked_tables c)" "ch \<in> set (filter (chain_of_table t) (answer (ListChainsOfTableFamily c (lt_Family t))))" for t ch
    using rule [OF that] by (simp add: redecode_chain_def convert_chain_def map_count_id)
  have "redecode_table u (whole_table c devs pls t) = (whole_table c devs pls t, 0)" if "t \<in> set (walked_tables c)" for t
    using chain [OF that] by (simp add: redecode_table_def whole_table_def map_count_id)
  with assms(1) show ?thesis
    by (simp add: Redecode_def whole_ruleset_def map_count_id)
qed

text \<open>A host with one rule, on a new connection, and the bytes of its match.\<close>

definition ct_table :: lib_table where
  "ct_table = \<lparr>lt_Family = TableFamilyINet, lt_Name = ''filter''\<rparr>"

definition ct_chain :: lib_chain where
  "ct_chain = \<lparr>lc_Table = ct_table, lc_Name = ''in'', lc_Hooknum = Some 1, lc_Priority = Some 0, lc_Policy = Some 1\<rparr>"

definition ct_source :: source where
  "ct_source = \<lparr>ListTables = Inr [ct_table], ListChainsOfTableFamily = (\<lambda>f. Inr [ct_chain]),
     GetRules = (\<lambda>t c. Inr [\<lparr>lr_Handle = 4,
       lr_Exprs = [LibMatch ''conntrack'' 3 (XtConntrackMtinfo3 1 0 8), LibVerdict VerdictAccept []]\<rparr>]),
     GetSets = (\<lambda>t. Inr []), GetSetElements = (\<lambda>s. Inr [])\<rparr>"

definition ct_payloads :: payloads where
  "ct_payloads = [\<lparr>rk_Family = TableFamilyINet, rk_Table = ''filter'', rk_Chain = ''in'', rk_Handle = 4\<rparr>
     \<mapsto> [\<lparr>xp_Name = ''conntrack'', xp_Rev = 3, xp_Info = [8, 0, 1]\<rparr>]]"

definition ct_unmarshal :: xt_unmarshal where
  "ct_unmarshal name fam rv info = (if info = [8, 0, 1] then Inr (XtConntrackMtinfo3 1 0 8) else Inl ''short'')"

definition ct_facts :: facts where
  "ct_facts = open_facts\<lparr>f_Ruleset := whole_ruleset ct_source Map.empty ct_payloads\<rparr>"

theorem redecode_collected_witness: "Redecode ct_unmarshal ct_facts = (ct_facts, 0)"
  by (rule redecode_collected [where c = ct_source and devs = Map.empty and pls = ct_payloads])
     (simp_all add: ct_facts_def payloads_typed_def walked_tables_def ct_source_def ct_table_def
        ct_payloads_def at_key_def typed_by_def ct_unmarshal_def List.map_filter_def ct_chain_def)

section \<open>Connection states\<close>

text \<open>
  \<open>ct state\<close> as nft compiles it (a mask of state bits and a comparison with zero), and the
  iptables-nft match of the same mask; both converted by the collector.
\<close>

definition ct_state_native :: "bool \<Rightarrow> u16 \<Rightarrow> nft_any list" where
  "ct_state_native neg m = [LibCt False CtKeySTATE 1, LibBitwise 1 1 4 (le_put32 (ucast m)) [0, 0, 0, 0],
     LibCmp (if neg then CmpOpEq else CmpOpNeq) 1 [0, 0, 0, 0]]"

definition ct_state_xt :: "u16 \<Rightarrow> u16 \<Rightarrow> u16 \<Rightarrow> nft_any list" where
  "ct_state_xt mf iv m = [LibMatch ''conntrack'' 3 (XtConntrackMtinfo3 mf iv m)]"

definition rule_of :: "nft_any list \<Rightarrow> verdict_kind \<Rightarrow> string \<Rightarrow> rule" where
  "rule_of es k c = \<lparr>r_Handle = 1, r_Exprs = ConvertExprs (es @ [LibVerdict k c])\<rparr>"

lemma and_bit_8: "(8 AND (ucast m :: byte) = 0) \<longleftrightarrow> ((m :: u16) AND 8 = 0)"
proof -
  have "(8 AND (ucast m :: byte) = 0) \<longleftrightarrow> \<not> bit (ucast m :: byte) 3"
    using and_exp_eq_0_iff_not_bit [of "ucast m :: byte" 3] by (simp add: and.commute)
  also have "\<dots> \<longleftrightarrow> \<not> bit m 3" by (simp add: bit_ucast_iff)
  also have "\<dots> \<longleftrightarrow> m AND 8 = 0" using and_exp_eq_0_iff_not_bit [of m 3] by simp
  finally show ?thesis .
qed

lemma ct_native_decides:
  assumes "p_CtState pkt = ''new''"
  shows "MatchRule pkt (rule_of (ct_state_native neg m) k c) sets =
    decided ((m AND 8 \<noteq> 0) \<noteq> neg) (verdict_action (verdictKindName k) c)"
proof -
  have new: "le_put32 ctStateNewBit = [8, 0, 0, 0]"
    by (simp add: le_put32_def ctStateNewBit_def)
  have low: "ucast (ucast m :: u32) = (ucast m :: byte)"
    by (auto simp: bit_eq_iff bit_ucast_iff)
  have masked: "map (\<lambda>i. ([8, 0, 0, 0] ! i AND le_put32 (ucast m) ! i) XOR [0, 0, 0, 0] ! i) [0..<4]
      = [8 AND ucast m, 0, 0, (0 :: byte)]"
    by (simp add: le_put32_def upt_rec numeral_eq_Suc low)
  have zero: "bytes_compare [8 AND ucast m, 0, 0, 0] [0, 0, 0, 0] = 0 \<longleftrightarrow> m AND 8 = 0"
    by (simp only: bytes_compare_eq_0) (simp add: and_bit_8)
  show ?thesis
    using assms masked zero
    by (cases neg)
       (simp_all add: MatchRule_def rule_of_def ct_state_native_def ConvertExprs_def convertCt_def expr0_def
        match_expr_def match_ct_def load_def ctBytes_def new match_bitwise_def match_cmp_def hex_decode_encode
        decided_def verdict_action_def cmp_holds_def Let_def)
qed

lemma ct_xt_states:
  "''new'' \<in> set (map snd (filter (\<lambda>s. m AND fst s \<noteq> 0) ctStateNames)) \<longleftrightarrow> m AND 8 \<noteq> 0"
  by (simp add: ctStateNames_def ctStateNew_def ctStateInvalid_def ctStateEstablished_def ctStateRelated_def)

lemma ct_xt_decides:
  assumes "p_CtState pkt = ''new''" and "mf AND 1 \<noteq> 0" and "mf AND NOT 0x2001 = 0"
  shows "MatchRule pkt (rule_of (ct_state_xt mf iv m) k c) sets =
    decided ((m AND 8 \<noteq> 0) \<noteq> (iv AND 1 \<noteq> 0)) (verdict_action (verdictKindName k) c)"
proof -
  have hit: "xtExpr pkt (convertXt ''match'' ''conntrack'' 3 (XtConntrackMtinfo3 mf iv m)) =
      hit_outcome ((m AND 8 \<noteq> 0) \<noteq> (iv AND 1 \<noteq> 0))"
    using assms ct_xt_states [of m]
    by (simp add: xtExpr_def xt_conntrack_match_def with_conntrack_def conntrack_def xtConntrackStateFlag_def
        xtConntrackStateAliasFlag_def xt0_def Let_def)
  show ?thesis
    by (simp add: MatchRule_def rule_of_def ct_state_xt_def ConvertExprs_def expr0_def match_expr_def match_xt_def
        hit hit_outcome_def decided_def verdict_action_def del: convertXt.simps)
qed

lemma ct_xt_undecoded:
  assumes "mf AND NOT 0x2001 \<noteq> 0"
  shows "\<exists>a. MatchRule pkt (rule_of (ct_state_xt mf iv m) k c) sets = Some (OutcomeUnknown, a)"
proof -
  have "\<not> xt_Decoded (convertXt ''match'' ''conntrack'' 3 (XtConntrackMtinfo3 mf iv m))"
    using assms
    by (simp add: with_conntrack_def conntrack_def xtConntrackStateFlag_def xtConntrackStateAliasFlag_def
        xt0_def Let_def)
  then have none: "xtExpr pkt (convertXt ''match'' ''conntrack'' 3 (XtConntrackMtinfo3 mf iv m)) = None"
    by (simp add: xtExpr_def xt_conntrack_match_def split: option.split del: convertXt.simps)
  then show ?thesis
    by (simp add: MatchRule_def rule_of_def ct_state_xt_def ConvertExprs_def expr0_def match_expr_def match_xt_def
        skippableUnresolvedMatch_def del: convertXt.simps)
qed

text \<open>C37 (ct_state_forms_agree): a connection-state condition decides a new connection's packet alike
  whether nft compiled it natively or iptables-nft as a match, for every mask and either
  polarity; and a match that asks for anything besides the state leaves its rule unknown.\<close>

theorem ct_state_forms_agree:
  assumes "p_CtState pkt = ''new''" and "mf AND 1 \<noteq> 0"
  shows "if mf AND NOT 0x2001 = 0
    then MatchRule pkt (rule_of (ct_state_xt mf iv m) k c) sets =
         MatchRule pkt (rule_of (ct_state_native (iv AND 1 \<noteq> 0) m) k c) sets
    else \<exists>a. MatchRule pkt (rule_of (ct_state_xt mf iv m) k c) sets = Some (OutcomeUnknown, a)"
  using assms by (simp add: ct_xt_decides ct_native_decides ct_xt_undecoded)

theorem ct_state_forms_agree_witness:
  "p_CtState probe_packet = ''new'' \<and>
   MatchRule probe_packet (rule_of (ct_state_xt 0x2001 1 6) VerdictAccept []) [] =
   MatchRule probe_packet (rule_of (ct_state_native True 6) VerdictAccept []) []"
  using ct_state_forms_agree [of probe_packet "0x2001" 1 6 VerdictAccept "[]" "[]"]
  by (simp add: probe_packet_def)

section \<open>Address types\<close>

lemma or_if_bit: "(if (m :: u16) AND 2 ^ k \<noteq> 0 then w OR 2 ^ k else w) = w OR (m AND 2 ^ k)"
proof (cases "bit m k")
  case True
  then have "m AND 2 ^ k = 2 ^ k"
    by (intro bit_eqI) (auto simp: bit_and_iff bit_exp_iff)
  moreover have "m AND 2 ^ k \<noteq> 0" using True by (simp add: and_exp_eq_0_iff_not_bit)
  ultimately show ?thesis by simp
next
  case False
  then have "m AND 2 ^ k = 0" by (simp add: and_exp_eq_0_iff_not_bit)
  then show ?thesis by simp
qed

lemma or_if_bits:
  "(if (m :: u16) AND 1 \<noteq> 0 then w OR 1 else w) = w OR (m AND 1)"
  "(if m AND 2 \<noteq> 0 then w OR 2 else w) = w OR (m AND 2)"
  "(if m AND 4 \<noteq> 0 then w OR 4 else w) = w OR (m AND 4)"
  "(if m AND 8 \<noteq> 0 then w OR 8 else w) = w OR (m AND 8)"
  "(if m AND 16 \<noteq> 0 then w OR 16 else w) = w OR (m AND 16)"
  "(if m AND 32 \<noteq> 0 then w OR 32 else w) = w OR (m AND 32)"
  using or_if_bit [of m 0 w] or_if_bit [of m 1 w] or_if_bit [of m 2 w] or_if_bit [of m 3 w]
    or_if_bit [of m 4 w] or_if_bit [of m 5 w] by (simp_all cong: if_cong)

lemma fold_filter: "fold f (filter P xs) s = fold (\<lambda>x s. if P x then f x s else s) xs s"
  by (induction xs arbitrary: s) auto

lemma addrTypes_complete: "snd (addrTypes m) \<longleftrightarrow> m AND 0x3F = m"
proof -
  have "fold (\<lambda>t w. w OR fst t) (filter (\<lambda>t. m AND fst t \<noteq> 0) addrTypeNames) 0 =
      ((((((0 OR (m AND 1)) OR (m AND 2)) OR (m AND 4)) OR (m AND 8)) OR (m AND 16)) OR (m AND 32))"
    by (simp only: fold_filter addrTypeNames_def fold_simps fst_conv or_if_bits)
  also have "\<dots> = m AND (((((1 OR 2) OR 4) OR 8) OR 16) OR 32)"
    by (simp only: bit.conj_disj_distrib or.left_neutral)
  also have "\<dots> = m AND 0x3F" by simp
  finally show ?thesis by (simp add: addrTypes_def Let_def)
qed

lemma addrTypes_known: "knownAddrTypes (fst (addrTypes m))"
  by (auto simp: knownAddrTypes_def addrTypes_def addrTypeNames_def Let_def list_all_iff)

lemma addrTypes_roles:
  "''unicast'' \<in> set (fst (addrTypes m)) \<longleftrightarrow> m AND 2 \<noteq> 0"
  "''local'' \<in> set (fst (addrTypes m)) \<longleftrightarrow> m AND 4 \<noteq> 0"
  by (simp_all add: addrTypes_def addrTypeNames_def Let_def)

lemma addrTypes_Nil: "m AND 0x3F = m \<Longrightarrow> fst (addrTypes m) = [] \<longleftrightarrow> m = 0"
proof
  assume m: "m AND 0x3F = m" and "fst (addrTypes m) = []"
  then have "filter (\<lambda>t. m AND fst t \<noteq> 0) addrTypeNames = []"
    by (simp add: addrTypes_def Let_def)
  with m addrTypes_complete [of m] show "m = 0"
    by (simp add: addrTypes_def Let_def)
next
  assume "m = 0"
  then show "fst (addrTypes m) = []" by (simp add: addrTypes_def Let_def)
qed

text \<open>One side of an address-type match, on the mask the kernel keeps: no demand, or the bit of the role.\<close>

definition mask_side :: "u16 \<Rightarrow> u16 \<Rightarrow> bool \<Rightarrow> bool" where
  "mask_side m role neg \<longleftrightarrow> m = 0 \<or> (m AND role \<noteq> 0) \<noteq> neg"

lemma addrtype_side:
  "m AND 0x3F = m \<Longrightarrow> addrtype_hit (fst (addrTypes m)) ''unicast'' neg = mask_side m 2 neg"
  "m AND 0x3F = m \<Longrightarrow> addrtype_hit (fst (addrTypes m)) ''local'' neg = mask_side m 4 neg"
  by (auto simp: addrtype_hit_def mask_side_def addrTypes_roles addrTypes_Nil Let_def)

text \<open>Supporting (addrtype_masks): what an iptables-nft addrtype match (revision 1) answers, on the masks and flags
  of the kernel: nothing when it asks for an interface, for a type the six names do not cover
  or for no type at all; otherwise whether each mask it gives holds the bit of the packet's
  side, source always unicast, destination local or unicast, either side negated by its flag.\<close>

theorem addrtype_masks:
  "xtExpr pkt (convertXt ''match'' ''addrtype'' 1 (XtAddrTypeV1 source dest flags)) =
    (if flags AND 0xC = 0 \<and> dest AND 0x3F = dest \<and> source AND 0x3F = source \<and> \<not> (dest = 0 \<and> source = 0)
     then hit_outcome
       (mask_side dest (if p_DstIsLocal pkt then 4 else 2) (flags AND 2 \<noteq> 0) \<and> mask_side source 2 (flags AND 1 \<noteq> 0))
     else None)"
proof -
  obtain dst dstOK where d: "addrTypes dest = (dst, dstOK)" by fastforce
  obtain src srcOK where s: "addrTypes source = (src, srcOK)" by fastforce
  have ok: "dstOK \<longleftrightarrow> dest AND 0x3F = dest" "srcOK \<longleftrightarrow> source AND 0x3F = source"
    using addrTypes_complete [of dest] addrTypes_complete [of source] by (simp_all add: d s)
  have known: "knownAddrTypes dst" "knownAddrTypes src"
    using addrTypes_known [of dest] addrTypes_known [of source] by (simp_all add: d s)
  show ?thesis
    using addrTypes_Nil [of dest] addrTypes_Nil [of source] addrtype_side [of dest] addrtype_side [of source]
    by (simp add: xtExpr_def xt_addrtype_match_def d s ok known xt0_def Let_def xtAddrTypeLimitIfaceIn_def
        xtAddrTypeLimitIfaceOut_def xtAddrTypeInvertDest_def xtAddrTypeInvertSource_def)
qed

section \<open>The recent match\<close>

lemma unat_byte_of: "unat (ucast (drop_bit k (w :: u32)) :: byte) = unat w div 2 ^ k mod 256"
proof -
  have "unat w < 4294967296" using unsigned_less [of w] by simp
  then show ?thesis
    by (simp only: unsigned_ucast_eq unsigned_drop_bit_eq) (simp add: take_bit_eq_mod drop_bit_eq_div)
qed

lemma four_bytes:
  "(n :: nat) < 4294967296 \<Longrightarrow>
   n div 16777216 mod 256 * 16777216 + (n div 65536 mod 256 * 65536 + (n div 256 mod 256 * 256 + n mod 256)) = n"
proof -
  assume n: "n < 4294967296"
  have q: "n div 65536 = n div 256 div 256" "n div 16777216 = n div 256 div 256 div 256"
    by (simp_all flip: div_mult2_eq)
  have "n div 256 div 256 div 256 < 256" using n by (simp flip: div_mult2_eq)
  then have "n div 256 div 256 div 256 mod 256 = n div 256 div 256 div 256" by simp
  then show ?thesis
    unfolding q
    using div_mult_mod_eq [of n 256] div_mult_mod_eq [of "n div 256" 256]
      div_mult_mod_eq [of "n div 256 div 256" 256] by linarith
qed

lemma le_uint32_put: "le_uint32 (le_put32 w @ bs) = w"
proof -
  have "unat w < 4294967296" using unsigned_less [of w] by simp
  then have "be_nat (rev (le_put32 w)) = unat w"
    using unat_byte_of [of 24 w] unat_byte_of [of 16 w] unat_byte_of [of 8 w] unat_byte_of [of 0 w]
      four_bytes [of "unat w"]
    by (simp add: le_put32_def be_nat_Cons)
  then show ?thesis by (simp add: le_uint32_def)
qed

text \<open>
  The kernel's structure for revision 1: two little-endian words, the mode bits, the invert
  byte, a name of 200 bytes filled up with zeros, and the mask that follows it.
\<close>

definition mode_bit :: "string \<Rightarrow> byte" where
  "mode_bit mode = (if mode = ''rcheck'' then 1 else if mode = ''set'' then 2 else if mode = ''update'' then 4 else 8)"

definition name_bytes :: "string \<Rightarrow> bytes" where
  "name_bytes n = map (\<lambda>c. of_nat (of_char c)) n"

definition recent_bytes :: "recent_info \<Rightarrow> bytes \<Rightarrow> bytes" where
  "recent_bytes r m =
     le_put32 (ri_Seconds r) @ le_put32 (ri_HitCount r) @ [mode_bit (ri_Mode r), if ri_Invert r then 1 else 0]
     @ name_bytes (ri_Name r) @ replicate (200 - length (ri_Name r)) 0 @ m"

lemma bytes_string_name [simp]: "bytes_string (name_bytes n) = n"
  by (induction n) (simp_all add: bytes_string_def name_bytes_def unat_of_nat of_char_mod_256)

lemma name_bytes_nonzero: "CHR 0x00 \<notin> set n \<Longrightarrow> b \<in> set (name_bytes n) \<Longrightarrow> b \<noteq> 0"
proof
  assume n: "CHR 0x00 \<notin> set n" and b: "b \<in> set (name_bytes n)" and "b = 0"
  then obtain c where c: "c \<in> set n" "(of_nat (of_char c) :: byte) = 0" by (auto simp: name_bytes_def)
  then have "bytes_string [of_nat (of_char c)] = [CHR 0x00]" by (simp add: bytes_string_def char_of_eq_iff)
  then have "c = CHR 0x00" using bytes_string_name [of "[c]"] by (simp add: name_bytes_def)
  with c n show False by simp
qed

lemma take_name:
  assumes "length n \<le> 200" and "CHR 0x00 \<notin> set n"
  shows "takeWhile (\<lambda>b. b \<noteq> 0) (take 200 (name_bytes n @ replicate (200 - length n) 0 @ m)) = name_bytes n"
proof -
  have len: "length (name_bytes n) = length n" by (simp add: name_bytes_def)
  have "take 200 (name_bytes n @ replicate (200 - length n) 0 @ m) = name_bytes n @ replicate (200 - length n) 0"
    using assms(1) by (simp add: len)
  moreover have "takeWhile (\<lambda>b. b \<noteq> 0) (name_bytes n @ replicate k 0) = name_bytes n" for k
    using name_bytes_nonzero [OF assms(2)] by (simp add: takeWhile_append)
  ultimately show ?thesis by simp
qed

text \<open>Supporting (recentInfo_roundtrip): the layout of the recent match is read back whole: for any mode, times,
  polarity and a name of at most 200 bytes without a zero, decoding the kernel's structure gives
  the same values; and a payload of another revision or another length is never decoded.\<close>

theorem recentInfo_roundtrip:
  assumes "ri_Mode r \<in> set [''rcheck'', ''set'', ''update'', ''remove'']"
    and "length (ri_Name r) \<le> 200" and "CHR 0x00 \<notin> set (ri_Name r)" and "length m = 22"
  shows "recentInfo rv (recent_bytes r m) = (if rv = 1 then Some r else None)
    \<and> (rv \<noteq> 1 \<or> length data \<noteq> 232 \<longrightarrow> recentInfo rv data = None)"
proof -
  have len: "length (recent_bytes r m) = 232"
    using assms(2,4) by (simp add: recent_bytes_def name_bytes_def)
  have at: "recent_bytes r m ! 8 = mode_bit (ri_Mode r)" "recent_bytes r m ! 9 = (if ri_Invert r then 1 else 0)"
    by (simp_all add: recent_bytes_def nth_append)
  have "drop 4 (recent_bytes r m) = le_put32 (ri_HitCount r) @ [mode_bit (ri_Mode r), if ri_Invert r then 1 else 0]
     @ name_bytes (ri_Name r) @ replicate (200 - length (ri_Name r)) 0 @ m"
    and name: "drop 10 (recent_bytes r m) = name_bytes (ri_Name r) @ replicate (200 - length (ri_Name r)) 0 @ m"
    by (simp_all add: recent_bytes_def)
  then have nums: "le_uint32 (recent_bytes r m) = ri_Seconds r" "le_uint32 (drop 4 (recent_bytes r m)) = ri_HitCount r"
    by (simp_all only: le_uint32_put) (simp add: recent_bytes_def le_uint32_put)
  have mode: "recentModeName (mode_bit (ri_Mode r)) = Some (ri_Mode r)"
    using assms(1) by (auto simp: mode_bit_def recentModeName_def xtRecentSetBit_def xtRecentUpdateBit_def
        xtRecentCheckBit_def xtRecentRemoveBit_def)
  have nm: "bytes_string (takeWhile (\<lambda>b. b \<noteq> 0) (take 200 (drop 10 (recent_bytes r m)))) = ri_Name r"
    by (simp only: name take_name [OF assms(2,3)] bytes_string_name)
  have rec: "\<lparr>ri_Mode = ri_Mode r, ri_Seconds = ri_Seconds r, ri_HitCount = ri_HitCount r,
      ri_Invert = ri_Invert r, ri_Name = ri_Name r\<rparr> = r"
    by (cases r) simp
  show ?thesis
    by (simp add: recentInfo_def len at nums nm mode rec xtRecentRev1Len_def xtRecentSecondsOff_def
        xtRecentHitCountOff_def xtRecentCheckSetOff_def xtRecentInvertOff_def xtRecentNameOff_def xtRecentNameLen_def)
qed

theorem recentInfo_roundtrip_witness:
  "recentInfo 1 (recent_bytes \<lparr>ri_Mode = ''update'', ri_Seconds = 60, ri_HitCount = 4, ri_Invert = False,
     ri_Name = ''ssh''\<rparr> (replicate 22 255)) =
   Some \<lparr>ri_Mode = ''update'', ri_Seconds = 60, ri_HitCount = 4, ri_Invert = False, ri_Name = ''ssh''\<rparr>"
  using recentInfo_roundtrip [of "\<lparr>ri_Mode = ''update'', ri_Seconds = 60, ri_HitCount = 4, ri_Invert = False,
     ri_Name = ''ssh''\<rparr>" "replicate 22 255" 1 "[]"] by simp

end
