(* ===== verification/Host_Read.thy ===== *)
theory Host_Read
  imports Ruleset_Read
begin

text \<open>
  The reading of the host: \<open>internal/collect/sockets.go\<close>, \<open>routes.go\<close>, \<open>host.go\<close>,
  \<open>docker.go\<close> and \<open>collect.go\<close>. The files of \<open>/proc\<close> and the system's answers are
  parameters: a file is what \<open>bufio.Scanner\<close> makes of it, its lines and the error it ended
  with; a call that can fail is a sum of the error's text and the value. A map is filled by
  the source's own loop.
\<close>

section \<open>Numbers\<close>

text \<open>
  \<open>v, _ := strconv.ParseUint(s, base, bits)\<close> with the error dropped: 0 for text that is not a
  number, the largest value for one that does not fit, found digit by digit.
\<close>

fun lax_digits :: "nat \<Rightarrow> nat \<Rightarrow> nat \<Rightarrow> string \<Rightarrow> nat" where
  "lax_digits base bits acc [] = acc"
| "lax_digits base bits acc (c # cs) =
     (case digit_value c of
        None \<Rightarrow> 0
      | Some d \<Rightarrow>
          if d \<ge> base then 0
          else if acc * base + d \<ge> 2 ^ bits then 2 ^ bits - 1
          else lax_digits base bits (acc * base + d) cs)"

definition lax_uint :: "nat \<Rightarrow> nat \<Rightarrow> string \<Rightarrow> nat" where
  "lax_uint base bits s = lax_digits base bits 0 s"

text \<open>
  The error of a failed \<open>ParseUint\<close>: the first digit that is none, or the first at which the
  value no longer fits, decides which.
\<close>

fun digits_overflow :: "nat \<Rightarrow> nat \<Rightarrow> nat \<Rightarrow> string \<Rightarrow> bool" where
  "digits_overflow base bits acc [] = False"
| "digits_overflow base bits acc (c # cs) =
     (case digit_value c of
        None \<Rightarrow> False
      | Some d \<Rightarrow> d < base \<and> (acc * base + d \<ge> 2 ^ bits \<or> digits_overflow base bits (acc * base + d) cs))"

definition uint_error :: "nat \<Rightarrow> nat \<Rightarrow> string \<Rightarrow> string" where
  "uint_error base bits s =
     ''strconv.ParseUint: parsing '' @ quote s @ '': '' @
     (if digits_overflow base bits 0 s then ''value out of range'' else ''invalid syntax'')"

text \<open>
  The error of a failed \<open>hex.DecodeString\<close>: the first character that is no hexadecimal digit,
  as \<open>%#U\<close> prints it (for ASCII text), or an odd length.
\<close>

definition upper_hex :: "nat \<Rightarrow> char" where
  "upper_hex d = (if d < 10 then char_of (48 + d) else char_of (55 + d))"

definition rune_text :: "char \<Rightarrow> string" where
  "rune_text c =
     (let n = of_char c :: nat in
      ''U+00'' @ [upper_hex (n div 16), upper_hex (n mod 16)] @
      (if 32 \<le> n \<and> n < 127 then '' '' @ [char_of (39 :: nat), c, char_of (39 :: nat)] else []))"

definition hex_error :: "string \<Rightarrow> string" where
  "hex_error s =
     (case dropWhile is_hex s of
        [] \<Rightarrow> ''encoding/hex: odd length hex string''
      | c # cs \<Rightarrow> ''encoding/hex: invalid byte: '' @ rune_text c)"

text \<open>\<open>strconv.Atoi\<close>, on 64 bits.\<close>

definition Atoi :: "string \<Rightarrow> int option" where
  "Atoi s =
     (let (neg, ds) = (case s of
                         [] \<Rightarrow> (False, [])
                       | c # cs \<Rightarrow> if c = CHR ''-'' then (True, cs)
                                   else if c = CHR ''+'' then (False, cs) else (False, s)) in
      if ds = [] then None
      else
        case digits_value 10 0 ds of
          None \<Rightarrow> None
        | Some n \<Rightarrow>
            let i = (if neg then - int n else int n) in
            if - (2 ^ 63) \<le> i \<and> i < 2 ^ 63 then Some i else None)"

section \<open>Sockets\<close>

text \<open>\<open>bufio.Scanner\<close> over a reader: the lines it yields, and \<open>Err\<close> after the last.\<close>

record line_scan =
  ln_Lines :: "string list"
  ln_Err :: "string option"

definition tcpListen :: string where "tcpListen = ''0A''"

text \<open>Each group of four bytes reversed.\<close>

fun swap_groups :: "bytes \<Rightarrow> bytes" where
  "swap_groups (a # b # c # d # rest) = d # c # b # a # swap_groups rest"
| "swap_groups bs = bs"

definition parseHexAddr :: "string \<Rightarrow> string + (addr \<times> u16)" where
  "parseHexAddr s =
     (case cut (CHR '':'') s of
        None \<Rightarrow> Inl ''missing port separator''
      | Some (host, portHex) \<Rightarrow>
          (case hex_decode host of
             None \<Rightarrow> Inl (hex_error host)
           | Some raw \<Rightarrow>
               if length raw mod 4 \<noteq> 0 \<or> (length raw \<noteq> 4 \<and> length raw \<noteq> 16) then
                 Inl (''unexpected address length '' @ itoa (length raw))
               else
                 (case AddrFromSlice (swap_groups raw) of
                    None \<Rightarrow> Inl ''bad address bytes''
                  | Some a \<Rightarrow>
                      (case parse_uint 16 16 portHex of
                         None \<Rightarrow> Inl (uint_error 16 16 portHex)
                       | Some n \<Rightarrow> Inr (a, of_nat n)))))"

text \<open>One line after the header: nothing, a socket, or an address that does not parse.\<close>

definition proc_net_line :: "string \<Rightarrow> string \<Rightarrow> string \<Rightarrow> string + socket option" where
  "proc_net_line family proto line =
     (let fs = Go_Lib.fields line in
      if length fs < 10 then Inr None
      else
        let local = fs ! 1; remote = fs ! 2; st = fs ! 3 in
        if proto = ''tcp'' \<and> st \<noteq> tcpListen then Inr None
        else if proto = ''udp'' \<and> \<not> has_suffix remote '':0000'' then Inr None
        else
          case parseHexAddr local of
            Inl err \<Rightarrow> Inl (''address '' @ quote local @ '': '' @ err)
          | Inr (ip, port) \<Rightarrow>
              Inr (Some \<lparr>so_Family = family, so_Proto = proto, so_BindIP = addr_String ip, so_Port = port,
                so_Inode = of_nat (lax_uint 10 32 (fs ! 9)), so_UID = of_nat (lax_uint 10 32 (fs ! 7)),
                so_PID = 0, so_Process = [], so_Unit = [], so_Container = []\<rparr>))"

fun proc_net_lines :: "string \<Rightarrow> string \<Rightarrow> string list \<Rightarrow> string + socket list" where
  "proc_net_lines family proto [] = Inr []"
| "proc_net_lines family proto (l # ls) =
     (case proc_net_line family proto l of
        Inl err \<Rightarrow> Inl err
      | Inr s \<Rightarrow>
          (case proc_net_lines family proto ls of
             Inl err \<Rightarrow> Inl err
           | Inr out \<Rightarrow> Inr (case s of None \<Rightarrow> out | Some sock \<Rightarrow> sock # out)))"

text \<open>
  The sockets and the scanner's error are both returned; the caller looks at the sockets only
  when there is none, so the result is a sum.
\<close>

definition ParseProcNet :: "line_scan \<Rightarrow> string \<Rightarrow> string \<Rightarrow> string + socket list" where
  "ParseProcNet r family proto =
     (case proc_net_lines family proto (drop 1 (ln_Lines r)) of
        Inl err \<Rightarrow> Inl err
      | Inr out \<Rightarrow> (case ln_Err r of None \<Rightarrow> Inr out | Some err \<Rightarrow> Inl err))"

record owner =
  ow_PID :: int
  ow_Comm :: string
  ow_Unit :: string
  ow_Container :: string

definition newline_char :: char where "newline_char = char_of (10 :: nat)"

text \<open>The part behind the last separator, as \<open>strings.LastIndex\<close> cuts it.\<close>

definition after_last :: "char \<Rightarrow> string \<Rightarrow> string" where
  "after_last c s = rev (takeWhile (\<lambda>d. d \<noteq> c) (rev s))"

definition cgroup_step :: "string \<Rightarrow> string \<times> string \<Rightarrow> string \<times> string" where
  "cgroup_step seg uc =
     (if has_prefix seg ''docker-'' \<and> has_suffix seg ''.scope'' then
        (fst uc, trim_suffix (trim_prefix seg ''docker-'') ''.scope'')
      else if has_suffix seg ''.service'' then (seg, snd uc)
      else uc)"

definition cgroup_line :: "string \<Rightarrow> string \<times> string \<Rightarrow> string \<times> string" where
  "cgroup_line line uc = fold cgroup_step (split (CHR ''/'') (after_last (CHR '':'') line)) uc"

definition parseCgroup :: "string \<Rightarrow> string \<times> string" where
  "parseCgroup s = fold cgroup_line (split newline_char s) ([], [])"

text \<open>
  A directory of \<open>/proc\<close>: its name, the targets of the links in its \<open>fd\<close> (\<open>None\<close> where the
  directory or the link cannot be read), and the texts of \<open>comm\<close> and \<open>cgroup\<close>.
\<close>

record proc_entry =
  pe_Name :: string
  pe_Links :: "string option list option"
  pe_Comm :: "string option"
  pe_Cgroup :: "string option"

definition readTrimmed :: "string option \<Rightarrow> string" where
  "readTrimmed b = (case b of None \<Rightarrow> [] | Some s \<Rightarrow> trim_space s)"

definition entry_owner :: "int \<Rightarrow> proc_entry \<Rightarrow> owner" where
  "entry_owner pid e =
     (let (unit, container) = parseCgroup (readTrimmed (pe_Cgroup e)) in
      \<lparr>ow_PID = pid, ow_Comm = readTrimmed (pe_Comm e), ow_Unit = unit, ow_Container = container\<rparr>)"

definition link_inode :: "string option \<Rightarrow> u32 option" where
  "link_inode link =
     (case link of
        None \<Rightarrow> None
      | Some l \<Rightarrow>
          if \<not> has_prefix l ''socket:['' then None
          else map_option of_nat (parse_uint 10 32 (trim_suffix (trim_prefix l ''socket:['') '']'')))"

fun entry_links :: "owner \<Rightarrow> string option list \<Rightarrow> (u32 \<rightharpoonup> owner) \<Rightarrow> (u32 \<rightharpoonup> owner)" where
  "entry_links ow [] out = out"
| "entry_links ow (l # ls) out =
     (case link_inode l of
        None \<Rightarrow> entry_links ow ls out
      | Some inode \<Rightarrow> entry_links ow ls (out(inode \<mapsto> ow)))"

text \<open>The map so far and the number of processes that could not be read.\<close>

fun owners_loop :: "proc_entry list \<Rightarrow> (u32 \<rightharpoonup> owner) \<Rightarrow> nat \<Rightarrow> (u32 \<rightharpoonup> owner) \<times> nat" where
  "owners_loop [] out denied = (out, denied)"
| "owners_loop (e # es) out denied =
     (case Atoi (pe_Name e) of
        None \<Rightarrow> owners_loop es out denied
      | Some pid \<Rightarrow>
          (case pe_Links e of
             None \<Rightarrow> owners_loop es out (Suc denied)
           | Some links \<Rightarrow> owners_loop es (entry_links (entry_owner pid e) links out) denied))"

definition socket_warning :: "string \<Rightarrow> warning" where
  "socket_warning msg = \<lparr>w_Source = ''sockets'', w_Message = msg\<rparr>"

definition socketOwners :: "string \<Rightarrow> string + proc_entry list \<Rightarrow> (u32 \<rightharpoonup> owner) \<times> warning list" where
  "socketOwners procRoot dir =
     (case dir of
        Inl err \<Rightarrow> (Map.empty, [socket_warning (''read '' @ procRoot @ '': '' @ err)])
      | Inr entries \<Rightarrow>
          let (out, denied) = owners_loop entries Map.empty 0 in
          (out, if denied > 0 then
                  [socket_warning (''could not read fds of '' @ itoa denied @
                     '' processes, run as root to attribute every socket'')]
                else []))"

definition socket_sources :: "(string \<times> string \<times> string) list" where
  "socket_sources = [(''net/tcp'', ''ip'', ''tcp''), (''net/tcp6'', ''ip6'', ''tcp''),
     (''net/udp'', ''ip'', ''udp''), (''net/udp6'', ''ip6'', ''udp'')]"

definition read_source :: "(string \<Rightarrow> string + line_scan) \<Rightarrow> string \<times> string \<times> string \<Rightarrow> socket list \<times> warning list" where
  "read_source open src =
     (let (file, family, proto) = src in
      case open file of
        Inl err \<Rightarrow> ([], [socket_warning (''open '' @ file @ '': '' @ err)])
      | Inr r \<Rightarrow>
          (case ParseProcNet r family proto of
             Inl err \<Rightarrow> ([], [socket_warning (''parse '' @ file @ '': '' @ err)])
           | Inr socks \<Rightarrow> (socks, [])))"

definition own_socket :: "(u32 \<rightharpoonup> owner) \<Rightarrow> socket \<Rightarrow> socket" where
  "own_socket owners s =
     (case owners (so_Inode s) of
        None \<Rightarrow> s
      | Some ow \<Rightarrow> s\<lparr>so_PID := ow_PID ow, so_Process := ow_Comm ow, so_Unit := ow_Unit ow,
          so_Container := ow_Container ow\<rparr>)"

definition Sockets :: "string \<Rightarrow> (string \<Rightarrow> string + line_scan) \<Rightarrow> string + proc_entry list \<Rightarrow> socket list \<times> warning list" where
  "Sockets procRoot open dir =
     (let reads = map (read_source open) socket_sources;
          (owners, ownerWarns) = socketOwners procRoot dir in
      (map (own_socket owners) (concat (map fst reads)), concat (map snd reads) @ ownerWarns))"

section \<open>Routes\<close>

definition OnesCount32 :: "u32 \<Rightarrow> nat" where
  "OnesCount32 w = length (filter (bit w) [0..<32])"

text \<open>The address is the four bytes of the word in the order the kernel keeps them.\<close>

definition leHexIPv4 :: "string \<Rightarrow> u32 option" where
  "leHexIPv4 s = map_option (\<lambda>v. bytes_word (le_put32 (of_nat v))) (parse_uint 16 32 s)"

definition ipv4_route :: "string \<Rightarrow> route option" where
  "ipv4_route line =
     (let fs = Go_Lib.fields line in
      if length fs < 8 then None
      else
        case leHexIPv4 (fs ! 1) of
          None \<Rightarrow> None
        | Some dest \<Rightarrow>
            (case leHexIPv4 (fs ! 7) of
               None \<Rightarrow> None
             | Some mask_word \<Rightarrow>
                 Some \<lparr>rt_Dest = addr_String (Addr4 dest), rt_PrefixLen = int (OnesCount32 mask_word),
                   rt_Family = ''ip'', rt_Device = fs ! 0\<rparr>))"

definition readIPv4Routes :: "string + line_scan \<Rightarrow> route list" where
  "readIPv4Routes file =
     (case file of
        Inl err \<Rightarrow> []
      | Inr r \<Rightarrow> List.map_filter ipv4_route (drop 1 (ln_Lines r)))"

definition ipv6_route :: "string \<Rightarrow> route option" where
  "ipv6_route line =
     (let fs = Go_Lib.fields line in
      if length fs < 10 then None
      else
        case hex_decode (fs ! 0) of
          None \<Rightarrow> None
        | Some raw \<Rightarrow>
            if length raw \<noteq> 16 then None
            else
              case parse_uint 16 8 (fs ! 1) of
                None \<Rightarrow> None
              | Some prefix \<Rightarrow>
                  (case AddrFromSlice raw of
                     None \<Rightarrow> None
                   | Some a \<Rightarrow>
                       Some \<lparr>rt_Dest = addr_String a, rt_PrefixLen = int prefix, rt_Family = ''ip6'',
                         rt_Device = fs ! 9\<rparr>))"

definition readIPv6Routes :: "string + line_scan \<Rightarrow> route list" where
  "readIPv6Routes file =
     (case file of
        Inl err \<Rightarrow> []
      | Inr r \<Rightarrow> List.map_filter ipv6_route (ln_Lines r))"

definition Routes :: "(string \<Rightarrow> string + line_scan) \<Rightarrow> route list \<times> warning list" where
  "Routes open = (readIPv4Routes (open ''net/route'') @ readIPv6Routes (open ''net/ipv6_route''), [])"

end
