(* ===== verification/Host_Collect.thy ===== *)
theory Host_Collect
  imports Host_Read
begin

text \<open>
  The rest of the collection: the class of an address and the interfaces
  (\<open>internal/collect/host.go\<close>), Docker's publishes (\<open>docker.go\<close>) and the snapshot as a whole
  (\<open>collect.go\<close>). The predicates of \<open>netip.Addr\<close> are those of Go 1.24, which look through an
  IPv4-mapped address. The system calls, the HTTP exchange and the JSON decoder are
  parameters, by their outcome.
\<close>

section \<open>Classes of addresses\<close>

fun v4_is :: "(32 word \<Rightarrow> bool) \<Rightarrow> (128 word \<Rightarrow> bool) \<Rightarrow> addr \<Rightarrow> bool" where
  "v4_is p4 p6 AddrZero = False"
| "v4_is p4 p6 (Addr4 w) = p4 w"
| "v4_is p4 p6 (Addr6 w z) = p6 w"

text \<open>The first octets of an address.\<close>

definition octet :: "nat \<Rightarrow> 32 word \<Rightarrow> nat" where
  "octet i w = unat w div 256 ^ (3 - i) mod 256"

definition group0 :: "128 word \<Rightarrow> nat" where
  "group0 w = unat w div 2 ^ 112"

definition IsLoopback :: "addr \<Rightarrow> bool" where
  "IsLoopback a = v4_is (\<lambda>w. octet 0 w = 127) (\<lambda>w. w = 1) (addr_Unmap a)"

definition IsLinkLocalUnicast :: "addr \<Rightarrow> bool" where
  "IsLinkLocalUnicast a =
     v4_is (\<lambda>w. octet 0 w = 169 \<and> octet 1 w = 254) (\<lambda>w. group0 w div 64 = 0xfe80 div 64) (addr_Unmap a)"

definition IsLinkLocalMulticast :: "addr \<Rightarrow> bool" where
  "IsLinkLocalMulticast a =
     v4_is (\<lambda>w. octet 0 w = 224 \<and> octet 1 w = 0 \<and> octet 2 w = 0)
       (\<lambda>w. group0 w div 256 = 0xff \<and> group0 w mod 16 = 2) (addr_Unmap a)"

definition IsMulticast :: "addr \<Rightarrow> bool" where
  "IsMulticast a = v4_is (\<lambda>w. octet 0 w div 16 = 0xe) (\<lambda>w. group0 w div 256 = 0xff) (addr_Unmap a)"

definition IsPrivate :: "addr \<Rightarrow> bool" where
  "IsPrivate a =
     v4_is (\<lambda>w. octet 0 w = 10 \<or> (octet 0 w = 172 \<and> octet 1 w div 16 = 1) \<or> (octet 0 w = 192 \<and> octet 1 w = 168))
       (\<lambda>w. group0 w div 512 = 0xfc00 div 512) (addr_Unmap a)"

definition IsGlobalUnicast :: "addr \<Rightarrow> bool" where
  "IsGlobalUnicast a =
     (let b = addr_Unmap a in
      if a = AddrZero then False
      else if b = Addr4 0 \<or> b = Addr4 0xffffffff then False
      else b \<noteq> Addr6 0 [] \<and> \<not> IsLoopback b \<and> \<not> IsMulticast b \<and> \<not> IsLinkLocalUnicast b)"

definition ClassifyAddr :: "addr \<Rightarrow> string" where
  "ClassifyAddr ip =
     (if IsLoopback ip then ''loopback''
      else if IsLinkLocalUnicast ip \<or> IsLinkLocalMulticast ip then ''link-local''
      else if IsMulticast ip then ''multicast''
      else if addr_Is4 ip \<and> IsPrivate ip then ''private''
      else if addr_Is6 ip \<and> IsPrivate ip then ''ula''
      else if IsGlobalUnicast ip then ''global''
      else ''other'')"

section \<open>Interfaces\<close>

definition last_slash :: "string \<Rightarrow> (string \<times> string) option" where
  "last_slash s =
     (case cut (CHR ''/'') (rev s) of None \<Rightarrow> None | Some (b, a) \<Rightarrow> Some (rev a, rev b))"

fun addr_Zone :: "addr \<Rightarrow> string" where
  "addr_Zone (Addr6 w z) = z"
| "addr_Zone a = []"

definition ParsePrefix :: "string \<Rightarrow> prefix option" where
  "ParsePrefix s =
     (case last_slash s of
        None \<Rightarrow> None
      | Some (ip_text, bits) \<Rightarrow>
          (case ParseAddr ip_text of
             None \<Rightarrow> None
           | Some ip \<Rightarrow>
               if addr_Zone ip \<noteq> [] then None
               else if length bits > 1 \<and> (hd bits < CHR ''1'' \<or> hd bits > CHR ''9'') then None
               else
                 (case Atoi bits of
                    None \<Rightarrow> None
                  | Some n \<Rightarrow> if n < 0 \<or> n > int (bit_len ip) then None else Some (PrefixFrom ip n))))"

text \<open>\<open>net.Interface\<close>; its \<open>Addrs\<close> call fails or yields the addresses' texts.\<close>

record lib_iface =
  li_Name :: string
  li_Index :: int
  li_Up :: bool
  li_Addrs :: "string + string list"

definition host_warning :: "string \<Rightarrow> warning" where
  "host_warning msg = \<lparr>w_Source = ''host'', w_Message = msg\<rparr>"

definition one :: string where "one = ''1''"

definition readSysctlBool :: "(string \<Rightarrow> string option) \<Rightarrow> string \<Rightarrow> bool \<times> bool" where
  "readSysctlBool read_proc rel =
     (case read_proc rel of None \<Rightarrow> (False, False) | Some b \<Rightarrow> (trim_space b = one, True))"

definition convert_addr :: "string \<Rightarrow> iface_addr option" where
  "convert_addr s =
     (case ParsePrefix s of
        None \<Rightarrow> None
      | Some pfx \<Rightarrow>
          let ip = px_Addr pfx; fam = (if addr_Is6 ip then ''ip6'' else ''ip'') in
          Some \<lparr>ad_IP = addr_String ip, ad_Prefix = (case px_Bits pfx of None \<Rightarrow> -1 | Some n \<Rightarrow> int n),
            ad_Family = fam, ad_Scope = ClassifyAddr ip\<rparr>)"

definition convert_iface :: "(string \<Rightarrow> string option) \<Rightarrow> lib_iface \<Rightarrow> iface option \<times> warning list" where
  "convert_iface read_proc i =
     (case li_Addrs i of
        Inl err \<Rightarrow> (None, [host_warning (''addresses of '' @ li_Name i @ '': '' @ err)])
      | Inr addrs \<Rightarrow>
          (Some \<lparr>if_Name = li_Name i, if_Index = li_Index i, if_Up = li_Up i,
             if_Addresses = List.map_filter convert_addr addrs,
             if_IPv4Forwarding = fst (readSysctlBool read_proc (''sys/net/ipv4/conf/'' @ li_Name i @ ''/forwarding'')),
             if_IPv6Forwarding = fst (readSysctlBool read_proc (''sys/net/ipv6/conf/'' @ li_Name i @ ''/forwarding''))\<rparr>,
           []))"

definition sysctl_warning :: "(string \<Rightarrow> string option) \<Rightarrow> string \<Rightarrow> warning list" where
  "sysctl_warning read_proc rel =
     (if snd (readSysctlBool read_proc rel) then []
      else [host_warning (''sysctl '' @ rel @ '': could not read, defaulting to false'')])"

text \<open>\<open>name\<close> is what \<open>os.Hostname\<close> returned, with its error; \<open>ifaces\<close> what \<open>net.Interfaces\<close> did.\<close>

definition Host ::
  "(string \<Rightarrow> string option) \<Rightarrow> (string \<Rightarrow> string + line_scan) \<Rightarrow> string \<times> string option
    \<Rightarrow> string + lib_iface list \<Rightarrow> host \<times> warning list"
where
  "Host read_proc open name ifaces =
     (let nameWarns = (case snd name of None \<Rightarrow> [] | Some err \<Rightarrow> [host_warning (''hostname: '' @ err)]);
          v4 = ''sys/net/ipv4/ip_forward''; v6 = ''sys/net/ipv6/conf/all/forwarding'';
          only = ''sys/net/ipv6/bindv6only'';
          sys = \<lparr>sc_IPv4Forward = fst (readSysctlBool read_proc v4), sc_IPv6Forward = fst (readSysctlBool read_proc v6),
                 sc_BindV6Only = fst (readSysctlBool read_proc only)\<rparr>;
          warns = nameWarns @ sysctl_warning read_proc v4 @ sysctl_warning read_proc v6 @ sysctl_warning read_proc only;
          h = \<lparr>h_Hostname = fst name, h_Interfaces = [], h_Sysctls = sys, h_Routes = fst (Routes open)\<rparr> in
      case ifaces of
        Inl err \<Rightarrow> (h, warns @ [host_warning (''interfaces: '' @ err)])
      | Inr is \<Rightarrow>
          (h\<lparr>h_Interfaces := List.map_filter (fst \<circ> convert_iface read_proc) is\<rparr>,
           warns @ concat (map (snd \<circ> convert_iface read_proc) is)))"

section \<open>Docker\<close>

record docker_port =
  dp_IP :: string
  dp_PrivatePort :: u16
  dp_PublicPort :: u16
  dp_Type :: string

text \<open>The networks of a container are a Go map from names to addresses.\<close>

record docker_container =
  dc_ID :: string
  dc_Names :: "string list"
  dc_Ports :: "docker_port list"
  dc_Networks :: "(string \<times> string) list"

definition containerName :: "string list \<Rightarrow> string" where
  "containerName names = (case names of [] \<Rightarrow> [] | n # ns \<Rightarrow> trim_prefix n ''/'')"

definition firstNetworkIP :: "docker_container \<Rightarrow> string" where
  "firstNetworkIP c =
     (case find (\<lambda>name. map_of (dc_Networks c) name \<noteq> Some []) (sort (map fst (dc_Networks c))) of
        None \<Rightarrow> []
      | Some name \<Rightarrow> the (map_of (dc_Networks c) name))"

definition convert_port :: "string \<Rightarrow> docker_port \<Rightarrow> publish option" where
  "convert_port ip p =
     (if dp_PublicPort p = 0 then None
      else Some \<lparr>pb_HostIP = (if dp_IP p = [] then ''0.0.0.0'' else dp_IP p), pb_HostPort = dp_PublicPort p,
        pb_ContainerIP = ip, pb_ContainerPort = dp_PrivatePort p, pb_Proto = dp_Type p\<rparr>)"

definition convert_container :: "docker_container \<Rightarrow> container" where
  "convert_container c =
     \<lparr>ct_ID = dc_ID c, ct_Name = containerName (dc_Names c),
      ct_Publishes = List.map_filter (convert_port (firstNetworkIP c)) (dc_Ports c)\<rparr>"

datatype docker_reply =
  Unreachable string | Status string | Undecodable string | Listed "docker_container list"

definition docker_warning :: "string \<Rightarrow> warning" where
  "docker_warning msg = \<lparr>w_Source = ''docker'', w_Message = msg\<rparr>"

definition DockerFromSocket :: "string \<Rightarrow> docker_reply \<Rightarrow> docker \<times> warning list" where
  "DockerFromSocket socketPath reply =
     (case reply of
        Unreachable err \<Rightarrow> (\<lparr>dk_Available = False, dk_Containers = []\<rparr>,
          [docker_warning (''daemon unreachable at '' @ socketPath @ '' ('' @ err @
             ''), container names and publishes are unknown'')])
      | Status st \<Rightarrow> (\<lparr>dk_Available = False, dk_Containers = []\<rparr>,
          [docker_warning (''daemon returned '' @ st @ '' listing containers'')])
      | Undecodable err \<Rightarrow> (\<lparr>dk_Available = False, dk_Containers = []\<rparr>,
          [docker_warning (''decode container list: '' @ err)])
      | Listed raw \<Rightarrow> (\<lparr>dk_Available = True, dk_Containers = map convert_container raw\<rparr>, []))"

section \<open>The snapshot\<close>

record options =
  op_ProcRoot :: string
  op_DockerSocket :: string

definition DefaultDockerSocket :: string where "DefaultDockerSocket = ''/var/run/docker.sock''"

definition withDefaults :: "options \<Rightarrow> options" where
  "withDefaults o1 =
     (let o2 = (if op_ProcRoot o1 = [] then o1\<lparr>op_ProcRoot := ''/proc''\<rparr> else o1) in
      if op_DockerSocket o2 = [] then o2\<lparr>op_DockerSocket := DefaultDockerSocket\<rparr> else o2)"

text \<open>What the system answers during one run, each file by its path below the proc root.\<close>

record answers =
  an_Read :: "string \<Rightarrow> file_read"
  an_Open :: "string \<Rightarrow> string + line_scan"
  an_Hostname :: "string \<times> string option"
  an_Interfaces :: "string + lib_iface list"
  an_Proc :: "string + proc_entry list"
  an_Netlink :: "string + source"
  an_Decoder :: attr_decoder
  an_ChainDump :: dump
  an_RuleDump :: dump
  an_Docker :: docker_reply
  an_Now :: string

definition read_text :: "(string \<Rightarrow> file_read) \<Rightarrow> string \<Rightarrow> string option" where
  "read_text read_file rel = (case read_file rel of Content b \<Rightarrow> Some b | NotExist \<Rightarrow> None | ReadError err \<Rightarrow> None)"

definition All :: "options \<Rightarrow> answers \<Rightarrow> facts" where
  "All opts0 an =
     (let opts = withDefaults opts0;
          (host, hostWarns) = Host (read_text (an_Read an)) (an_Open an) (an_Hostname an) (an_Interfaces an);
          (socks, sockWarns) = Sockets (op_ProcRoot opts) (an_Open an) (an_Proc an);
          legacyWarns = LegacyBackend (an_Read an);
          (rs, rsWarns, err) = Ruleset (an_Netlink an) (an_Decoder an) (an_ChainDump an) (an_RuleDump an);
          errWarns = (case err of None \<Rightarrow> []
            | Some e \<Rightarrow> [ruleset_warning (e @ '' (whyopen needs CAP_NET_ADMIN, try running as root)'')]);
          (dk, dkWarns) = DockerFromSocket (op_DockerSocket opts) (an_Docker an) in
      \<lparr>f_SchemaVersion = SchemaVersion, f_CapturedAt = an_Now an, f_Host = host, f_Sockets = socks,
       f_Ruleset = rs, f_Docker = dk,
       f_Warnings = hostWarns @ sockWarns @ legacyWarns @ rsWarns @ errWarns @ dkWarns\<rparr>)"

end
