(* ===== verification/Host_Specs.thy ===== *)
theory Host_Specs
  imports Host_Collect Collect_Specs
begin

text \<open>
  What the readers of \<open>/proc\<close> recover: the sockets and routes of the kernel's tables from the
  kernel's own notation, the class of an IPv4 address as its prefixes, and what the snapshot
  as a whole hands to the evaluation.
\<close>

section \<open>Bytes and words\<close>

lemma word_bytes_Suc: "word_bytes (Suc n) w = ucast (drop_bit (8 * n) w) # word_bytes n w"
proof -
  have "[0..<Suc n] = 0 # map Suc [0..<n]" by (metis map_Suc_upt upt_conv_Cons zero_less_Suc)
  then show ?thesis by (simp add: word_bytes_def comp_def)
qed

lemma be_nat_word_bytes: "be_nat (word_bytes n (w :: 'a::len word)) = unat w mod 256 ^ n"
proof (induction n)
  case 0
  then show ?case by (simp add: word_bytes_def)
next
  case (Suc n)
  have "unat (drop_bit (8 * n) w) = unat w div 256 ^ n"
    by (simp only: unat_drop_bit_eq) (simp add: drop_bit_eq_div power_mult)
  then have "unat (ucast (drop_bit (8 * n) w) :: byte) = unat w div 256 ^ n mod 256"
    by (simp add: unsigned_ucast_eq take_bit_eq_mod)
  then show ?case
    using Suc mod_mult2_eq [of "unat w" "256 ^ n" 256]
    by (simp add: word_bytes_Suc be_nat_Cons mult.commute)
qed

lemma bytes_word_bytes:
  assumes "LENGTH('a) = 8 * n" shows "bytes_word (word_bytes n (w :: 'a::len word)) = w"
proof -
  have "unat w < 256 ^ n" using unsigned_less [of w] assms by (simp add: power_mult)
  then show ?thesis by (simp add: bytes_word_def be_nat_word_bytes)
qed

section \<open>The kernel's socket table\<close>

text \<open>Upper-case hexadecimal, as the kernel prints it.\<close>

definition upper_encode :: "bytes \<Rightarrow> string" where
  "upper_encode bs = concat (map (\<lambda>b. [upper_hex (unat b div 16), upper_hex (unat b mod 16)]) bs)"

definition hex_addr :: "addr \<times> u16 \<Rightarrow> string" where
  "hex_addr = (\<lambda>(a, p). upper_encode (swap_groups (addr_AsSlice a)) @ '':'' @ upper_encode (be_put16 p))"

definition plain_addr :: "addr \<Rightarrow> bool" where
  "plain_addr a \<longleftrightarrow> (case a of AddrZero \<Rightarrow> False | Addr4 w \<Rightarrow> True | Addr6 w z \<Rightarrow> z = [])"

lemma digit_value_upper: "d < 16 \<Longrightarrow> digit_value (upper_hex d) = Some d"
  by (auto simp: digit_value_def upper_hex_def Let_def)

lemma byte_halves: "unat (b :: byte) div 16 < 16"
  using unat_byte [of b] by simp

lemma hex_decode_upper: "hex_decode (upper_encode bs) = Some bs"
proof (induction bs)
  case (Cons b bs)
  then show ?case
    by (simp add: upper_encode_def digit_value_upper byte_halves div_mult_mod_eq)
qed (simp add: upper_encode_def)

lemma upper_encode_no_colon: "CHR '':'' \<notin> set (upper_encode bs)"
proof
  assume "CHR '':'' \<in> set (upper_encode bs)"
  then have "\<exists>d < 16. CHR '':'' = upper_hex d"
    by (force simp: upper_encode_def byte_halves)
  then obtain d where "d < 16" "CHR '':'' = upper_hex d" by blast
  then have "digit_value (CHR '':'') = Some d" by (simp add: digit_value_upper)
  then show False by (simp add: digit_value_def)
qed

lemma digits_value_upper: "digits_value 16 acc (upper_encode bs) = Some (acc * 256 ^ length bs + be_nat bs)"
proof (induction bs arbitrary: acc)
  case (Cons b bs)
  have "(acc * 16 + unat b div 16) * 16 + unat b mod 16 = acc * 256 + unat b" by simp
  with Cons [of "acc * 256 + unat b"] show ?case
    by (simp add: upper_encode_def digit_value_upper byte_halves be_nat_Cons algebra_simps)
qed (simp add: upper_encode_def)

lemma parse_port: "parse_uint 16 16 (upper_encode (be_put16 p)) = Some (unat p)"
proof -
  have "upper_encode (be_put16 p) \<noteq> []" by (simp add: upper_encode_def be_put16_def)
  then show ?thesis
    using digits_value_upper [of 0 "be_put16 p"] unat_u16 [of p] by (simp add: parse_uint_def)
qed

lemma length_swap_groups [simp]: "length (swap_groups bs) = length bs"
  by (induction bs rule: swap_groups.induct) simp_all

lemma swap_groups_twice [simp]: "swap_groups (swap_groups bs) = bs"
  by (induction bs rule: swap_groups.induct) simp_all

lemma AddrFromSlice_AsSlice: "plain_addr a \<Longrightarrow> AddrFromSlice (addr_AsSlice a) = Some a"
  by (cases a) (simp_all add: plain_addr_def AddrFromSlice_def bytes_word_bytes)

lemma parseHexAddr_hex_addr: "plain_addr a \<Longrightarrow> parseHexAddr (hex_addr (a, p)) = Inr (a, p)"
proof -
  assume a: "plain_addr a"
  have len: "length (addr_AsSlice a) = 4 \<or> length (addr_AsSlice a) = 16"
    using a by (cases a) (simp_all add: plain_addr_def)
  show ?thesis
    using len a
    by (auto simp: parseHexAddr_def hex_addr_def cut_append [OF upper_encode_no_colon] hex_decode_upper
        AddrFromSlice_AsSlice parse_port)
qed

lemma port_zero_suffix: "has_suffix (hex_addr (a, p)) '':0000'' \<longleftrightarrow> p = 0"
proof -
  have len: "length (upper_encode (be_put16 p)) = 4" by (simp add: upper_encode_def be_put16_def)
  have "has_suffix (hex_addr (a, p)) '':0000'' \<longleftrightarrow> upper_encode (be_put16 p) = ''0000''"
    by (simp add: has_suffix_def hex_addr_def len)
  also have "\<dots> \<longleftrightarrow> p = 0"
  proof
    assume "upper_encode (be_put16 p) = ''0000''"
    then have "unat p = 0" using parse_port [of p] by (simp add: parse_uint_def digit_value_def)
    then show "p = 0" by (simp add: unat_eq_0)
  next
    assume "p = 0"
    then show "upper_encode (be_put16 p) = ''0000''"
      by (simp add: upper_encode_def be_put16_def upper_hex_def char_of_eq_iff)
  qed
  finally show ?thesis .
qed

lemma digits_value_ge: "digits_value base acc s = Some n \<Longrightarrow> 1 \<le> base \<Longrightarrow> acc \<le> n"
proof (induction s arbitrary: acc)
  case (Cons c s)
  then obtain d where d: "digit_value c = Some d" "d < base" "digits_value base (acc * base + d) s = Some n"
    by (auto split: option.splits if_splits)
  with Cons have "acc * base + d \<le> n" by blast
  moreover have "acc \<le> acc * base" using Cons.prems(2) by simp
  ultimately show ?case by linarith
qed simp

lemma lax_digits_value:
  "digits_value base acc s = Some n \<Longrightarrow> n < 2 ^ bits \<Longrightarrow> 1 \<le> base \<Longrightarrow> lax_digits base bits acc s = n"
proof (induction s arbitrary: acc)
  case (Cons c s)
  then obtain d where d: "digit_value c = Some d" "d < base" "digits_value base (acc * base + d) s = Some n"
    by (auto split: option.splits if_splits)
  with digits_value_ge [OF d(3)] Cons show ?case by simp
qed simp

lemma lax_itoa: "n < 2 ^ bits \<Longrightarrow> lax_uint 10 bits (itoa n) = n"
  by (simp add: lax_uint_def lax_digits_value digits_value_itoa)

text \<open>
  A socket of the kernel's table, and the words of its line: the slot, the two addresses,
  the state, three words on queues and timers, the user, a timer, the inode and the rest.
\<close>

record kernel_socket =
  ks_Local :: "addr \<times> u16"
  ks_Remote :: "addr \<times> u16"
  ks_State :: string
  ks_UID :: u32
  ks_Inode :: u32
  ks_Slot :: string
  ks_Queues :: "string \<times> string \<times> string \<times> string"
  ks_Rest :: "string list"

definition socket_words :: "kernel_socket \<Rightarrow> string list" where
  "socket_words k =
     (case ks_Queues k of (q, t, r, w) \<Rightarrow>
        [ks_Slot k, hex_addr (ks_Local k), hex_addr (ks_Remote k), ks_State k, q, t, r,
         itoa (unat (ks_UID k)), w, itoa (unat (ks_Inode k))] @ ks_Rest k)"

text \<open>What listens: a TCP socket in state \<open>LISTEN\<close>, an unconnected UDP socket.\<close>

definition listens :: "string \<Rightarrow> kernel_socket \<Rightarrow> bool" where
  "listens proto k \<longleftrightarrow>
     (if proto = ''tcp'' then ks_State k = ''0A'' else if proto = ''udp'' then snd (ks_Remote k) = 0 else True)"

definition listener :: "string \<Rightarrow> string \<Rightarrow> kernel_socket \<Rightarrow> socket" where
  "listener family proto k = \<lparr>so_Family = family, so_Proto = proto, so_BindIP = addr_String (fst (ks_Local k)),
     so_Port = snd (ks_Local k), so_Inode = ks_Inode k, so_UID = ks_UID k, so_PID = 0, so_Process = [],
     so_Unit = [], so_Container = []\<rparr>"

lemma proc_net_line_words:
  assumes "Go_Lib.fields l = socket_words k" and "plain_addr (fst (ks_Local k))"
  shows "proc_net_line family proto l = Inr (if listens proto k then Some (listener family proto k) else None)"
proof -
  obtain q t r w where q: "ks_Queues k = (q, t, r, w)" by (metis prod_cases4)
  obtain a p where lp: "ks_Local k = (a, p)" by fastforce
  obtain b s where rp: "ks_Remote k = (b, s)" by fastforce
  have u: "unat (ks_UID k) < 2 ^ 32" "unat (ks_Inode k) < 2 ^ 32"
    using unsigned_less [of "ks_UID k"] unsigned_less [of "ks_Inode k"] by simp_all
  note parse = parseHexAddr_hex_addr [OF assms(2) [unfolded lp fst_conv], of p]
  show ?thesis
    using u parse
    by (simp add: proc_net_line_def assms(1) socket_words_def q lp rp tcpListen_def port_zero_suffix
        lax_itoa listens_def listener_def Let_def)
qed

text \<open>C32 (ParseProcNet_listeners): from the kernel's table, in the kernel's notation, the reader
  recovers exactly the listening sockets, in order, each with its address, port, user and inode:
  TCP sockets in state LISTEN, UDP sockets without a peer.\<close>

theorem ParseProcNet_listeners:
  assumes "map Go_Lib.fields ls = map socket_words ks" and "\<forall>k \<in> set ks. plain_addr (fst (ks_Local k))"
  shows "ParseProcNet \<lparr>ln_Lines = header # ls, ln_Err = None\<rparr> family proto =
    Inr (map (listener family proto) (filter (listens proto) ks))"
proof -
  have "proc_net_lines family proto ls = Inr (map (listener family proto) (filter (listens proto) ks))"
    using assms
  proof (induction ls arbitrary: ks)
    case (Cons l ls)
    then obtain k ks' where ks: "ks = k # ks'" by (cases ks) auto
    with Cons show ?case by (simp add: proc_net_line_words)
  qed simp
  then show ?thesis by (simp add: ParseProcNet_def)
qed

lemma word_bytes_4:
  "word_bytes 4 w = [ucast (drop_bit 24 w), ucast (drop_bit 16 w), ucast (drop_bit 8 w), ucast w]"
  by (simp add: word_bytes_def upt_rec)

definition listen_line :: string where
  "listen_line = ''0: 0100007F:1F90 00000000:0000 0A q t r 1000 0 7''"

definition listen_socket :: kernel_socket where
  "listen_socket = \<lparr>ks_Local = (Addr4 0x7f000001, 8080), ks_Remote = (Addr4 0, 0), ks_State = ''0A'', ks_UID = 1000,
     ks_Inode = 7, ks_Slot = ''0:'', ks_Queues = (''q'', ''t'', ''r'', ''0''), ks_Rest = []\<rparr>"

lemma upper_hex_digits:
  "upper_hex 0 = CHR ''0''" "upper_hex (Suc 0) = CHR ''1''" "upper_hex 7 = CHR ''7''" "upper_hex 9 = CHR ''9''"
  "upper_hex 15 = CHR ''F''"
  by (simp_all add: upper_hex_def char_of_eq_iff)

lemma listen_line_words: "Go_Lib.fields listen_line = socket_words listen_socket"
proof -
  have "Go_Lib.fields listen_line =
      [''0:'', ''0100007F:1F90'', ''00000000:0000'', ''0A'', ''q'', ''t'', ''r'', ''1000'', ''0'', ''7'']"
    by (simp add: listen_line_def Go_Lib.fields.simps is_space_def)
  moreover have "hex_addr (Addr4 0x7f000001, 8080) = ''0100007F:1F90''" "hex_addr (Addr4 0, 0) = ''00000000:0000''"
    by (simp_all add: hex_addr_def upper_encode_def be_put16_def word_bytes_4 upper_hex_digits)
  moreover have "char_of (49 :: nat) = CHR ''1''" "char_of (48 :: nat) = CHR ''0''" "char_of (55 :: nat) = CHR ''7''"
    by (simp_all add: char_of_eq_iff)
  ultimately show ?thesis
    by (simp add: socket_words_def listen_socket_def itoa.simps digit_char_def)
qed

theorem ParseProcNet_listeners_witness:
  "ParseProcNet \<lparr>ln_Lines = [''sl'', listen_line], ln_Err = None\<rparr> ''ip'' ''tcp'' =
   Inr [listener ''ip'' ''tcp'' listen_socket]"
  using ParseProcNet_listeners [of "[listen_line]" "[listen_socket]" "''sl''" "''ip''" "''tcp''"]
  by (simp add: listen_line_words) (simp add: plain_addr_def listens_def listen_socket_def)

section \<open>The kernel's routing tables\<close>

lemma be_nat_bytes_word:
  assumes "8 * length bs \<le> LENGTH('a)" shows "unat (bytes_word bs :: 'a::len word) = be_nat bs"
proof -
  have "(256 :: nat) ^ length bs \<le> 2 ^ LENGTH('a)"
    using power_increasing [OF assms, of "2 :: nat"] by (simp add: power_mult)
  then have "be_nat bs < 2 ^ LENGTH('a)" using be_nat_bound [of bs] by linarith
  then show ?thesis by (simp add: bytes_word_def unat_of_nat)
qed

lemma word_bytes_bytes_word:
  assumes "8 * length bs \<le> LENGTH('a)" shows "word_bytes (length bs) (bytes_word bs :: 'a::len word) = bs"
proof -
  have "be_nat (word_bytes (length bs) (bytes_word bs :: 'a word)) = be_nat bs"
    using be_nat_bound [of bs] by (simp add: be_nat_word_bytes be_nat_bytes_word [OF assms])
  then show ?thesis using be_nat_inj [of "word_bytes (length bs) (bytes_word bs :: 'a word)" bs] by simp
qed

lemma le_put32_rev: "le_put32 w = rev (word_bytes 4 w)"
  by (simp add: le_put32_def word_bytes_4)

text \<open>A word the kernel keeps in network order and prints as a number.\<close>

lemma leHexIPv4_word: "leHexIPv4 (upper_encode (rev (word_bytes 4 w))) = Some w"
proof -
  let ?bs = "rev (word_bytes 4 w)"
  have ne: "upper_encode ?bs \<noteq> []" by (simp add: upper_encode_def word_bytes_4)
  have bound: "be_nat ?bs < 2 ^ 32" using be_nat_bound [of ?bs] by simp
  have "parse_uint 16 32 (upper_encode ?bs) = Some (be_nat ?bs)"
    using ne bound digits_value_upper [of 0 ?bs] by (simp add: parse_uint_def)
  moreover have "le_put32 (of_nat (be_nat ?bs)) = word_bytes 4 w"
    using word_bytes_bytes_word [of ?bs, where 'a = 32] by (simp add: le_put32_rev bytes_word_def)
  ultimately show ?thesis by (simp add: leHexIPv4_def bytes_word_bytes)
qed

lemma OnesCount32_net_mask: "n \<le> 32 \<Longrightarrow> OnesCount32 (net_mask n) = n"
proof -
  assume n: "n \<le> 32"
  have "filter (bit (net_mask n)) [0..<32] = filter (\<lambda>i. 32 - n \<le> i) [0..<32]"
    by (intro filter_cong) (auto simp: net_mask_def bit_not_iff bit_mask_iff)
  also have "\<dots> = [32 - n..<32]"
  proof -
    have "[0..<32] = [0..<32 - n] @ [32 - n..<32]" using upt_add_eq_append [of 0 "32 - n" n] n by simp
    then show ?thesis by (simp add: filter_empty_conv)
  qed
  finally show ?thesis using n by (simp add: OnesCount32_def)
qed

lemma digits_value_lower: "digits_value 16 acc (hex_encode bs) = Some (acc * 256 ^ length bs + be_nat bs)"
proof (induction bs arbitrary: acc)
  case (Cons b bs)
  have "(acc * 16 + unat b div 16) * 16 + unat b mod 16 = acc * 256 + unat b" by simp
  with Cons [of "acc * 256 + unat b"] show ?case
    by (simp add: hex_encode_def digit_value_hex_char byte_halves be_nat_Cons algebra_simps)
qed (simp add: hex_encode_def)

text \<open>A route of either table: its prefix and device, and the words between them.\<close>

record 'w kernel_route =
  kr_Dest :: 'w
  kr_Len :: nat
  kr_Device :: string
  kr_Words :: "string list"

definition route4_words :: "32 word kernel_route \<Rightarrow> string list" where
  "route4_words k = [kr_Device k, upper_encode (rev (word_bytes 4 (kr_Dest k)))] @ take 5 (kr_Words k)
     @ [upper_encode (rev (word_bytes 4 (net_mask (kr_Len k))))] @ drop 5 (kr_Words k)"

definition route6_words :: "128 word kernel_route \<Rightarrow> string list" where
  "route6_words k = [hex_encode (word_bytes 16 (kr_Dest k)), hex_encode [of_nat (kr_Len k)]] @ take 7 (kr_Words k)
     @ [kr_Device k]"

definition route4 :: "32 word kernel_route \<Rightarrow> route" where
  "route4 k = \<lparr>rt_Dest = addr_String (Addr4 (kr_Dest k)), rt_PrefixLen = int (kr_Len k), rt_Family = ''ip'',
     rt_Device = kr_Device k\<rparr>"

definition route6 :: "128 word kernel_route \<Rightarrow> route" where
  "route6 k = \<lparr>rt_Dest = addr_String (Addr6 (kr_Dest k) []), rt_PrefixLen = int (kr_Len k), rt_Family = ''ip6'',
     rt_Device = kr_Device k\<rparr>"

lemma ipv4_route_words:
  assumes "Go_Lib.fields l = route4_words k" and "kr_Len k \<le> 32" and "5 \<le> length (kr_Words k)"
  shows "ipv4_route l = Some (route4 k)"
proof -
  obtain a b c d e ws where w: "kr_Words k = a # b # c # d # e # ws"
    using assms(3) by (auto simp: Suc_le_length_iff numeral_eq_Suc)
  show ?thesis
    by (simp add: ipv4_route_def assms(1) route4_words_def w leHexIPv4_word OnesCount32_net_mask assms(2)
        route4_def Let_def)
qed

lemma ipv6_route_words:
  assumes "Go_Lib.fields l = route6_words k" and "kr_Len k \<le> 128" and "7 \<le> length (kr_Words k)"
  shows "ipv6_route l = Some (route6 k)"
proof -
  obtain a b c d e f g ws where w: "kr_Words k = a # b # c # d # e # f # g # ws"
    using assms(3) by (auto simp: Suc_le_length_iff numeral_eq_Suc)
  have len: "unat (of_nat (kr_Len k) :: byte) = kr_Len k"
    using assms(2) by (simp add: unat_of_nat)
  have "parse_uint 16 8 (hex_encode [of_nat (kr_Len k)]) = Some (kr_Len k)"
    using digits_value_lower [of 0 "[of_nat (kr_Len k)]"] assms(2)
    by (simp add: parse_uint_def len be_nat_def)
  then show ?thesis
    by (simp add: ipv6_route_def assms(1) route6_words_def w hex_decode_encode AddrFromSlice_def
        bytes_word_bytes route6_def Let_def)
qed

lemma map_filter_words:
  assumes "map Go_Lib.fields ls = map words ks"
    and "\<And>l k. k \<in> set ks \<Longrightarrow> Go_Lib.fields l = words k \<Longrightarrow> f l = Some (g k)"
  shows "List.map_filter f ls = map g ks"
  using assms
proof (induction ls arbitrary: ks)
  case (Cons l ls)
  then obtain k ks' where ks: "ks = k # ks'" by (cases ks) auto
  have "f l = Some (g k)" using Cons.prems ks by simp
  moreover have "List.map_filter f ls = map g ks'" using Cons ks by simp
  ultimately show ?case by (simp add: ks List.map_filter_def)
qed (simp add: List.map_filter_def)

text \<open>C33 (Routes_tables): from the kernel's two routing tables, in the kernel's notation, the reader
  recovers every route, IPv4 first, with its destination, the length of its mask and its device.\<close>

theorem Routes_tables:
  assumes "map Go_Lib.fields ls = map route4_words ks" and "map Go_Lib.fields ls6 = map route6_words ks6"
    and "\<forall>k \<in> set ks. kr_Len k \<le> 32 \<and> 5 \<le> length (kr_Words k)"
    and "\<forall>k \<in> set ks6. kr_Len k \<le> 128 \<and> 7 \<le> length (kr_Words k)"
    and "open ''net/route'' = Inr \<lparr>ln_Lines = header # ls, ln_Err = e1\<rparr>"
    and "open ''net/ipv6_route'' = Inr \<lparr>ln_Lines = ls6, ln_Err = e2\<rparr>"
  shows "Routes open = (map route4 ks @ map route6 ks6, [])"
proof -
  have "List.map_filter ipv4_route ls = map route4 ks"
    by (rule map_filter_words [OF assms(1)]) (use assms(3) ipv4_route_words in blast)
  moreover have "List.map_filter ipv6_route ls6 = map route6 ks6"
    by (rule map_filter_words [OF assms(2)]) (use assms(4) ipv6_route_words in blast)
  ultimately show ?thesis by (simp add: Routes_def readIPv4Routes_def readIPv6Routes_def assms(5,6))
qed

definition default_route :: "32 word kernel_route" where
  "default_route = \<lparr>kr_Dest = 0, kr_Len = 0, kr_Device = ''eth0'', kr_Words = [''g'', ''f'', ''r'', ''u'', ''m'']\<rparr>"

definition default_line :: string where "default_line = ''eth0 00000000 g f r u m 00000000''"

lemma default_line_words: "Go_Lib.fields default_line = route4_words default_route"
proof -
  have "Go_Lib.fields default_line = [''eth0'', ''00000000'', ''g'', ''f'', ''r'', ''u'', ''m'', ''00000000'']"
    by (simp add: default_line_def Go_Lib.fields.simps is_space_def)
  moreover have "upper_encode [0, 0, 0, 0] = ''00000000''"
    by (simp add: upper_encode_def upper_hex_digits)
  moreover have "net_mask 0 = 0" by (simp add: net_mask_def bit_eq_iff bit_not_iff bit_mask_iff)
  ultimately show ?thesis by (simp add: route4_words_def default_route_def word_bytes_4)
qed

theorem Routes_tables_witness:
  "Routes (\<lambda>file. Inr \<lparr>ln_Lines = (if file = ''net/route'' then [''Iface'', default_line] else []), ln_Err = None\<rparr>) =
    ([route4 default_route], [])"
  using Routes_tables [of "[default_line]" "[default_route]" "[]" "[]"
      "\<lambda>file. Inr \<lparr>ln_Lines = (if file = ''net/route'' then [''Iface'', default_line] else []), ln_Err = None\<rparr>"
      "''Iface''" None None]
  by (simp add: default_line_words) (simp add: default_route_def)

section \<open>Classes of IPv4 addresses\<close>

definition net4 :: "32 word \<Rightarrow> nat \<Rightarrow> prefix" where
  "net4 w n = \<lparr>px_Addr = Addr4 w, px_Bits = Some n\<rparr>"

lemma contains4: "prefix_Contains (net4 w n) (Addr4 v) \<longleftrightarrow> unat v div 2 ^ (32 - n) = unat w div 2 ^ (32 - n)"
proof -
  have "drop_bit (32 - n) (w XOR v) = 0 \<longleftrightarrow> drop_bit (32 - n) w = drop_bit (32 - n) v"
    by (simp add: drop_bit_xor word_xor_eq_0)
  also have "\<dots> \<longleftrightarrow> unat (drop_bit (32 - n) w) = unat (drop_bit (32 - n) v)"
    by (simp only: word_unat_eq_iff)
  also have "\<dots> \<longleftrightarrow> unat v div 2 ^ (32 - n) = unat w div 2 ^ (32 - n)"
    by (simp only: unat_drop_bit_eq) (auto simp: drop_bit_eq_div)
  finally show ?thesis by (simp add: prefix_Contains_def net4_def)
qed

lemma digits_eq:
  fixes c d k x y :: nat
  assumes "c < k" and "d < k" shows "x * k + c = y * k + d \<longleftrightarrow> x = y \<and> c = d"
proof
  assume eq: "x * k + c = y * k + d"
  have "(x * k + c) div k = x" "(x * k + c) mod k = c" using assms by simp_all
  moreover have "(y * k + d) div k = y" "(y * k + d) mod k = d" using assms by simp_all
  ultimately show "x = y \<and> c = d" unfolding eq by simp
qed simp

text \<open>C34 (ClassifyAddr_prefixes): the class of an IPv4 address is that of the first of the prefixes
  127/8, 169.254/16, 224.0.0/24, 224/4, 10/8, 172.16/12, 192.168/16 holding it, \<open>other\<close> for
  0.0.0.0 and 255.255.255.255, and \<open>global\<close> for every other address, those of the shared space
  100.64/10 among them.\<close>

theorem ClassifyAddr_prefixes:
  "ClassifyAddr (Addr4 v) =
    (let within = (\<lambda>w n. prefix_Contains (net4 w n) (Addr4 v)) in
     if within 0x7f000000 8 then ''loopback''
     else if within 0xa9fe0000 16 \<or> within 0xe0000000 24 then ''link-local''
     else if within 0xe0000000 4 then ''multicast''
     else if within 0x0a000000 8 \<or> within 0xac100000 12 \<or> within 0xc0a80000 16 then ''private''
     else if v = 0 \<or> v = 0xffffffff then ''other''
     else ''global'')"
proof -
  let ?n = "unat v"
  have v: "?n < 4294967296" using unsigned_less [of v] by simp
  obtain a b c where abc: "a = ?n div 16777216" "b = ?n div 65536 mod 256" "c = ?n div 256 mod 256" by blast
  have a: "a < 256" using v by (simp add: abc)
  have b: "b < 256" and c: "c < 256" by (simp_all add: abc)
  have octets: "octet 0 v = a" "octet (Suc 0) v = b" "octet 2 v = c"
    using a by (simp_all add: octet_def abc)
  have n24: "?n div 16777216 = a" by (simp only: abc(1))
  have n16: "?n div 65536 = a * 256 + b"
    using div_mult_mod_eq [of "?n div 65536" 256] by (simp add: abc flip: div_mult2_eq)
  have "?n div 256 = ?n div 65536 * 256 + c"
    using div_mult_mod_eq [of "?n div 256" 256] by (simp add: abc flip: div_mult2_eq)
  then have n8: "?n div 256 = (a * 256 + b) * 256 + c" by (simp only: n16)
  have "(a * 16 * 16 + b) div 16 = a * 16 + b div 16" by (subst div_mult_self3) simp_all
  then have n20: "?n div 1048576 = a * 16 + b div 16"
    using div_mult2_eq [of ?n 65536 16] n16 by simp
  have b16: "b div 16 < 16" using b by simp
  have n28: "?n div 268435456 = a div 16"
    using div_mult2_eq [of ?n 16777216 16] by (simp add: abc)
  have "prefix_Contains (net4 0x7f000000 8) (Addr4 v) \<longleftrightarrow> IsLoopback (Addr4 v)"
    by (simp add: IsLoopback_def contains4 octets n24)
  moreover have "prefix_Contains (net4 0xa9fe0000 16) (Addr4 v) \<longleftrightarrow> IsLinkLocalUnicast (Addr4 v)"
    using digits_eq [OF b, of 254 a 169] by (simp add: IsLinkLocalUnicast_def contains4 octets n16)
  moreover have "prefix_Contains (net4 0xe0000000 24) (Addr4 v) \<longleftrightarrow> IsLinkLocalMulticast (Addr4 v)"
    using digits_eq [OF c, of 0 "a * 256 + b" 57344] digits_eq [OF b, of 0 a 224]
    by (simp add: IsLinkLocalMulticast_def contains4 octets n8)
  moreover have "prefix_Contains (net4 0xe0000000 4) (Addr4 v) \<longleftrightarrow> IsMulticast (Addr4 v)"
    by (simp add: IsMulticast_def contains4 octets n28)
  moreover have "(prefix_Contains (net4 0x0a000000 8) (Addr4 v) \<or> prefix_Contains (net4 0xac100000 12) (Addr4 v)
      \<or> prefix_Contains (net4 0xc0a80000 16) (Addr4 v)) \<longleftrightarrow> IsPrivate (Addr4 v)"
  proof -
    have "a * 256 + b = 49320 \<longleftrightarrow> a = 192 \<and> b = 168" using digits_eq [OF b, of 168 a 192] by simp
    moreover have "a * 16 + b div 16 = 2753 \<longleftrightarrow> a = 172 \<and> b div 16 = 1" using digits_eq [OF b16, of 1 a 172] by simp
    ultimately show ?thesis
      by (simp add: IsPrivate_def contains4 octets n16 n20 n24)
  qed
  moreover have "IsGlobalUnicast (Addr4 v) \<longleftrightarrow> v \<noteq> 0 \<and> v \<noteq> 0xffffffff \<and> \<not> IsLoopback (Addr4 v)
      \<and> \<not> IsMulticast (Addr4 v) \<and> \<not> IsLinkLocalUnicast (Addr4 v)"
    by (auto simp: IsGlobalUnicast_def Let_def)
  ultimately show ?thesis
    unfolding ClassifyAddr_def Let_def by auto
qed

section \<open>A listener bound to an IPv4-mapped address\<close>

text \<open>
  A host with one global address of each family and no rules, and a socket of
  \<open>/proc/net/tcp6\<close> bound to the IPv4 address in its mapped form.
\<close>

definition mapped_socket :: kernel_socket where
  "mapped_socket = listen_socket\<lparr>ks_Local := (Addr6 0xffffcb00710a [], 22)\<rparr>"

definition dual_facts :: "socket \<Rightarrow> facts" where
  "dual_facts s = open_facts\<lparr>f_Sockets := [s],
     f_Host := (f_Host open_facts)\<lparr>h_Interfaces := [\<lparr>if_Name = ''eth0'', if_Index = 2, if_Up = True,
        if_Addresses = [\<lparr>ad_IP = ''203.0.113.10'', ad_Prefix = 24, ad_Family = ''ip'', ad_Scope = ''global''\<rparr>,
          \<lparr>ad_IP = ''2001:db8::a'', ad_Prefix = 64, ad_Family = ''ip6'', ad_Scope = ''global''\<rparr>],
        if_IPv4Forwarding = False, if_IPv6Forwarding = False\<rparr>]\<rparr>\<rparr>"

lemma mapped_text: "so_BindIP (listener ''ip6'' ''tcp'' mapped_socket) = ''::ffff:203.0.113.10''"
proof -
  have d: "itoa 203 = ''203''" "itoa 0 = ''0''" "itoa 113 = ''113''" "itoa 10 = ''10''"
    by (simp_all add: itoa.simps digit_char_def char_of_eq_iff)
  show ?thesis
    by (simp add: listener_def mapped_socket_def v4_mapped_def v4_text_def word_bytes_4 d zone_text_def)
qed

lemmas v6_groups_numeral = v6_groups.simps(2) [of "pred_numeral k" for k, folded numeral_eq_Suc]

lemma ten_zeros: "replicate 10 (0 :: byte) = [0, 0, 0, 0, 0, 0, 0, 0, 0, 0]"
  by (simp add: eval_nat_numeral)

lemma mapped_parses: "ParseAddr ''::ffff:203.0.113.10'' = Some (Addr6 0xffffcb00710a [])"
  by (simp add: ParseAddr_def parse_v6_def v6_groups_numeral ten_zeros has_prefix_def Let_def is_hex_def digit_value_def parse_v4_fields_def
      parse_octet_def parse_uint_def v6_finish_def bytes_word_def be_nat_def be_put16_def)

lemma v6_parses: "ParseAddr ''2001:db8::a'' = Some (Addr6 0x20010db800000000000000000000000a [])"
  by (simp add: ParseAddr_def parse_v6_def v6_groups_numeral ten_zeros has_prefix_def Let_def is_hex_def digit_value_def
      v6_finish_def bytes_word_def be_nat_def be_put16_def)

lemma dual_addrs:
  "publicAddrs (dual_facts s) ''ip6'' = [\<lparr>pa_IP = Addr6 0x20010db800000000000000000000000a [], pa_Iface = ''eth0''\<rparr>]"
  "publicAddrs (dual_facts s) ''ip'' = [\<lparr>pa_IP = Addr4 0xcb00710a, pa_Iface = ''eth0''\<rparr>]"
  by (simp_all add: publicAddrs_def dual_facts_def v6_parses public_ip)

lemma dual_endpoints: "endpoints rev (dual_facts s) = Some [socket_endpoint s]"
  by (simp add: endpoints_def forwards_def fwd_bases_def dual_facts_def open_facts_def facts_of_def
      local_endpoints_def put_def)

definition row_results :: "verdict list panics \<Rightarrow> (string \<times> string) list panics" where
  "row_results = map_option (map (\<lambda>v. (v_Family v, v_Result v)))"

lemma dual_read: "\<not> rs_ReadFailed (f_Ruleset (dual_facts s))" "rs_Tables (f_Ruleset (dual_facts s)) = []"
  by (simp_all add: dual_facts_def open_facts_def facts_of_def)

lemma dual_Evaluate:
  assumes "familiesFor (socket_endpoint s) (h_Sysctls (f_Host (dual_facts s))) (wildcardIPv4Keys [socket_endpoint s]) = [fam]"
    and "evaluateOne (dual_facts s) InternetZone (socket_endpoint s) fam = Some v" and "v_Family v = fam"
  shows "row_results (Evaluate rev (dual_facts s) InternetZone) = Some [(fam, v_Result v)]"
  using assms by (simp add: row_results_def Evaluate_def dual_endpoints evaluate_endpoint_def evaluate_family_def dual_read)

definition v4_socket :: kernel_socket where
  "v4_socket = listen_socket\<lparr>ks_Local := (Addr4 0xcb00710a, 22)\<rparr>"

lemma v4_socket_text: "so_BindIP (listener ''ip'' ''tcp'' v4_socket) = ''203.0.113.10''"
proof -
  have d: "itoa 203 = ''203''" "itoa 0 = ''0''" "itoa 113 = ''113''" "itoa 10 = ''10''"
    by (simp_all add: itoa.simps digit_char_def char_of_eq_iff)
  show ?thesis
    by (simp add: listener_def v4_socket_def v4_text_def word_bytes_4 d)
qed


section \<open>The snapshot\<close>

text \<open>Supporting (snapshot_evaluates): whatever the system answers, the document this build collects is of the
  schema version it reads, validates, before and after its extensions are decoded again, and is
  evaluated to a report.\<close>

theorem snapshot_evaluates:
  "SupportedSchema (f_SchemaVersion (All opts an)) = None \<and> Validate (All opts an) = None
   \<and> Validate (fst (Redecode u (All opts an))) = None
   \<and> Evaluate shuffle (All opts an) zone \<noteq> None
   \<and> Evaluate shuffle (fst (Redecode u (All opts an))) zone \<noteq> None"
proof -
  have rs: "f_Ruleset (All opts an) = fst (Ruleset (an_Netlink an) (an_Decoder an) (an_ChainDump an) (an_RuleDump an))"
    "f_SchemaVersion (All opts an) = SchemaVersion"
    by (simp_all add: All_def Let_def split: prod.split)
  then have wf: "wf_ruleset (f_Ruleset (All opts an))" using Ruleset_wf by simp
  then have wf': "wf_ruleset (f_Ruleset (fst (Redecode u (All opts an))))" by (simp add: Redecode_wf)
  show ?thesis
    using wf wf' Evaluate_total rs(2)
    by (simp add: Validate_wf SupportedSchema_def SchemaVersion_def)
qed

end
