(* ===== verification/Path_Specs.thy ===== *)
theory Path_Specs
  imports Evaluate_Verdicts Traverse_Specs
begin

text \<open>
  Where the steps of a verdict's path come from: each is a rule of the ruleset, shown under
  the table, chain, hook, priority and handle it has there.
\<close>

section \<open>One walk\<close>

definition shown_from :: "string \<Rightarrow> string \<Rightarrow> chain \<Rightarrow> hit \<Rightarrow> bool" where
  "shown_from family tname ch h \<longleftrightarrow>
     hit_Family h = family \<and> hit_Table h = tname \<and> hit_Chain h = ch_Name ch \<and> hit_Hook h = ch_Hook ch \<and>
     hit_Priority h = ch_Priority ch \<and> hit_Handle h = r_Handle (hit_Rule h) \<and> hit_Rule h \<in> set (ch_Rules ch)"

text \<open>The chains a walk over one family can be in, with the name of their table.\<close>

definition located :: "ruleset \<Rightarrow> string \<Rightarrow> string \<Rightarrow> chain \<Rightarrow> bool" where
  "located rs family tname ch \<longleftrightarrow> (\<exists>t \<in> set (rs_Tables rs). walked_table family tname t \<and> ch \<in> set (t_Chains t))"

definition from_ruleset :: "ruleset \<Rightarrow> string \<Rightarrow> hit \<Rightarrow> bool" where
  "from_ruleset rs family h \<longleftrightarrow> (\<exists>tname ch. located rs family tname ch \<and> shown_from family tname ch h)"

lemma findChain_located: "findChain rs family tname name = Some ch \<Longrightarrow> located rs family tname ch"
  by (auto simp: findChain_def located_def dest!: find_chain_Some)

lemma from_ruleset_wf: "wf_ruleset rs \<Longrightarrow> from_ruleset rs family h \<Longrightarrow> wf_rule (hit_Rule h)"
  by (auto simp: from_ruleset_def located_def shown_from_def intro: wf_chain_rule wf_ruleset_chain)

definition hits_known :: "ruleset \<Rightarrow> string \<Rightarrow> wstate \<Rightarrow> bool" where
  "hits_known rs family w \<longleftrightarrow> (\<forall>h \<in> set (w_hits w). from_ruleset rs family h)"

lemma hits_known_set_dnat [simp]: "hits_known rs family (set_dnat a w) = hits_known rs family w"
  by (simp add: hits_known_def)

lemma hits_known_record:
  "located rs family tname ch \<Longrightarrow> r \<in> set (ch_Rules ch) \<Longrightarrow> hits_known rs family w \<Longrightarrow>
   hits_known rs family (record_hit family tname ch r a w)"
  by (auto simp: hits_known_def record_hit_def from_ruleset_def shown_from_def)

lemma walk_rules_known:
  assumes sub: "\<And>c w y w'. located rs family tname c \<Longrightarrow> hits_known rs family w \<Longrightarrow>
      walk_chain mr rs family tname c (Suc d) w = Some (y, w') \<Longrightarrow> hits_known rs family w'"
    and ch: "located rs family tname ch"
  shows "set rules \<subseteq> set (ch_Rules ch) \<Longrightarrow> hits_known rs family w \<Longrightarrow>
    walk_rules mr rs family tname ch d rules w = Some (x, w') \<Longrightarrow> hits_known rs family w'"
proof (induction rules arbitrary: w)
  case Nil
  then show ?case by simp
next
  case (Cons r rules)
  have known: "hits_known rs family (record_hit family tname ch r a w)" for a
    using Cons.prems ch by (simp add: hits_known_record)
  have IH: "hits_known rs family w'" if "hits_known rs family v" "walk_rules mr rs family tname ch d rules v = Some (x, w')" for v
    using Cons.IH [OF _ that] Cons.prems(1) by simp
  from Cons.prems(3) show ?case
  proof (cases rule: walk_rules_ConsE)
    case (NoMatch a)
    with IH Cons.prems(2) show ?thesis by blast
  next
    case (Back a c target w1 sub' w2)
    with sub [OF findChain_located] IH known show ?thesis by blast
  next
    case (Called a c target w1)
    with sub [OF findChain_located] known show ?thesis by blast
  next
    case (Unwound a c target w1 sub')
    with sub [OF findChain_located] known show ?thesis by blast
  qed (use IH known in auto)
qed

lemma walk_chain_known:
  assumes "located rs family tname ch" and "hits_known rs family w"
    and "walk_chain mr rs family tname ch d w = Some (y, w')"
  shows "hits_known rs family w'"
  using assms
proof (induction d arbitrary: ch w y w' rule: depth_induct)
  case (deep d)
  then show ?case by (auto simp: walk_chain.simps)
next
  case (step d)
  then have "walk_rules mr rs family tname ch d (ch_Rules ch) w = Some (y, w')" by (simp add: walk_chain.simps)
  from walk_rules_known [OF _ step.prems(1) _ step.prems(2) this] step(2) show ?case by blast
qed

lemma collect_bases_located:
  "collect_bases family hook ts = Inr bs \<Longrightarrow> set ts \<subseteq> set (rs_Tables rs) \<Longrightarrow> (tname, ch) \<in> set bs \<Longrightarrow>
   located rs family tname ch"
proof (induction ts arbitrary: bs)
  case (Cons t ts)
  have chains: "collect_chains hook n chs = Inr cs \<Longrightarrow> set cs \<subseteq> set chs" for n chs cs
    by (induction chs arbitrary: cs) (auto split: if_splits sum.splits)
  show ?case
  proof (cases "walked_family family t")
    case True
    with Cons.prems(1) obtain chs rest where "collect_chains hook (t_Name t) (t_Chains t) = Inr chs"
      and rest: "collect_bases family hook ts = Inr rest" and bs: "bs = map (Pair (t_Name t)) chs @ rest"
      by (auto simp: walked_family_def split: sum.splits)
    with Cons.prems(2) True have "located rs family (t_Name t) c" if "c \<in> set chs" for c
      using chains that by (auto simp: located_def walked_table_def walked_family_def intro!: bexI [of _ t])
    with Cons.prems Cons.IH [OF rest] bs show ?thesis by auto
  next
    case False
    with Cons.prems Cons.IH [of bs] show ?thesis by (simp add: walked_family_def)
  qed
qed simp

lemma walk_bases_known:
  "\<forall>(tname, ch) \<in> set bs. located rs family tname ch \<Longrightarrow> hits_known rs family w \<Longrightarrow>
   walk_bases mr rs family bs w = Some (x, w') \<Longrightarrow> hits_known rs family w'"
proof (induction bs arbitrary: w)
  case (Cons b bs)
  obtain tname ch where b: "b = (tname, ch)" by (cases b)
  obtain y v where y: "walk_chain mr rs family tname ch 0 w = Some (y, v)"
    using Cons.prems b by (auto split: option.splits)
  have "hits_known rs family v" using Cons.prems b walk_chain_known [OF _ _ y] by simp
  with Cons y b show ?case by (auto split: if_splits)
qed simp

lemma Traverse_known:
  assumes "Traverse rs family hook pkt = Some (r, hs)" and "h \<in> set hs"
  shows "from_ruleset rs family h"
proof -
  obtain bs w where bs: "collect_bases family hook (rs_Tables rs) = Inr bs"
    and w: "walk_bases (MatchRule pkt) rs family (slice_stable base_less bs) \<lparr>w_hits = [], w_dnat = None\<rparr> = Some (r, w)"
    and "w_hits w = hs"
    using assms by (auto simp: Traverse_def traverse_with_def split: option.splits sum.splits)
  have "\<forall>(tname, ch) \<in> set (slice_stable base_less bs). located rs family tname ch"
    using collect_bases_located [OF bs, of rs] by auto
  from walk_bases_known [OF this _ w] \<open>w_hits w = hs\<close> assms(2) show ?thesis
    by (simp add: hits_known_def)
qed

section \<open>A verdict's path\<close>

lemma finish_path [simp]: "v_Path (finish v r how) = v_Path v"
  by (simp add: finish_def)

definition path_known :: "facts \<Rightarrow> verdict \<Rightarrow> bool" where
  "path_known f v \<longleftrightarrow> (\<forall>h \<in> set (v_Path v). from_ruleset (f_Ruleset f) (v_Family v) h)"

lemma path_known_update [simp]:
  "path_known f (v\<lparr>v_Result := r\<rparr>) = path_known f v" "path_known f (v\<lparr>v_Reason := s\<rparr>) = path_known f v"
  "path_known f (v\<lparr>v_DNAT := d\<rparr>) = path_known f v" "path_known f (finish v x how) = path_known f v"
  by (simp_all add: path_known_def)

lemma path_known_extend:
  "Traverse (f_Ruleset f) (v_Family v) hook pkt = Some (r, hs) \<Longrightarrow> path_known f v \<Longrightarrow>
   path_known f (v\<lparr>v_Path := v_Path v @ hs\<rparr>)"
  by (auto simp: path_known_def dest: Traverse_known)

lemma after_dnat_known:
  "after_dnat f ep (v_Family v) c d hook pkt v = Some w \<Longrightarrow> path_known f v \<Longrightarrow> path_known f w"
  by (auto simp: after_dnat_def Let_def path_known_extend split: if_splits)

lemma follow_dnat_known:
  "follow_dnat f ep (v_Family v) c pkt d v = Some w \<Longrightarrow> path_known f v \<Longrightarrow> path_known f w"
  by (auto simp: follow_dnat_def Let_def case_prod_unfold split: if_splits option.splits intro: after_dnat_known)

text \<open>The verdict the hooks start from, with the trace of prerouting.\<close>

lemma destination_known:
  assumes "evaluateAtDestination f zone ep family c = Some w"
  shows "path_known f w"
proof -
  let ?pkt = "synthetic_packet f zone ep family c"
  obtain pre hs where pre: "Traverse (f_Ruleset f) family ''prerouting'' ?pkt = Some (pre, hs)"
    using assms by (cases "Traverse (f_Ruleset f) family ''prerouting'' ?pkt") (auto simp: evaluateAtDestination_def)
  let ?v = "(verdict0 ep family)\<lparr>v_Path := hs\<rparr>"
  have known: "path_known f ?v" using Traverse_known [OF pre] by (simp add: path_known_def)
  have "path_known f w" if "res_DNAT pre = Some d" "follow_dnat f ep family c ?pkt d (?v\<lparr>v_DNAT := Some d\<rparr>) = Some w" for d
    using follow_dnat_known [of f ep "?v\<lparr>v_DNAT := Some d\<rparr>" c ?pkt d w] that known by simp
  moreover have "path_known f (?v\<lparr>v_Path := hs @ hs'\<rparr>)"
    if "Traverse (f_Ruleset f) family ''input'' ?pkt = Some (r, hs')" for r hs'
    using path_known_extend [of f ?v "''input''" ?pkt r hs'] that known by simp
  ultimately show ?thesis
    using assms pre known
    by (cases "res_DNAT pre") (auto simp: evaluateAtDestination_def Let_def split: if_splits)
qed

lemma unread_path: "v_Path (unread_verdict ep fam) = []"
  by (simp add: unread_verdict_def verdict0_def)

lemma evaluateOne_known:
  assumes "evaluateOne f zone ep family = Some w"
  shows "path_known f w"
proof -
  have known: "path_known f x" if "x \<in> set rs"
    "map_panics (evaluateAtDestination f zone ep family) cs = Some rs" for x rs cs
    using map_panics_in [OF that(2)] that(1) destination_known by blast
  have base: "path_known f (verdict0 ep family)" by (simp add: path_known_def verdict0_def)
  have best: "path_known f (strongest r rs)" if "\<forall>x \<in> set (r # rs). path_known f x" for r rs
    using strongest_in [of r rs] that by auto
  show ?thesis
  proof (cases "publicAddrs f family = []")
    case True
    with assms base show ?thesis by (auto simp: evaluateOne_def)
  next
    case False
    with assms obtain rs where rs: "map_panics (evaluateAtDestination f zone ep family)
        (filter (\<lambda>c. bindCovers (ep_BindIP ep) (pa_IP c)) (publicAddrs f family)) = Some rs"
      by (auto simp: evaluateOne_def Let_def)
    show ?thesis
    proof (cases rs)
      case Nil
      with assms rs False base show ?thesis by (auto simp: evaluateOne_def)
    next
      case (Cons r rs')
      with assms rs False have "w = strongest r rs'" by (simp add: evaluateOne_def)
      with best [of r rs'] known [OF _ rs] Cons show ?thesis by blast
    qed
  qed
qed

lemma Evaluate_path:
  assumes "Evaluate shuffle f zone = Some vs" and "v \<in> set vs"
  shows "path_known f v"
proof -
  have row: "evaluate_family f zone (v_Endpoint v) (v_Family v) = Some v" by (rule Evaluate_row [OF assms])
  show ?thesis
  proof (cases "rs_ReadFailed (f_Ruleset f)")
    case True
    with row have "v = unread_verdict (v_Endpoint v) (v_Family v)" by (simp add: evaluate_family_def)
    then have "v_Path v = []" by (metis unread_path)
    then show ?thesis by (simp add: path_known_def)
  next
    case False
    with row show ?thesis by (simp add: evaluate_family_def evaluateOne_known)
  qed
qed

text \<open>Supporting (path_from_ruleset): every step of a verdict's path is a rule of the ruleset, from a table of the
  verdict's family or of inet, shown with the chain, hook, priority and handle it has there.\<close>

theorem path_from_ruleset:
  assumes "Evaluate shuffle f zone = Some vs" and "v \<in> set vs" and "h \<in> set (v_Path v)"
  shows "from_ruleset (f_Ruleset f) (v_Family v) h"
  using Evaluate_path [OF assms(1,2)] assms(3) by (simp add: path_known_def)

text \<open>A host whose one input rule drops everything.\<close>

definition ruled_facts :: facts where
  "ruled_facts = open_facts\<lparr>f_Ruleset := \<lparr>rs_Tables = [\<lparr>t_Family = ''ip'', t_Name = ''filter'',
     t_Chains = [drop_chain\<lparr>ch_Rules := [verdict_rule ''drop'' []]\<rparr>], t_Sets = []\<rparr>], rs_ReadFailed = False\<rparr>\<rparr>"

lemma ruled_traverse:
  "Traverse (f_Ruleset ruled_facts) ''ip'' ''prerouting'' pkt = Some (res RAccept [], [])"
  "\<exists>r h. Traverse (f_Ruleset ruled_facts) ''ip'' ''input'' pkt = Some (r, [h]) \<and> res_Kind r = RDrop"
  by (simp_all add: Traverse_def ingressUnmodelled_def traverse_with_def res_def ruled_facts_def drop_chain_def
      knownHooks_def walk_chain.simps walk_rules_Cons terminal_action_def record_hit_def set_dnat_def)

lemma ruled_destination:
  "\<exists>w. evaluateAtDestination ruled_facts zone (socket_endpoint (hd (f_Sockets open_facts))) ''ip'' c = Some w
     \<and> v_Path w \<noteq> []"
proof -
  let ?ep = "socket_endpoint (hd (f_Sockets open_facts))"
  obtain r h where "Traverse (f_Ruleset ruled_facts) ''ip'' ''input'' (synthetic_packet ruled_facts zone ?ep ''ip'' c)
      = Some (r, [h])"
    using ruled_traverse(2) by blast
  then show ?thesis
    by (simp add: evaluateAtDestination_def ruled_traverse(1) res_def forwardKind_def socket_endpoint_def Let_def)
qed

lemma ruled_row:
  obtains vs v where "Evaluate rev ruled_facts InternetZone = Some vs" and "v \<in> set vs" and "v_Path v \<noteq> []"
proof -
  let ?ep = "socket_endpoint (hd (f_Sockets open_facts))"
  have "wf_ruleset (f_Ruleset ruled_facts)"
    by (simp add: wf_ruleset_def ruled_facts_def wf_chain_def drop_chain_def wf_rule_def verdict_rule_def
        wf_expr_def expr_missing_def verdict_e_def expr0_def)
  then obtain vs where vs: "Evaluate rev ruled_facts InternetZone = Some vs" using Evaluate_total by blast
  have eps: "endpoints rev ruled_facts = Some [?ep]"
    using open_endpoints
    by (simp add: endpoints_def forwards_def fwd_bases_def ruled_facts_def local_endpoints_def open_facts_def
        facts_of_def drop_chain_def tableFamilies_def put_def)
  have fam: "''ip'' \<in> served ruled_facts [?ep] ?ep"
    by (simp add: served_def familiesFor_def open_facts_def facts_of_def socket_endpoint_def)
  obtain v where v: "evaluate_family ruled_facts InternetZone ?ep ''ip'' = Some v" "v \<in> set vs"
    using Evaluate_rows_mem [OF vs eps] fam by (metis list.set_intros(1))
  have "publicAddrs ruled_facts ''ip'' = [\<lparr>pa_IP = Addr4 0xcb00710a, pa_Iface = ''eth0''\<rparr>]"
    using open_addrs by (simp add: publicAddrs_def ruled_facts_def)
  moreover have "bindCovers (ep_BindIP ?ep) a" for a
    by (simp add: bindCovers_def socket_endpoint_def open_facts_def)
  moreover have "\<not> rs_ReadFailed (f_Ruleset ruled_facts)" by (simp add: ruled_facts_def)
  moreover obtain w where "evaluateAtDestination ruled_facts InternetZone ?ep ''ip''
      \<lparr>pa_IP = Addr4 0xcb00710a, pa_Iface = ''eth0''\<rparr> = Some w" "v_Path w \<noteq> []"
    using ruled_destination by blast
  ultimately have "v_Path v \<noteq> []"
    using v(1) by (simp add: evaluate_family_def evaluateOne_def strongest_def)
  with that vs v(2) show ?thesis by blast
qed

theorem path_from_ruleset_witness:
  "\<exists>vs v h. Evaluate rev ruled_facts InternetZone = Some vs \<and> v \<in> set vs \<and> h \<in> set (v_Path v)
     \<and> from_ruleset (f_Ruleset ruled_facts) (v_Family v) h"
proof (rule ruled_row)
  fix vs v assume v: "Evaluate rev ruled_facts InternetZone = Some vs" "v \<in> set vs" "v_Path v \<noteq> []"
  then have "hd (v_Path v) \<in> set (v_Path v)" by simp
  with v path_from_ruleset [OF v(1,2)] show ?thesis by blast
qed

end
