(* ===== verification/Render.thy ===== *)
theory Render
  imports Facts
begin

text \<open>
  The nft-like line of a rule (\<open>internal/report/render.go\<close>), for the reader of
  \<open>--explain\<close>. A kind's object is dereferenced without a check, so \<open>RenderRule\<close> returns
  \<open>string panics\<close>. Text is ASCII; \<open>strings.ToLower\<close> and the padding of a name are those of
  bytes.
\<close>

section \<open>Text\<close>

text \<open>\<open>strings.ReplaceAll(s, "  ", " ")\<close>.\<close>

fun collapse :: "string \<Rightarrow> string" where
  "collapse (a # b # s) = (if a = CHR '' '' \<and> b = CHR '' '' then CHR '' '' # collapse s else a # collapse (b # s))"
| "collapse s = s"

definition to_lower :: "string \<Rightarrow> string" where
  "to_lower s = map (\<lambda>c. let n = of_char c :: nat in if 65 \<le> n \<and> n \<le> 90 then char_of (n + 32) else c) s"

definition trim_nul :: "bytes \<Rightarrow> bytes" where
  "trim_nul bs = rev (dropWhile (\<lambda>b. b = 0) (rev bs))"

definition dquote :: char where "dquote = char_of (34 :: nat)"

section \<open>Fields and values\<close>

definition unresolvedName :: "string \<Rightarrow> string" where
  "unresolvedName note = (if note = [] then ''unnamed expression'' else note)"

definition payloadName :: "payload_expr \<Rightarrow> string" where
  "payloadName p =
     (let net = (pl_Base p = ''network''); trans = (pl_Base p = ''transport'') in
      if net \<and> pl_Offset p = 8 \<and> pl_Len p = 16 then ''saddr''
      else if net \<and> pl_Offset p = 24 \<and> pl_Len p = 16 then ''daddr''
      else if net \<and> pl_Offset p = 12 then ''saddr''
      else if net \<and> pl_Offset p = 16 then ''daddr''
      else if net \<and> (pl_Offset p = 9 \<or> pl_Offset p = 6) then ''protocol''
      else if trans \<and> pl_Offset p = 0 then ''sport''
      else if trans \<and> pl_Offset p = 2 then ''dport''
      else pl_Base p @ ''@'' @ itoa (unat (pl_Offset p)) @ '','' @ itoa (unat (pl_Len p)))"

definition renderCtKey :: "string \<Rightarrow> string" where
  "renderCtKey key = (if key = ''state'' then ''ct state'' else ''ct '' @ key)"

definition opSymbol :: "string \<Rightarrow> string" where
  "opSymbol op = (if op = ''neq'' then ''!='' else [])"

definition cmpValue :: "string \<Rightarrow> string \<Rightarrow> string" where
  "cmpValue field data =
     (case hex_decode data of
        None \<Rightarrow> data
      | Some b \<Rightarrow>
          if has_prefix field ''fib '' then
            (let v = (if length b = 4 then le_uint32 b else 0) in
             if has_suffix field '' type'' then
               (if v = 1 then ''unicast'' else if v = 2 then ''local'' else if v = 3 then ''broadcast''
                else if v = 4 then ''anycast'' else if v = 5 then ''multicast'' else data)
             else if v = 0 then ''missing''
             else ''present'')
          else if field = ''iif'' \<or> field = ''oif'' then
            (if length b = 4 then ''index '' @ itoa (unat (le_uint32 b)) else data)
          else if field = ''iifname'' \<or> field = ''oifname'' then
            [dquote] @ map (\<lambda>c. char_of (unat c)) (trim_nul b) @ [dquote]
          else if (field = ''sport'' \<or> field = ''dport'') \<and> length b = 2 then itoa (unat (be_uint16 b))
          else if (field = ''saddr'' \<or> field = ''daddr'') \<and> AddrFromSlice b \<noteq> None then
            addr_String (the (AddrFromSlice b))
          else if (field = ''protocol'' \<or> field = ''l4proto'') \<and> b = [6] then ''tcp''
          else if (field = ''protocol'' \<or> field = ''l4proto'') \<and> b = [17] then ''udp''
          else if field = ''nfproto'' \<and> b = [2] then ''ipv4''
          else if field = ''nfproto'' \<and> b = [10] then ''ipv6''
          else ''0x'' @ data)"

text \<open>The bits of a byte from the top; \<open>None\<close> is the source's second result false.\<close>

fun prefix_bits :: "bool list \<Rightarrow> nat \<Rightarrow> bool \<Rightarrow> nat option" where
  "prefix_bits [] n seenZero = Some n"
| "prefix_bits (b # bs) n seenZero =
     (if b then (if seenZero then None else prefix_bits bs (n + 1) seenZero)
      else prefix_bits bs n True)"

definition byte_bits :: "byte \<Rightarrow> bool list" where
  "byte_bits b = map (bit b) [7, 6, 5, 4, 3, 2, 1, 0]"

definition prefixLen :: "bytes \<Rightarrow> nat option" where
  "prefixLen mask_bytes = prefix_bits (concat (map byte_bits mask_bytes)) 0 False"

definition maskedCmp :: "string \<Rightarrow> string \<Rightarrow> string \<Rightarrow> string" where
  "maskedCmp field data maskHex =
     (let plain = field @ '' & 0x'' @ maskHex @ '' == 0x'' @ data in
      case (hex_decode maskHex, hex_decode data) of
        (Some m, Some v) \<Rightarrow>
          if length m \<noteq> length v then plain
          else (case prefixLen m of
                  Some n \<Rightarrow> field @ '' '' @ cmpValue field data @ ''/'' @ itoa n
                | None \<Rightarrow> plain)
      | _ \<Rightarrow> plain)"

definition renderNAT :: "nat_expr \<Rightarrow> (u32 \<rightharpoonup> string) \<Rightarrow> string" where
  "renderNAT n immediates =
     (let addr = (case immediates (nt_AddrRegister n) of
                    None \<Rightarrow> ''<unresolved address>'' | Some raw \<Rightarrow> cmpValue ''daddr'' raw) in
      if nt_ProtoRegister n = 0 then ''dnat to '' @ addr
      else
        let port = (case immediates (nt_ProtoRegister n) of
                      None \<Rightarrow> ''<unresolved port>'' | Some raw \<Rightarrow> cmpValue ''dport'' raw) in
        ''dnat to '' @ addr @ '':'' @ port)"

definition renderFibField :: "fib_expr \<Rightarrow> string" where
  "renderFibField f =
     (if fb_Query f = ''addrtype'' then ''fib '' @ fb_Source f @ '' type''
      else
        let key = ''fib '' @ fb_Source f; key = (if fb_MatchesIface f then key @ '' . iif'' else key) in
        key @ '' oif'')"

definition renderRange :: "string \<Rightarrow> range_expr \<Rightarrow> string" where
  "renderRange field0 r =
     (let field = (if field0 = [] then ''<unnamed field>'' else field0);
          bounds = cmpValue field (rg_From r) @ ''-'' @ cmpValue field (rg_To r) in
      if rg_Op r = ''neq'' then field @ '' != '' @ bounds else field @ '' '' @ bounds)"

definition renderLookup :: "string \<Rightarrow> lookup_expr \<Rightarrow> string" where
  "renderLookup field lk =
     (let name = (if lk_Set lk = [] then ''anonymous set '' @ itoa (unat (lk_SetID lk)) else ''@'' @ lk_Set lk);
          verb = (if lk_Invert lk then ''not in'' else ''in'') in
      if field = [] then verb @ '' '' @ name else field @ '' '' @ verb @ '' '' @ name)"

section \<open>Extensions\<close>

definition renderRecent :: "recent_info \<Rightarrow> string" where
  "renderRecent r =
     join '' '' ([''recent''] @ (if ri_Invert r then [''!''] else []) @ [''--'' @ ri_Mode r]
       @ (if ri_Seconds r > 0 then [''--seconds'', itoa (unat (ri_Seconds r))] else [])
       @ (if ri_HitCount r > 0 then [''--hitcount'', itoa (unat (ri_HitCount r))] else [])
       @ (if ri_Name r \<noteq> [] then [''--name'', ri_Name r] else []))"

definition render_unread :: "xt_expr \<Rightarrow> string" where
  "render_unread x =
     (if xt_Kind x = ''target'' then to_lower (xt_Name x) else ''match '' @ xt_Name x @ '' (undecoded)'')"

definition renderXt :: "xt_expr \<Rightarrow> string" where
  "renderXt x =
     (if xt_Name x = ''DNAT'' \<and> xt_DNAT x \<noteq> None then
        (let d = the (xt_DNAT x) in ''dnat to '' @ di_MinIP d @ '':'' @ itoa (unat (di_MinPort d)))
      else if xt_Name x = ''conntrack'' \<and> xt_Conntrack x \<noteq> None \<and> ci_MatchesState (the (xt_Conntrack x)) then
        ''ct state '' @ join '','' (ci_States (the (xt_Conntrack x)))
      else if xt_Name x = ''addrtype'' \<and> xt_AddrType x \<noteq> None then
        ''fib daddr type '' @ join '','' (ai_DestTypes (the (xt_AddrType x)))
      else if xt_Name x = ''recent'' \<and> xt_Recent x \<noteq> None then renderRecent (the (xt_Recent x))
      else render_unread x)"

section \<open>The rule\<close>

record render_state =
  rn_Parts :: "string list"
  rn_Pending :: string
  rn_Mask :: string
  rn_Immediates :: "u32 \<rightharpoonup> string"

definition add_part_done :: "string \<Rightarrow> render_state \<Rightarrow> render_state" where
  "add_part_done p s = s\<lparr>rn_Parts := rn_Parts s @ [p], rn_Pending := [], rn_Mask := []\<rparr>"

definition render_cmp :: "cmp_expr \<Rightarrow> render_state \<Rightarrow> render_state" where
  "render_cmp c s =
     (if rn_Pending s = [] then s
      else if rn_Mask s \<noteq> [] then add_part_done (maskedCmp (rn_Pending s) (cm_Data c) (rn_Mask s)) s
      else s\<lparr>rn_Parts := rn_Parts s @ [rn_Pending s @ '' '' @ opSymbol (cm_Op c) @ '' '' @
               cmpValue (rn_Pending s) (cm_Data c)], rn_Pending := []\<rparr>)"

definition render_expr :: "expr \<Rightarrow> render_state \<Rightarrow> render_state panics" where
  "render_expr e s =
     (case e_Kind e of
        ExprMeta \<Rightarrow> do { m \<leftarrow> e_Meta e; Some (s\<lparr>rn_Pending := mt_Key m\<rparr>) }
      | ExprPayload \<Rightarrow> do { p \<leftarrow> e_Payload e; Some (s\<lparr>rn_Pending := payloadName p\<rparr>) }
      | ExprBitwise \<Rightarrow> do { b \<leftarrow> e_Bitwise e; Some (s\<lparr>rn_Mask := bw_Mask b\<rparr>) }
      | ExprCt \<Rightarrow> do { c \<leftarrow> e_Ct e; Some (s\<lparr>rn_Pending := renderCtKey (ce_Key c)\<rparr>) }
      | ExprImmediate \<Rightarrow>
          do { i \<leftarrow> e_Immediate e; Some (s\<lparr>rn_Immediates := (rn_Immediates s)(im_Register i \<mapsto> im_Data i)\<rparr>) }
      | ExprNAT \<Rightarrow> do { n \<leftarrow> e_NAT e; Some (add_part_done (renderNAT n (rn_Immediates s)) s) }
      | ExprFib \<Rightarrow> do { f \<leftarrow> e_Fib e; Some (s\<lparr>rn_Pending := renderFibField f, rn_Mask := []\<rparr>) }
      | ExprRange \<Rightarrow> do { r \<leftarrow> e_Range e; Some (add_part_done (renderRange (rn_Pending s) r) s) }
      | ExprLookup \<Rightarrow> do { l \<leftarrow> e_Lookup e; Some (add_part_done (renderLookup (rn_Pending s) l) s) }
      | ExprCmp \<Rightarrow> (if rn_Pending s = [] then Some s else do { c \<leftarrow> e_Cmp e; Some (render_cmp c s) })
      | ExprXt \<Rightarrow> do { x \<leftarrow> e_Xt e; Some (s\<lparr>rn_Parts := rn_Parts s @ [renderXt x]\<rparr>) }
      | ExprUnknown \<Rightarrow> Some (s\<lparr>rn_Parts := rn_Parts s @ [''<unresolved: '' @ unresolvedName (e_Note e) @ ''>'']\<rparr>)
      | ExprVerdict \<Rightarrow>
          do { v \<leftarrow> e_Verdict e;
               Some (s\<lparr>rn_Parts := rn_Parts s @
                 [if ve_Chain v \<noteq> [] then ve_Kind v @ '' '' @ ve_Chain v else ve_Kind v]\<rparr>) }
      | ExprOther \<Rightarrow> Some s
      | ExprFuture k \<Rightarrow> Some s)"

fun render_exprs :: "expr list \<Rightarrow> render_state \<Rightarrow> render_state panics" where
  "render_exprs [] s = Some s"
| "render_exprs (e # es) s = do { s' \<leftarrow> render_expr e s; render_exprs es s' }"

definition RenderRule :: "rule \<Rightarrow> string panics" where
  "RenderRule r =
     do { s \<leftarrow> render_exprs (r_Exprs r) \<lparr>rn_Parts = [], rn_Pending = [], rn_Mask = [], rn_Immediates = Map.empty\<rparr>;
          Some (if rn_Parts s = [] then ''handle '' @ itoa (unat (r_Handle r)) @ '' (no renderable expressions)''
                else collapse (join '' '' (rn_Parts s))) }"

end
