(* ===== verification/Report.thy ===== *)
theory Report
  imports Render Policy Probe
begin

text \<open>
  The two output modes (\<open>internal/report/table.go\<close>, \<open>json.go\<close>, \<open>policy.go\<close>, \<open>probe.go\<close>). A table
  is its rows of cells, before \<open>text/tabwriter\<close> pads them; the JSON document is its record,
  before \<open>encoding/json\<close> writes it. A field that is left out of the document is \<open>None\<close> where
  absence is a value of its own.
\<close>

section \<open>The order of rows\<close>

text \<open>A result the map does not hold reads as zero.\<close>

definition order :: "string \<Rightarrow> nat" where
  "order r = (if r = ''reachable'' then 0 else if r = ''unknown'' then 1 else if r = ''filtered'' then 2 else 0)"

text \<open>
  The inner loop of the insertion sort: the element moves down past every element of a
  higher order, over the sorted part held back to front.
\<close>

fun sift_down :: "verdict \<Rightarrow> verdict list \<Rightarrow> verdict list" where
  "sift_down v [] = [v]"
| "sift_down v (w # ws) = (if order (v_Result v) < order (v_Result w) then w # sift_down v ws else v # w # ws)"

definition worstFirst :: "verdict list \<Rightarrow> verdict list" where
  "worstFirst vs = rev (fold sift_down vs [])"

section \<open>Tables\<close>

definition family_name :: "string \<Rightarrow> string" where
  "family_name f = (if f = ''ip6'' then ''IPv6'' else ''IPv4'')"

definition dash :: "string \<Rightarrow> string" where
  "dash s = (if s = [] then ''-'' else s)"

definition port_cell :: "verdict \<Rightarrow> string" where
  "port_cell v = itoa (unat (ep_Port (v_Endpoint v))) @ ''/'' @ ep_Proto (v_Endpoint v)"

definition table_row :: "verdict \<Rightarrow> string list" where
  "table_row v = [v_Result v, port_cell v, family_name (v_Family v), dash (ep_Owner (v_Endpoint v)),
     dash (ep_BindIP (v_Endpoint v)), v_Reason v]"

text \<open>The rows with their heading, and the lines below them.\<close>

definition Table :: "verdict list \<Rightarrow> warning list \<Rightarrow> string list list \<times> string list" where
  "Table vs warns =
     ([''RESULT'', ''PORT'', ''FAMILY'', ''OWNER'', ''BIND'', ''WHY''] # map table_row (worstFirst vs),
      if length warns > 0 then
        ''warnings (the table above is not the whole story):''
        # map (\<lambda>x. ''  '' @ w_Source x @ '': '' @ w_Message x) warns
      else [])"

text \<open>\<open>%2d\<close>.\<close>

definition two_wide :: "nat \<Rightarrow> string" where
  "two_wide n = (if n < 10 then '' '' @ itoa n else itoa n)"

fun explain_hits :: "nat \<Rightarrow> hit list \<Rightarrow> string list panics" where
  "explain_hits i [] = Some []"
| "explain_hits i (h # hs) =
     do { line \<leftarrow> RenderRule (hit_Rule h);
          rest \<leftarrow> explain_hits (Suc i) hs;
          let note = (if hit_Action h = ''skipped'' then
                '', skipped: it carries no verdict, so neither outcome of its unresolved match changes the path''
              else []);
              first = ''  '' @ two_wide (i + 1) @ ''. '' @ hit_Family h @ '' '' @ hit_Table h @ ''/'' @ hit_Chain h @
                '' (hook '' @ hit_Hook h @ '', priority '' @ itoa_int (hit_Priority h) @ '', handle '' @
                itoa (unat (hit_Handle h)) @ note @ '')'' in
          Some (first # (''      '' @ line) # rest) }"

definition Explain :: "verdict \<Rightarrow> string list panics" where
  "Explain v =
     do { hits \<leftarrow> explain_hits 0 (v_Path v);
          Some ([port_cell v @ '' over '' @ family_name (v_Family v) @ '' is '' @ v_Result v, ''  '' @ v_Reason v, []]
            @ (if length (v_Path v) = 0 then [''  no rule was reached''] else hits)) }"

text \<open>The policy block: its heading line and, unless all is well, its rows.\<close>

definition policy_row :: "string \<Rightarrow> string \<Rightarrow> verdict \<Rightarrow> string list" where
  "policy_row what why v = [what, port_cell v, family_name (v_Family v), dash (ep_Owner (v_Endpoint v)), why]"

definition stale_row :: "stale \<Rightarrow> string list" where
  "stale_row s = [''stale'', Entry_String (sl_Entry s), ''-'', ''-'',
     if sl_Found s \<noteq> [] then ''allowed, but '' @ sl_Found s else ''allowed, but nothing is listening'']"

definition Policy_block :: "check_result \<Rightarrow> string \<Rightarrow> string \<times> string list list" where
  "Policy_block r src =
     (let shown = (if cr_FailOnUnknown r then cr_Unknown r else []);
          blind = (if cr_FailOnUnknown r then cr_Unreadable r else []) in
      if length (cr_Violations r) = 0 \<and> length (cr_Stale r) = 0 \<and> length shown = 0 \<and> length blind = 0 then
        (''policy '' @ src @ '': every reachable port is allowed'', [])
      else
        (''policy '' @ src,
         [[''POLICY'', ''PORT'', ''FAMILY'', ''OWNER'', ''WHY'']]
         @ map (policy_row ''violation'' ''reachable, and the policy does not allow it'') (cr_Violations r)
         @ map stale_row (cr_Stale r)
         @ map (policy_row ''unknown'' ''unresolved, and fail_on_unknown is set'') shown
         @ map (\<lambda>w. [''unknown'', ''-'', ''-'', ''-'',
             ''a forward whyopen could not reduce to ports (see the warnings above), and fail_on_unknown is set'']) blind))"

text \<open>The text of a probe's state (\<open>internal/probe/probe.go\<close>).\<close>

fun state_text :: "probe_state \<Rightarrow> string" where
  "state_text StateOpen = ''open''"
| "state_text StateClosed = ''closed''"
| "state_text StateFiltered = ''filtered''"
| "state_text StateError = ''error''"
| "state_text (StateOther s) = s"

definition disagreement_row :: "disagreement \<Rightarrow> string list" where
  "disagreement_row d = [itoa (unat (dg_Port d)) @ ''/'' @ dg_Proto d, family_name (dg_Family d), dg_Modelled d,
     state_text (dg_Probed d), dg_Diagnosis d]"

definition Probe_block :: "disagreement list \<Rightarrow> string \<Rightarrow> string \<times> string list list" where
  "Probe_block dis src =
     (if length dis = 0 then (''probe from '' @ src @ '': the model and reality agree on every port probed'', [])
      else
        (''probe from '' @ src @ '': '' @ itoa (length dis) @ '' port(s) where the model and reality disagree'',
         [''PORT'', ''FAMILY'', ''MODELLED'', ''PROBED'', ''WHAT THAT MEANS''] # map disagreement_row dis))"

section \<open>The verdict document\<close>

definition ReportSchemaVersion :: int where "ReportSchemaVersion = 1"

record json_dnat =
  jd_IP :: string
  jd_Port :: u16

record json_hit =
  jh_Family :: string
  jh_Table :: string
  jh_Chain :: string
  jh_Hook :: string
  jh_Priority :: int
  jh_Handle :: u64
  jh_Action :: string
  jh_Rule :: string

record json_verdict =
  jv_Port :: u16
  jv_Proto :: string
  jv_Family :: string
  jv_Result :: string
  jv_Reason :: string
  jv_Owner :: string
  jv_BindIP :: string
  jv_Kind :: string
  jv_DNAT :: "json_dnat option"
  jv_Path :: "json_hit list"

record json_stale =
  js_Port :: u16
  js_Proto :: string
  js_Found :: string

record json_policy =
  jp_Source :: string
  jp_FailOnUnknown :: bool
  jp_Violations :: "json_verdict list"
  jp_Stale :: "json_stale list"
  jp_Unknown :: "json_verdict list"
  jp_Unreadable :: "warning list"

record json_disagreement =
  jg_Port :: u16
  jg_Proto :: string
  jg_Family :: string
  jg_Modelled :: string
  jg_Probed :: string
  jg_Diagnosis :: string

record json_probe =
  jb_Source :: string
  jb_Disagreements :: "json_disagreement list"

record json_doc =
  jo_SchemaVersion :: int
  jo_Whyopen :: string
  jo_Hostname :: string
  jo_Zone :: string
  jo_Verdicts :: "json_verdict list"
  jo_Warnings :: "warning list"
  jo_Policy :: "json_policy option"
  jo_Probe :: "json_probe option"

record json_options =
  jx_Version :: string
  jx_Hostname :: string
  jx_Zone :: string
  jx_Warnings :: "warning list"
  jx_Policy :: "check_result option"
  jx_PolicySource :: string
  jx_WithPath :: bool
  jx_ProbeSource :: string
  jx_Disagreements :: "disagreement list"

definition json_hit_of :: "hit \<Rightarrow> json_hit panics" where
  "json_hit_of h =
     do { line \<leftarrow> RenderRule (hit_Rule h);
          Some \<lparr>jh_Family = hit_Family h, jh_Table = hit_Table h, jh_Chain = hit_Chain h, jh_Hook = hit_Hook h,
            jh_Priority = hit_Priority h, jh_Handle = hit_Handle h, jh_Action = hit_Action h, jh_Rule = line\<rparr> }"

definition json_verdict_of :: "bool \<Rightarrow> verdict \<Rightarrow> json_verdict panics" where
  "json_verdict_of withPath v =
     do { path \<leftarrow> (if withPath then map_panics json_hit_of (v_Path v) else Some []);
          Some \<lparr>jv_Port = ep_Port (v_Endpoint v), jv_Proto = ep_Proto (v_Endpoint v), jv_Family = v_Family v,
            jv_Result = v_Result v, jv_Reason = v_Reason v, jv_Owner = ep_Owner (v_Endpoint v),
            jv_BindIP = ep_BindIP (v_Endpoint v), jv_Kind = ep_Kind (v_Endpoint v),
            jv_DNAT = map_option (\<lambda>d. \<lparr>jd_IP = addr_String (dn_IP d), jd_Port = dn_Port d\<rparr>) (v_DNAT v),
            jv_Path = path\<rparr> }"

definition jsonVerdicts :: "verdict list \<Rightarrow> bool \<Rightarrow> json_verdict list panics" where
  "jsonVerdicts vs withPath = map_panics (json_verdict_of withPath) vs"

definition json_stale_of :: "stale \<Rightarrow> json_stale" where
  "json_stale_of s = (case sl_Entry s of Entry port proto \<Rightarrow>
     \<lparr>js_Port = port, js_Proto = proto, js_Found = (if sl_Found s = [] then ''nothing-listening'' else sl_Found s)\<rparr>)"

definition json_policy_of :: "string \<Rightarrow> check_result \<Rightarrow> json_policy panics" where
  "json_policy_of src r =
     do { viol \<leftarrow> jsonVerdicts (cr_Violations r) False;
          unk \<leftarrow> jsonVerdicts (cr_Unknown r) False;
          Some \<lparr>jp_Source = src, jp_FailOnUnknown = cr_FailOnUnknown r, jp_Violations = viol,
            jp_Stale = map json_stale_of (cr_Stale r), jp_Unknown = unk, jp_Unreadable = cr_Unreadable r\<rparr> }"

definition json_disagreement_of :: "disagreement \<Rightarrow> json_disagreement" where
  "json_disagreement_of d = \<lparr>jg_Port = dg_Port d, jg_Proto = dg_Proto d, jg_Family = dg_Family d,
     jg_Modelled = dg_Modelled d, jg_Probed = state_text (dg_Probed d), jg_Diagnosis = dg_Diagnosis d\<rparr>"

definition JSON :: "verdict list \<Rightarrow> json_options \<Rightarrow> json_doc panics" where
  "JSON vs opt =
     do { rows \<leftarrow> jsonVerdicts (worstFirst vs) (jx_WithPath opt);
          pol \<leftarrow> (case jx_Policy opt of None \<Rightarrow> Some None
                  | Some r \<Rightarrow> map_option Some (json_policy_of (jx_PolicySource opt) r));
          Some \<lparr>jo_SchemaVersion = ReportSchemaVersion, jo_Whyopen = jx_Version opt, jo_Hostname = jx_Hostname opt,
            jo_Zone = jx_Zone opt, jo_Verdicts = rows, jo_Warnings = jx_Warnings opt, jo_Policy = pol,
            jo_Probe = (if jx_ProbeSource opt = [] then None
              else Some \<lparr>jb_Source = jx_ProbeSource opt,
                jb_Disagreements = map json_disagreement_of (jx_Disagreements opt)\<rparr>)\<rparr> }"

end
