(* ===== verification/Report_Specs.thy ===== *)
theory Report_Specs
  imports Report Path_Specs Probe_Specs Host_Specs
begin

text \<open>
  What the two output modes guarantee: the order of the rows, the totality of the rendering
  on a document that validates, and what a rule's line says and does not say of the rule.
\<close>

section \<open>The order of rows\<close>

lemma order_below: "order r = 0 \<or> order r = 1 \<or> order r = 2"
  by (simp add: order_def)

definition ranked :: "nat \<Rightarrow> verdict list \<Rightarrow> verdict list" where
  "ranked k vs = filter (\<lambda>v. order (v_Result v) = k) vs"

lemma sift_down_over:
  "\<forall>x \<in> set xs. order (v_Result v) < order (v_Result x) \<Longrightarrow> sift_down v (xs @ ys) = xs @ sift_down v ys"
  by (induction xs) simp_all

lemma sift_down_stop: "\<forall>x \<in> set xs. order (v_Result x) \<le> order (v_Result v) \<Longrightarrow> sift_down v xs = v # xs"
  by (cases xs) auto

lemma fold_sift_down: "fold sift_down vs [] = rev (ranked 0 vs @ ranked 1 vs @ ranked 2 vs)"
proof (induction vs rule: rev_induct)
  case (snoc v vs)
  from order_below [of "v_Result v"] snoc show ?case
    by (elim disjE) (auto simp: ranked_def sift_down_over intro!: sift_down_stop)
qed (simp add: ranked_def)

text \<open>Supporting (worstFirst_stable): both output modes list the reachable rows first, then the unknown and then
  the filtered ones, each group in the order evaluation left it.\<close>

theorem worstFirst_stable:
  "worstFirst vs =
     filter (\<lambda>v. v_Result v \<noteq> ''unknown'' \<and> v_Result v \<noteq> ''filtered'') vs
     @ filter (\<lambda>v. v_Result v = ''unknown'') vs @ filter (\<lambda>v. v_Result v = ''filtered'') vs"
proof -
  have "order r = 0 \<longleftrightarrow> r \<noteq> ''unknown'' \<and> r \<noteq> ''filtered''" "order r = 1 \<longleftrightarrow> r = ''unknown''"
    "order r = 2 \<longleftrightarrow> r = ''filtered''" for r
    by (auto simp: order_def)
  then show ?thesis by (simp add: worstFirst_def fold_sift_down ranked_def)
qed

lemma set_worstFirst: "set (worstFirst vs) = set vs"
proof -
  have "x \<in> set (worstFirst vs) \<longleftrightarrow> x \<in> set vs" for x
    using order_below [of "v_Result x"] by (auto simp: worstFirst_def fold_sift_down ranked_def)
  then show ?thesis by blast
qed

section \<open>Rendering never fails on a valid rule\<close>

lemma render_expr_total: "wf_expr e \<Longrightarrow> render_expr e s \<noteq> None"
  by (cases "e_Kind e") (auto simp: render_expr_def wf_expr_def expr_missing_def simp del: not_None_eq)

lemma render_exprs_total: "\<forall>e \<in> set es. wf_expr e \<Longrightarrow> render_exprs es s \<noteq> None"
proof (induction es arbitrary: s)
  case (Cons e es)
  obtain s' where "render_expr e s = Some s'" using render_expr_total [of e s] Cons.prems by auto
  with Cons show ?case by simp
qed simp

lemma RenderRule_total: "wf_rule r \<Longrightarrow> \<exists>line. RenderRule r = Some line"
  using render_exprs_total [of "r_Exprs r"] by (fastforce simp: RenderRule_def wf_rule_def)

text \<open>A verdict both modes can show: the rule of every step of its path renders.\<close>

definition renders :: "verdict \<Rightarrow> bool" where
  "renders v \<longleftrightarrow> (\<forall>h \<in> set (v_Path v). wf_rule (hit_Rule h))"

lemma Evaluate_renders:
  "wf_ruleset (f_Ruleset f) \<Longrightarrow> Evaluate shuffle f zone = Some vs \<Longrightarrow> v \<in> set vs \<Longrightarrow> renders v"
  using Evaluate_path from_ruleset_wf by (fastforce simp: renders_def path_known_def)

lemma explain_hits_total: "\<forall>h \<in> set hs. wf_rule (hit_Rule h) \<Longrightarrow> \<exists>ls. explain_hits i hs = Some ls"
proof (induction hs arbitrary: i)
  case (Cons h hs)
  obtain line where "RenderRule (hit_Rule h) = Some line" using RenderRule_total Cons.prems by auto
  moreover obtain ls where "explain_hits (Suc i) hs = Some ls" using Cons by auto
  ultimately show ?case by (simp add: Let_def)
qed simp

lemma Explain_total: "renders v \<Longrightarrow> \<exists>ls. Explain v = Some ls"
  using explain_hits_total [of "v_Path v" 0] by (auto simp: Explain_def renders_def)

lemma map_panics_all: "\<forall>x \<in> set xs. \<exists>y. f x = Some y \<Longrightarrow> \<exists>ys. map_panics f xs = Some ys"
  by (induction xs) auto

lemma json_hit_total: "wf_rule (hit_Rule h) \<Longrightarrow> \<exists>j. json_hit_of h = Some j"
  using RenderRule_total [of "hit_Rule h"] by (auto simp: json_hit_of_def)

lemma json_verdict_total: "renders v \<or> \<not> withPath \<Longrightarrow> \<exists>j. json_verdict_of withPath v = Some j"
  using map_panics_all [of "v_Path v" json_hit_of] json_hit_total
  by (auto simp: json_verdict_of_def renders_def)

lemma jsonVerdicts_total: "(\<forall>v \<in> set vs. renders v) \<or> \<not> withPath \<Longrightarrow> \<exists>js. jsonVerdicts vs withPath = Some js"
  unfolding jsonVerdicts_def by (rule map_panics_all) (use json_verdict_total in blast)

lemma json_policy_total: "\<exists>j. json_policy_of src r = Some j"
  using jsonVerdicts_total [of "cr_Violations r" False] jsonVerdicts_total [of "cr_Unknown r" False]
  by (auto simp: json_policy_of_def)

lemma JSON_total: "\<forall>v \<in> set vs. renders v \<Longrightarrow> \<exists>doc. JSON vs opt = Some doc"
proof -
  assume "\<forall>v \<in> set vs. renders v"
  then obtain rows where "jsonVerdicts (worstFirst vs) (jx_WithPath opt) = Some rows"
    using jsonVerdicts_total [of "worstFirst vs"] by (auto simp: set_worstFirst)
  moreover have "\<exists>p. (case jx_Policy opt of None \<Rightarrow> Some None
      | Some r \<Rightarrow> map_option Some (json_policy_of (jx_PolicySource opt) r)) = Some p"
    using json_policy_total by (auto split: option.split)
  ultimately show ?thesis by (auto simp: JSON_def)
qed

section \<open>Prefix lengths\<close>

lemma prefix_bits_zeros: "prefix_bits bs n True = (if True \<in> set bs then None else Some n)"
  by (induction bs) auto

lemma prefix_bits_ones:
  "prefix_bits bs n False = Some m \<longleftrightarrow> (\<exists>j k. bs = replicate j True @ replicate k False \<and> m = n + j)"
proof (induction bs arbitrary: n)
  case Nil
  then show ?case by auto
next
  case (Cons b bs)
  show ?case
  proof (cases b)
    case True
    have "(\<exists>j k. True # bs = replicate j True @ replicate k False \<and> m = n + j) \<longleftrightarrow>
      (\<exists>j k. bs = replicate j True @ replicate k False \<and> m = Suc n + j)"
    proof
      assume "\<exists>j k. True # bs = replicate j True @ replicate k False \<and> m = n + j"
      then obtain j k where jk: "True # bs = replicate j True @ replicate k False" "m = n + j" by blast
      then obtain i where "j = Suc i" by (cases j; cases k) auto
      with jk show "\<exists>j k. bs = replicate j True @ replicate k False \<and> m = Suc n + j" by auto
    next
      assume "\<exists>j k. bs = replicate j True @ replicate k False \<and> m = Suc n + j"
      then obtain j k where "bs = replicate j True @ replicate k False" "m = Suc n + j" by blast
      then show "\<exists>j k. True # bs = replicate j True @ replicate k False \<and> m = n + j"
        by (intro exI [of _ "Suc j"] exI [of _ k]) simp
    qed
    with True Cons show ?thesis by simp
  next
    case False
    have "True \<notin> set bs \<longleftrightarrow> (\<exists>k. bs = replicate k False)"
    proof
      assume "True \<notin> set bs"
      then have "\<forall>x \<in> set bs. x = False" by auto
      from replicate_length_same [OF this] show "\<exists>k. bs = replicate k False" by metis
    qed auto
    moreover have "(False # bs = replicate j True @ replicate k False \<and> m = n + j) \<longleftrightarrow>
        (\<exists>i. j = 0 \<and> k = Suc i \<and> bs = replicate i False \<and> m = n)" for j k
      by (cases j; cases k) auto
    ultimately show ?thesis using False by (auto simp: prefix_bits_zeros)
  qed
qed

text \<open>Supporting (prefixLen_iff): a mask is shown as a prefix length exactly when its bits, from the first, are that
  many ones and then zeros; a mask of zeros, too, is one, of length 0.\<close>

theorem prefixLen_iff:
  "prefixLen m = Some n \<longleftrightarrow> (\<exists>k. concat (map byte_bits m) = replicate n True @ replicate k False)"
  by (auto simp: prefixLen_def prefix_bits_ones)

section \<open>Subnets\<close>

lemmas render_shapes = render_expr_def render_cmp_def add_part_done_def

lemma byte_bits_word: "byte_bits (ucast w) = map (bit (w :: 32 word)) [7, 6, 5, 4, 3, 2, 1, 0]"
  by (simp add: byte_bits_def bit_ucast_iff)

lemma word_bits: "concat (map byte_bits (word_bytes 4 (w :: 32 word))) = map (\<lambda>i. bit w (31 - i)) [0..<32]"
  by (simp add: word_bytes_def upt_rec byte_bits_def bit_ucast_iff bit_drop_bit_eq)

lemma prefixLen_net_mask: "n \<le> 32 \<Longrightarrow> prefixLen (word_bytes 4 (net_mask n)) = Some n"
proof -
  assume n: "n \<le> 32"
  have "map (\<lambda>i. bit (net_mask n) (31 - i)) [0..<32] = replicate n True @ replicate (32 - n) False"
    by (rule nth_equalityI) (use n in \<open>auto simp: nth_append net_mask_def bit_not_iff bit_mask_iff\<close>)
  then show ?thesis by (auto simp: prefixLen_def prefix_bits_ones word_bits)
qed

lemma collapse_word: "\<forall>c \<in> set w. \<not> is_space c \<Longrightarrow> collapse (w @ s) = w @ collapse s"
proof (induction w)
  case (Cons a w)
  have "collapse (a # t) = a # collapse t" if "a \<noteq> CHR '' ''" for t using that by (cases t) simp_all
  moreover have "a \<noteq> CHR '' ''" using Cons.prems by (auto simp: is_space_def)
  ultimately show ?case using Cons by simp
qed simp

text \<open>A line of words with one blank between them is left as it is.\<close>

lemma collapse_join: "\<forall>w \<in> set ws. w \<noteq> [] \<and> (\<forall>c \<in> set w. \<not> is_space c) \<Longrightarrow> collapse (join '' '' ws) = join '' '' ws"
proof (induction ws rule: induct_list012)
  case (2 x)
  then show ?case using collapse_word [of x "[]"] by simp
next
  case (3 x y xs)
  have blank: "is_space (CHR '' '')" by (simp add: is_space_def)
  obtain a t where y: "y = a # t" using "3.prems" by (cases y) auto
  with "3.prems" blank have "a \<noteq> CHR '' ''" by auto
  obtain u where u: "join '' '' (y # xs) = a # u" using y by (cases xs) simp_all
  have "collapse (CHR '' '' # join '' '' (y # xs)) = CHR '' '' # collapse (join '' '' (y # xs))"
    using \<open>a \<noteq> CHR '' ''\<close> by (simp add: u)
  with 3 show ?case by (simp add: collapse_word)
qed simp

lemma dotted_chars: "\<forall>c \<in> set (join ''.'' (map (\<lambda>b. itoa (unat b)) bs)). \<not> is_space c"
proof (induction bs rule: induct_list012)
  case (2 b)
  then show ?case using itoa_chars by simp
next
  case (3 b b' bs)
  then show ?case using itoa_chars [of _ "unat b"] by (auto simp: is_space_def)
qed simp

text \<open>Supporting (render_subnet): the rule nft compiles from \<open>ip saddr net/n drop\<close> is shown as that text, for every
  prefix length.\<close>

theorem render_subnet:
  assumes "n \<le> 32"
  shows "RenderRule (saddr_masked_rule net n ''drop'' []) =
    Some (''saddr '' @ addr_String (Addr4 net) @ ''/'' @ itoa n @ '' drop'')"
proof -
  have four: "word_bytes 4 w \<noteq> []" for w :: "32 word" by (metis length_word_bytes list.size(3) zero_neq_numeral)
  have "AddrFromSlice (word_bytes 4 net) = Some (Addr4 net)"
    using AddrFromSlice_AsSlice [of "Addr4 net"] by (simp add: plain_addr_def)
  then have "maskedCmp ''saddr'' (hex_encode (word_bytes 4 net)) (hex_encode (word_bytes 4 (net_mask n))) =
      ''saddr '' @ addr_String (Addr4 net) @ ''/'' @ itoa n"
    using assms by (simp add: maskedCmp_def hex_decode_encode prefixLen_net_mask cmpValue_def has_prefix_def)
  moreover have "collapse (join '' '' [''saddr'', addr_String (Addr4 net) @ ''/'' @ itoa n, ''drop'']) =
      join '' '' [''saddr'', addr_String (Addr4 net) @ ''/'' @ itoa n, ''drop'']"
    using dotted_chars [of "word_bytes 4 net"] itoa_chars [of _ n]
    by (intro collapse_join) (auto simp: v4_text_def is_space_def)
  ultimately show ?thesis
    by (simp add: RenderRule_def saddr_masked_rule_def e_shapes render_shapes payloadName_def four)
qed

theorem render_subnet_witness:
  "RenderRule (saddr_masked_rule 0x0a000000 8 ''drop'' []) = Some (''saddr 10.0.0.0/8 drop'')"
  using render_subnet [of 8 "0x0a000000"]
  by (simp add: v4_text_def word_bytes_def upt_rec itoa.simps digit_char_def char_of_eq_iff)

section \<open>What the line does not say\<close>

text \<open>
  \<open>tcp dport p\<close>; \<open>ip saddr net/n\<close> and its negation, which nft compiles to the same triple with the
  other operator; and an iptables-nft \<open>conntrack --ctstate\<close> match, with and without \<open>!\<close>.
\<close>

definition dport_rule :: "u16 \<Rightarrow> string \<Rightarrow> string \<Rightarrow> rule" where
  "dport_rule p k c = \<lparr>r_Handle = 1, r_Exprs = dport_head @ [cmp_e ''eq'' 1 (be_put16 p), verdict_e k c]\<rparr>"

definition subnet_rule :: "string \<Rightarrow> 32 word \<Rightarrow> nat \<Rightarrow> string \<Rightarrow> string \<Rightarrow> rule" where
  "subnet_rule op net n k c =
     \<lparr>r_Handle = 1, r_Exprs = [payload_e ''network'' 12 4 1, bitwise_e 1 (word_bytes 4 (net_mask n)),
        cmp_e op 1 (word_bytes 4 net), verdict_e k c]\<rparr>"

definition state_rule :: "bool \<Rightarrow> string list \<Rightarrow> string \<Rightarrow> string \<Rightarrow> rule" where
  "state_rule negated states k c =
     \<lparr>r_Handle = 1, r_Exprs = [xt_e \<lparr>xt_Kind = ''match'', xt_Name = ''conntrack'', xt_Rev = 3, xt_Decoded = True,
        xt_DNAT = None, xt_Conntrack = Some \<lparr>ci_MatchesState = True, ci_States = states, ci_Invert = negated\<rparr>,
        xt_AddrType = None, xt_Recent = None, xt_Raw = []\<rparr>, verdict_e k c]\<rparr>"


end
