(* ===== verification/Cli.thy ===== *)
theory Cli
  imports Host_Collect Report
begin

text \<open>
  The command line (\<open>cmd/whyopen/main.go\<close>, \<open>probe.go\<close>): what each subcommand reads, decides
  and prints, and the code it exits with. What \<open>flag\<close> makes of the arguments and what files,
  encoders and ssh answer are the fields of an environment, \<open>Inl\<close> or \<open>Some\<close> an error's text; what a
  run does is its output in order, its lines on standard error and its exit code.
\<close>

section \<open>Versions and exit codes\<close>

definition exitOK :: nat where "exitOK = 0"
definition exitViolation :: nat where "exitViolation = 1"
definition exitUnknown :: nat where "exitUnknown = 2"
definition exitError :: nat where "exitError = 3"

definition defaultVersion :: string where "defaultVersion = ''dev''"
definition defaultCommit :: string where "defaultCommit = ''none''"
definition defaultDate :: string where "defaultDate = ''unknown''"

record version_info =
  vi_Version :: string
  vi_Commit :: string
  vi_Date :: string

text \<open>\<open>debug.BuildInfo\<close>: the main module's version and the build settings.\<close>

record build_info =
  bi_Version :: string
  bi_Settings :: "(string \<times> string) list"

definition version_setting :: "string \<times> string \<Rightarrow> version_info \<Rightarrow> version_info" where
  "version_setting s v =
     (if fst s = ''vcs.revision'' then (if vi_Commit v = defaultCommit then v\<lparr>vi_Commit := snd s\<rparr> else v)
      else if fst s = ''vcs.time'' then (if vi_Date v = defaultDate then v\<lparr>vi_Date := snd s\<rparr> else v)
      else v)"

definition resolveVersion :: "version_info \<Rightarrow> build_info option \<Rightarrow> bool \<Rightarrow> version_info" where
  "resolveVersion v info ok =
     (case info of
        None \<Rightarrow> v
      | Some b \<Rightarrow>
          if \<not> ok then v
          else
            fold version_setting (bi_Settings b)
              (if vi_Version v = defaultVersion \<and> bi_Version b \<noteq> [] \<and> bi_Version b \<noteq> ''(devel)''
               then v\<lparr>vi_Version := bi_Version b\<rparr> else v))"

section \<open>The environment\<close>

datatype 'a parsed = Help | BadFlags | Parsed 'a

record check_flags =
  ck_Facts :: string
  ck_Policy :: string
  ck_JSON :: bool
  ck_ProbeFrom :: string
  ck_Explain :: int

record policy_flags =
  pf_Facts :: string
  pf_Out :: string

record probe_flags =
  pb_Target :: string
  pb_Ports :: string
  pb_JSON :: bool

datatype shown =
    OutText string
  | OutFile string string
  | OutFacts facts
  | OutJSON json_doc
  | OutTable "string list list \<times> string list"
  | OutExplain "string list"
  | OutProbe "string \<times> string list list"
  | OutPolicy "string \<times> string list list"
  | OutResults "string list list"
  | OutProbeDocument probe_document

record 'v env =
  en_CheckFlags :: "string list \<Rightarrow> check_flags parsed"
  en_PolicyFlags :: "string list \<Rightarrow> policy_flags parsed"
  en_CollectFlags :: "string list \<Rightarrow> string parsed"
  en_ProbeFlags :: "string list \<Rightarrow> probe_flags parsed"
  en_Linker :: version_info
  en_Build :: "build_info option \<times> bool"
  en_System :: answers
  en_Shuffle :: "endpoint list \<Rightarrow> endpoint list"
  en_ReadFile :: "string \<Rightarrow> string + string"
  en_DecodeFacts :: "string \<Rightarrow> string + facts"
  en_DecodeXt :: xt_unmarshal
  en_OpenPolicy :: "string \<Rightarrow> string + (string + string)"
  en_DecodeYAML :: "string \<Rightarrow> string + 'v document"
  en_Sprint :: "'v \<Rightarrow> string"
  en_SSH :: "string \<Rightarrow> string list \<Rightarrow> string + string"
  en_DecodeProbe :: "string \<Rightarrow> string + probe_document"
  en_Dial :: "string \<Rightarrow> u16 \<Rightarrow> dial_error option"
  en_DialOrder :: "nat list"
  en_Exists :: "string \<Rightarrow> bool"
  en_Create :: "string \<Rightarrow> string option"
  en_Close :: "string \<Rightarrow> string option"
  en_WriteFile :: "string \<Rightarrow> string \<Rightarrow> string option"
  en_EncodeFacts :: "facts \<Rightarrow> string option"
  en_EncodeReport :: "json_doc \<Rightarrow> string option"
  en_EncodeProbe :: "probe_document \<Rightarrow> string option"

record run =
  run_Out :: "shown list"
  run_Err :: "string list"
  run_Code :: nat

definition fails :: "string \<Rightarrow> run" where
  "fails msg = \<lparr>run_Out = [], run_Err = [msg], run_Code = exitError\<rparr>"

definition usage :: string where
  "usage = concat (map (\<lambda>l. l @ newline)
     [''whyopen: what is actually reachable from the internet, and why.'', [],
      ''Usage:'',
      ''  whyopen collect [-o FILE]        snapshot this host into a facts document'',
      ''  whyopen check [-facts FILE] [-explain PORT] [-policy FILE] [-json]'',
      ''                [-probe-from ssh://HOST]'',
      ''                                    report what is reachable, and why'',
      ''  whyopen policy init [-o FILE]    write a policy from what is reachable now'',
      ''  whyopen probe -target IP -ports SPEC'',
      ''                                    connect to a host and report what answers'',
      ''  whyopen version                  print the build version'', [],
      ''whyopen is read-only. It never creates, changes or deletes a rule.''])"

definition helped :: run where
  "helped = \<lparr>run_Out = [OutText usage], run_Err = [], run_Code = exitOK\<rparr>"

definition misused :: run where
  "misused = \<lparr>run_Out = [], run_Err = [], run_Code = exitError\<rparr>"

definition currentVersion :: "'v env \<Rightarrow> version_info" where
  "currentVersion en = resolveVersion (en_Linker en) (fst (en_Build en)) (snd (en_Build en))"

section \<open>Reading\<close>

text \<open>The document, with what standard error says of it; or the error, after which a run exits 3.\<close>

definition loadFacts :: "'v env \<Rightarrow> string \<Rightarrow> string + facts \<times> string list" where
  "loadFacts en path =
     (if path = [] then Inr (All \<lparr>op_ProcRoot = [], op_DockerSocket = []\<rparr> (en_System en), [])
      else
        case en_ReadFile en path of
          Inl err \<Rightarrow> Inl (''read '' @ path @ '': '' @ err)
        | Inr b \<Rightarrow>
            (case en_DecodeFacts en b of
               Inl err \<Rightarrow> Inl (''parse '' @ path @ '': '' @ err)
             | Inr f \<Rightarrow>
                 (case SupportedSchema (f_SchemaVersion f) of
                    Some err \<Rightarrow> Inl (path @ '': '' @ err)
                  | None \<Rightarrow>
                      (case Validate f of
                         Some err \<Rightarrow> Inl (path @ '': '' @ err)
                       | None \<Rightarrow>
                           let (f', n) = Redecode (en_DecodeXt en) f in
                           Inr (f', if n > 0 then [''re-decoded '' @ itoa n @
                             '' expression(s) from the payloads this document carries; this build reads them differently than the build that collected it'']
                             else [])))))"

definition loadPolicy :: "'v env \<Rightarrow> string \<Rightarrow> string + policy" where
  "loadPolicy en path =
     (case en_OpenPolicy en path of
        Inl err \<Rightarrow> Inl err
      | Inr input \<Rightarrow> Load (en_DecodeYAML en) (en_Sprint en) input)"

section \<open>check\<close>

definition onPort :: "verdict list \<Rightarrow> int \<Rightarrow> verdict list" where
  "onPort vs port = filter (\<lambda>v. int (unat (ep_Port (v_Endpoint v))) = port) vs"

text \<open>With the line it prints to standard error.\<close>

definition checkExitCode :: "facts \<Rightarrow> check_result option \<Rightarrow> string list \<times> nat" where
  "checkExitCode f judged =
     (if rs_ReadFailed (f_Ruleset f) then
        ([''the nftables ruleset could not be read, so every verdict above is unknown; re-run as root''], exitError)
      else
        case judged of
          None \<Rightarrow> ([], exitOK)
        | Some r \<Rightarrow>
            if length (cr_Violations r) > 0 then ([], exitViolation)
            else if cr_FailOnUnknown r \<and> (length (cr_Unknown r) > 0 \<or> length (cr_Unreadable r) > 0)
            then ([], exitUnknown)
            else ([], exitOK))"

definition check_options :: "'v env \<Rightarrow> check_flags \<Rightarrow> facts \<Rightarrow> zone \<Rightarrow> warning list \<Rightarrow> disagreement list
    \<Rightarrow> check_result option \<Rightarrow> json_options" where
  "check_options en fl f zone warnings dis judged =
     \<lparr>jx_Version = vi_Version (currentVersion en), jx_Hostname = h_Hostname (f_Host f), jx_Zone = z_Name zone,
      jx_Warnings = warnings, jx_Policy = judged, jx_PolicySource = ck_Policy fl, jx_WithPath = ck_Explain fl \<noteq> 0,
      jx_ProbeSource = ck_ProbeFrom fl, jx_Disagreements = dis\<rparr>"

definition check_text :: "check_flags \<Rightarrow> verdict list \<Rightarrow> warning list \<Rightarrow> disagreement list
    \<Rightarrow> check_result option \<Rightarrow> shown list panics" where
  "check_text fl vs warnings dis judged =
     do { body \<leftarrow> (if ck_Explain fl \<noteq> 0 then map_panics (\<lambda>v. map_option OutExplain (Explain v)) (onPort vs (ck_Explain fl))
                   else Some [OutTable (Table vs warnings)]);
          Some (body @ (if ck_ProbeFrom fl \<noteq> [] then [OutProbe (Probe_block dis (ck_ProbeFrom fl))] else [])
            @ (case judged of None \<Rightarrow> [] | Some r \<Rightarrow> [OutPolicy (Policy_block r (ck_Policy fl))])) }"

text \<open>The output and the exit code, once the verdicts are final; \<open>said\<close> is on standard error already.\<close>

definition check_report :: "'v env \<Rightarrow> check_flags \<Rightarrow> facts \<Rightarrow> zone \<Rightarrow> string list \<Rightarrow> verdict list
    \<Rightarrow> warning list \<Rightarrow> disagreement list \<Rightarrow> check_result option \<Rightarrow> run panics" where
  "check_report en fl f zone said vs warnings dis judged =
     (let (line, code) = checkExitCode f judged in
      if ck_JSON fl then
        do { doc \<leftarrow> JSON (if ck_Explain fl \<noteq> 0 then onPort vs (ck_Explain fl) else vs)
               (check_options en fl f zone warnings dis judged);
             case en_EncodeReport en doc of
               Some err \<Rightarrow> Some (\<lparr>run_Out = [], run_Err = said @ [''write json: '' @ err], run_Code = exitError\<rparr>)
             | None \<Rightarrow> Some \<lparr>run_Out = [OutJSON doc], run_Err = said @ line, run_Code = code\<rparr> }
      else
        do { out \<leftarrow> check_text fl vs warnings dis judged;
             Some \<lparr>run_Out = out, run_Err = said @ line, run_Code = code\<rparr> })"

definition check_verdict_set :: "'v env \<Rightarrow> check_flags \<Rightarrow> facts \<Rightarrow> verdict list
    \<Rightarrow> string + verdict list \<times> disagreement list" where
  "check_verdict_set en fl f vs =
     (if ck_ProbeFrom fl = [] then Inr (vs, [])
      else probeThisHost (en_SSH en) (en_DecodeProbe en) (ck_ProbeFrom fl) f vs)"

definition check_facts :: "'v env \<Rightarrow> check_flags \<Rightarrow> policy option \<Rightarrow> facts \<Rightarrow> string list \<Rightarrow> run panics" where
  "check_facts en fl pol f said =
     do { vs0 \<leftarrow> Evaluate (en_Shuffle en) f InternetZone;
          forwards \<leftarrow> ForwardNotes f;
          case check_verdict_set en fl f vs0 of
            Inl err \<Rightarrow> Some \<lparr>run_Out = [], run_Err = said @ [err], run_Code = exitError\<rparr>
          | Inr (vs, dis) \<Rightarrow>
              check_report en fl f InternetZone said vs (f_Warnings f @ forwards) dis
                (map_option (\<lambda>p. Check p vs forwards) pol) }"

definition check_policy_file :: "'v env \<Rightarrow> string \<Rightarrow> string + policy option" where
  "check_policy_file en path =
     (if path = [] then Inr None
      else
        case loadPolicy en path of
          Inl err \<Rightarrow> Inl (''policy '' @ path @ '': '' @ err)
        | Inr p \<Rightarrow> Inr (Some p))"

definition runCheck :: "'v env \<Rightarrow> string list \<Rightarrow> run panics" where
  "runCheck en args =
     (case en_CheckFlags en args of
        Help \<Rightarrow> Some helped
      | BadFlags \<Rightarrow> Some misused
      | Parsed fl \<Rightarrow>
          (case check_policy_file en (ck_Policy fl) of
             Inl err \<Rightarrow> Some (fails err)
           | Inr pol \<Rightarrow>
               (case loadFacts en (ck_Facts fl) of
                  Inl err \<Rightarrow> Some (fails err)
                | Inr (f, said) \<Rightarrow> check_facts en fl pol f said)))"

section \<open>policy init\<close>

definition policy_write :: "'v env \<Rightarrow> string \<Rightarrow> string \<Rightarrow> string list \<Rightarrow> run" where
  "policy_write en out b said =
     (if out = ''-'' then \<lparr>run_Out = [OutText b], run_Err = said, run_Code = exitOK\<rparr>
      else if en_Exists en out then
        \<lparr>run_Out = [], run_Err = said @ [out @ '' already exists; policy init will not overwrite it''], run_Code = exitError\<rparr>
      else
        case en_WriteFile en out b of
          Some err \<Rightarrow> \<lparr>run_Out = [], run_Err = said @ [''write '' @ out @ '': '' @ err], run_Code = exitError\<rparr>
        | None \<Rightarrow> \<lparr>run_Out = [OutFile out b], run_Err = said, run_Code = exitOK\<rparr>)"

definition runPolicy :: "'v env \<Rightarrow> string list \<Rightarrow> run panics" where
  "runPolicy en args =
     (if length args = 0 \<or> hd args \<noteq> ''init'' then Some (fails ''usage: whyopen policy init [-o FILE] [-facts FILE]'')
      else
        case en_PolicyFlags en (tl args) of
          Help \<Rightarrow> Some helped
        | BadFlags \<Rightarrow> Some misused
        | Parsed fl \<Rightarrow>
            (case loadFacts en (pf_Facts fl) of
               Inl err \<Rightarrow> Some (fails err)
             | Inr (f, said) \<Rightarrow>
                 if rs_ReadFailed (f_Ruleset f) then
                   Some \<lparr>run_Out = [], run_Err = said @ [''the nftables ruleset could not be read, so nothing is known to be reachable and the generated policy would allow nothing; re-run as root''],
                     run_Code = exitError\<rparr>
                 else
                   do { vs \<leftarrow> Evaluate (en_Shuffle en) f InternetZone;
                        forwards \<leftarrow> ForwardNotes f;
                        let (p, unresolved) = Init vs in
                        Some (policy_write en (pf_Out fl) (Marshal p unresolved forwards) said) }))"

section \<open>collect, probe, version\<close>

definition runVersion :: "'v env \<Rightarrow> run" where
  "runVersion en =
     (let v = currentVersion en in
      \<lparr>run_Out = [OutText (''whyopen '' @ vi_Version v @ '' (commit '' @ vi_Commit v @ '', built '' @ vi_Date v @ '')'' @ newline)],
       run_Err = [], run_Code = exitOK\<rparr>)"

definition runCollect :: "'v env \<Rightarrow> string list \<Rightarrow> run" where
  "runCollect en args =
     (case en_CollectFlags en args of
        Help \<Rightarrow> helped
      | BadFlags \<Rightarrow> misused
      | Parsed out \<Rightarrow>
          let f = All \<lparr>op_ProcRoot = [], op_DockerSocket = []\<rparr> (en_System en) in
          case (if out \<noteq> ''-'' then en_Create en out else None) of
            Some err \<Rightarrow> fails (''create '' @ out @ '': '' @ err)
          | None \<Rightarrow>
              (case en_EncodeFacts en f of
                 Some err \<Rightarrow> fails (''encode: '' @ err)
               | None \<Rightarrow>
                   (case (if out \<noteq> ''-'' then en_Close en out else None) of
                      Some err \<Rightarrow> fails (''close '' @ out @ '': '' @ err)
                    | None \<Rightarrow> \<lparr>run_Out = [OutFacts f], run_Err = [], run_Code = exitOK\<rparr>)))"

definition result_row :: "probe_result \<Rightarrow> string list" where
  "result_row r = [itoa (unat (pr_Port r)) @ ''/'' @ pr_Proto r, state_text (pr_State r), pr_Detail r]"

definition runProbe :: "'v env \<Rightarrow> string list \<Rightarrow> run" where
  "runProbe en args =
     (case en_ProbeFlags en args of
        Help \<Rightarrow> helped
      | BadFlags \<Rightarrow> misused
      | Parsed fl \<Rightarrow>
          if pb_Target fl = [] then fails ''probe: -target is required''
          else
            case ParsePorts (pb_Ports fl) of
              Inl err \<Rightarrow> fails (''probe: '' @ err)
            | Inr list \<Rightarrow>
                let results = Run (en_Dial en) (en_DialOrder en) (pb_Target fl) list in
                if pb_JSON fl then
                  let doc = \<lparr>pd_SchemaVersion = DocumentVersion, pd_Target = pb_Target fl, pd_Results = results\<rparr> in
                  case en_EncodeProbe en doc of
                    Some err \<Rightarrow> fails (''probe: '' @ err)
                  | None \<Rightarrow> \<lparr>run_Out = [OutProbeDocument doc], run_Err = [], run_Code = exitOK\<rparr>
                else
                  \<lparr>run_Out = [OutResults ([''PORT'', ''STATE'', ''DETAIL''] # map result_row results)],
                   run_Err = [], run_Code = exitOK\<rparr>)"

section \<open>main\<close>

text \<open>\<open>args\<close> is \<open>os.Args\<close> after the program's name.\<close>

definition main :: "'v env \<Rightarrow> string list \<Rightarrow> run panics" where
  "main en args =
     (case args of
        [] \<Rightarrow> Some (fails usage)
      | sub # rest \<Rightarrow>
          if sub = ''collect'' then Some (runCollect en rest)
          else if sub = ''check'' then runCheck en rest
          else if sub = ''policy'' then runPolicy en rest
          else if sub = ''probe'' then Some (runProbe en rest)
          else if sub = ''version'' then Some (runVersion en)
          else if sub = ''-h'' \<or> sub = ''--help'' \<or> sub = ''help'' then Some helped
          else Some (fails (''unknown subcommand '' @ quote sub @ newline @ newline @ usage)))"

end
