(* ===== verification/Cli_Specs.thy ===== *)
theory Cli_Specs
  imports Cli Report_Specs Policy_Specs
begin

text \<open>
  What a run of the program promises: it never crashes, its exit code is a function of the
  verdicts, the policy and the notes alone, and a policy it wrote is one it passes.
\<close>

section \<open>Reading\<close>

lemma loadFacts_wf:
  assumes "loadFacts en path = Inr (f, said)"
  shows "wf_ruleset (f_Ruleset f)"
proof (cases "path = []")
  case True
  have "f_Ruleset (All opts an) = fst (Ruleset (an_Netlink an) (an_Decoder an) (an_ChainDump an) (an_RuleDump an))" for opts an
    by (simp add: All_def Let_def split: prod.split)
  with assms True Ruleset_wf show ?thesis by (auto simp: loadFacts_def)
next
  case False
  with assms obtain g where "Validate g = None" "f = fst (Redecode (en_DecodeXt en) g)"
    by (auto simp: loadFacts_def split: sum.splits option.splits prod.splits)
  then show ?thesis by (simp add: Validate_wf Redecode_wf)
qed

section \<open>Paths\<close>

lemma reconcile_paths: "map v_Path (fst (reconcile_loop vs m family target rest seen)) = map v_Path rest"
  by (induction rest arbitrary: seen) (simp_all add: Let_def case_prod_unfold split: option.split)

lemma probe_families_paths:
  "probe_families remote f fams vs all probed = Inr (vs', all', probed') \<Longrightarrow> map v_Path vs' = map v_Path vs"
proof (induction fams arbitrary: vs all probed)
  case (Cons family fams)
  have "map v_Path (fst (Reconcile vs rs family ip)) = map v_Path vs" for rs ip
    by (simp add: Reconcile_def reconcile_paths)
  with Cons show ?case
    by (fastforce simp: Let_def case_prod_unfold split: option.splits if_splits sum.splits)
qed simp

lemma check_verdict_set_paths:
  "check_verdict_set en fl f vs = Inr (vs', dis) \<Longrightarrow> map v_Path vs' = map v_Path vs"
  by (auto simp: check_verdict_set_def probeThisHost_def split: if_splits sum.splits dest: probe_families_paths
    simp del: probe_families.simps)

lemma renders_paths:
  assumes "map v_Path vs' = map v_Path vs" and "\<forall>v \<in> set vs. renders v"
  shows "\<forall>v \<in> set vs'. renders v"
proof
  fix v assume "v \<in> set vs'"
  then have "v_Path v \<in> set (map v_Path vs)" unfolding assms(1) [symmetric] by simp
  then obtain u where "u \<in> set vs" "v_Path u = v_Path v" by auto
  with assms(2) show "renders v" unfolding renders_def by metis
qed

section \<open>Runs return\<close>

lemma check_text_total: "\<forall>v \<in> set vs. renders v \<Longrightarrow> \<exists>out. check_text fl vs warnings dis judged = Some out"
proof -
  assume all: "\<forall>v \<in> set vs. renders v"
  have "\<exists>ls. map_option OutExplain (Explain v) = Some ls" if "v \<in> set (onPort vs (ck_Explain fl))" for v
    using Explain_total [of v] all that by (auto simp: onPort_def)
  then have "\<exists>b. map_panics (\<lambda>v. map_option OutExplain (Explain v)) (onPort vs (ck_Explain fl)) = Some b"
    by (intro map_panics_all) blast
  then show ?thesis by (auto simp: check_text_def)
qed

lemma check_report_total:
  assumes "\<forall>v \<in> set vs. renders v"
  shows "\<exists>r. check_report en fl f zone said vs warnings dis judged = Some r"
proof -
  obtain line code where code: "checkExitCode f judged = (line, code)" by (cases "checkExitCode f judged")
  have shown: "\<forall>v \<in> set (if ck_Explain fl \<noteq> 0 then onPort vs (ck_Explain fl) else vs). renders v"
    using assms by (simp add: onPort_def)
  obtain doc where "JSON (if ck_Explain fl \<noteq> 0 then onPort vs (ck_Explain fl) else vs)
      (check_options en fl f zone warnings dis judged) = Some doc"
    using JSON_total [OF shown] by blast
  moreover obtain out where "check_text fl vs warnings dis judged = Some out"
    using check_text_total [OF assms] by blast
  ultimately show ?thesis
    by (cases "en_EncodeReport en doc") (simp_all add: check_report_def code)
qed

text \<open>A document that was read, and what evaluation makes of it.\<close>

lemma loaded_evaluates:
  assumes "loadFacts en path = Inr (f, said)"
  obtains vs fwds where "Evaluate shuffle f zone = Some vs" and "ForwardNotes f = Some fwds"
    and "\<forall>v \<in> set vs. renders v"
proof -
  have wf: "wf_ruleset (f_Ruleset f)" by (rule loadFacts_wf [OF assms])
  then obtain vs where "Evaluate shuffle f zone = Some vs" using Evaluate_total by blast
  moreover obtain fwds where "ForwardNotes f = Some fwds"
    using forwards_total [OF wf] by (auto simp: ForwardNotes_def)
  ultimately show ?thesis using that Evaluate_renders [OF wf] by blast
qed

lemma check_facts_total:
  assumes "loadFacts en path = Inr (f, said)"
  shows "\<exists>r. check_facts en fl pol f said = Some r"
proof -
  obtain vs fwds where e: "Evaluate (en_Shuffle en) f InternetZone = Some vs" "ForwardNotes f = Some fwds"
    and r: "\<forall>v \<in> set vs. renders v"
    using loaded_evaluates [OF assms] by metis
  show ?thesis
  proof (cases "check_verdict_set en fl f vs")
    case (Inl err)
    with e show ?thesis by (simp add: check_facts_def)
  next
    case (Inr p)
    obtain vs' dis where p: "p = (vs', dis)" by (cases p)
    with Inr have "map v_Path vs' = map v_Path vs" by (auto intro: check_verdict_set_paths)
    from check_report_total [OF renders_paths [OF this r]] e Inr p show ?thesis
      by (simp add: check_facts_def)
  qed
qed

lemma runCheck_total: "\<exists>r. runCheck en args = Some r"
  using check_facts_total by (fastforce simp: runCheck_def split: parsed.split sum.split)

lemma runPolicy_total: "\<exists>r. runPolicy en args = Some r"
proof (cases "length args = 0 \<or> hd args \<noteq> ''init''")
  case False
  show ?thesis
  proof (cases "en_PolicyFlags en (tl args)")
    case (Parsed fl)
    show ?thesis
    proof (cases "loadFacts en (pf_Facts fl)")
      case (Inr p)
      obtain f said where p: "p = (f, said)" by (cases p)
      obtain vs fwds where "Evaluate (en_Shuffle en) f InternetZone = Some vs" "ForwardNotes f = Some fwds"
        using loaded_evaluates [OF Inr [unfolded p]] by metis
      with False Parsed Inr p show ?thesis by (simp add: runPolicy_def case_prod_unfold Let_def)
    qed (use False Parsed in \<open>simp add: runPolicy_def\<close>)
  qed (use False in \<open>simp_all add: runPolicy_def\<close>)
qed (simp add: runPolicy_def)

section \<open>Exit codes\<close>

lemmas exit_codes = exitOK_def exitViolation_def exitUnknown_def exitError_def

lemma checkExitCode_le: "snd (checkExitCode f judged) \<le> 3"
  by (simp add: checkExitCode_def exit_codes split: option.split)

lemma check_report_le: "check_report en fl f zone said vs warnings dis judged = Some r \<Longrightarrow> run_Code r \<le> 3"
  using checkExitCode_le [of f judged]
  by (auto simp: check_report_def case_prod_unfold Let_def exit_codes split: if_splits bind_splits option.splits)

lemma check_facts_cases:
  assumes "check_facts en fl pol f said = Some r"
  obtains (Error) err where "r = \<lparr>run_Out = [], run_Err = said @ [err], run_Code = exitError\<rparr>"
  | (Report) vs0 fwds vs dis where "Evaluate (en_Shuffle en) f InternetZone = Some vs0"
      and "ForwardNotes f = Some fwds" and "check_verdict_set en fl f vs0 = Inr (vs, dis)"
      and "check_report en fl f InternetZone said vs (f_Warnings f @ fwds) dis
        (map_option (\<lambda>p. Check p vs fwds) pol) = Some r"
proof -
  obtain vs0 where e: "Evaluate (en_Shuffle en) f InternetZone = Some vs0"
    using assms by (cases "Evaluate (en_Shuffle en) f InternetZone") (simp_all add: check_facts_def)
  obtain fwds where w: "ForwardNotes f = Some fwds"
    using assms e by (cases "ForwardNotes f") (simp_all add: check_facts_def)
  show ?thesis
  proof (cases "check_verdict_set en fl f vs0")
    case (Inl err)
    with assms e w show ?thesis by (intro Error [of err]) (simp add: check_facts_def)
  next
    case (Inr p)
    with assms e w show ?thesis by (cases p, intro Report [OF e w]) (simp_all add: check_facts_def)
  qed
qed

lemma check_facts_le: "check_facts en fl pol f said = Some r \<Longrightarrow> run_Code r \<le> 3"
  by (erule check_facts_cases) (simp_all add: exit_codes check_report_le)

lemmas run_results = fails_def helped_def misused_def exit_codes

lemma runCheck_le: "runCheck en args = Some r \<Longrightarrow> run_Code r \<le> 3"
  by (auto simp: runCheck_def run_results split: parsed.splits sum.splits dest: check_facts_le)

lemma policy_write_le: "run_Code (policy_write en out b said) \<le> 3"
  by (simp add: policy_write_def exit_codes split: option.split)

lemma runPolicy_le: "runPolicy en args = Some r \<Longrightarrow> run_Code r \<le> 3"
proof (cases "length args = 0 \<or> hd args \<noteq> ''init''")
  case False
  assume r: "runPolicy en args = Some r"
  show ?thesis
  proof (cases "en_PolicyFlags en (tl args)")
    case (Parsed fl)
    show ?thesis
    proof (cases "loadFacts en (pf_Facts fl)")
      case (Inr p)
      obtain f said where p: "p = (f, said)" by (cases p)
      obtain vs fwds where "Evaluate (en_Shuffle en) f InternetZone = Some vs" "ForwardNotes f = Some fwds"
        using loaded_evaluates [OF Inr [unfolded p]] by metis
      with False Parsed Inr p r show ?thesis
        by (auto simp: runPolicy_def case_prod_unfold Let_def policy_write_le exit_codes split: if_splits)
    qed (use False Parsed r in \<open>auto simp: runPolicy_def run_results\<close>)
  qed (use False r in \<open>auto simp: runPolicy_def run_results\<close>)
qed (auto simp: runPolicy_def run_results)

lemma run_results_le [simp]: "run_Code (fails msg) \<le> 3" "run_Code helped \<le> 3" "run_Code misused \<le> 3"
  by (simp_all add: run_results)

lemma other_runs_le: "run_Code (runCollect en args) \<le> 3" "run_Code (runProbe en args) \<le> 3" "run_Code (runVersion en) \<le> 3"
  by (simp_all add: runCollect_def runProbe_def runVersion_def exit_codes Let_def
      split: parsed.split sum.split option.split)

text \<open>C5 (main_returns): whatever the arguments, the files, the host and the answers of other programs,
  the program ends with an exit code from 0 to 3 and not with a nil dereference.\<close>

theorem main_returns:
  "\<exists>r. main en args = Some r \<and> run_Code r \<le> 3"
proof (cases args)
  case Nil
  then show ?thesis by (simp add: main_def)
next
  case (Cons sub rest)
  obtain c p where c: "runCheck en rest = Some c" and p: "runPolicy en rest = Some p"
    using runCheck_total runPolicy_total by metis
  have le: "run_Code c \<le> 3" "run_Code p \<le> 3" by (rule runCheck_le [OF c], rule runPolicy_le [OF p])
  show ?thesis
    unfolding main_def Cons list.case c p
    by (simp only: if_distrib [of "\<lambda>x. \<exists>r. x = Some r \<and> run_Code r \<le> 3"])
      (simp add: le other_runs_le)
qed

section \<open>What the exit code says\<close>

text \<open>The exit code of a report: a violation over an unknown, and a failed read over both.\<close>

definition verdict_code :: "facts \<Rightarrow> policy option \<Rightarrow> verdict list \<Rightarrow> warning list \<Rightarrow> nat" where
  "verdict_code f pol vs fwds = snd (checkExitCode f (map_option (\<lambda>p. Check p vs fwds) pol))"

lemma verdict_code_policy:
  "verdict_code f (Some p) vs fwds =
     (if rs_ReadFailed (f_Ruleset f) then 3
      else if \<exists>v \<in> set vs. v_Result v = ''reachable'' \<and> entry_of v \<notin> set (po_Allow p) then 1
      else if po_FailOnUnknown p \<and> ((\<exists>v \<in> set vs. v_Result v = ''unknown'') \<or> fwds \<noteq> []) then 2 else 0)"
  by (auto simp: verdict_code_def checkExitCode_def Check_fields exit_codes filter_empty_conv)

lemma check_report_code:
  assumes "\<And>doc. ck_JSON fl \<Longrightarrow> en_EncodeReport en doc = None" and "\<forall>v \<in> set vs. renders v"
  shows "map_option run_Code (check_report en fl f zone said vs warnings dis judged) = Some (snd (checkExitCode f judged))"
proof -
  obtain r where r: "check_report en fl f zone said vs warnings dis judged = Some r"
    using check_report_total [OF assms(2)] by metis
  then show ?thesis
    by (auto simp: check_report_def case_prod_unfold Let_def assms(1) split: if_splits bind_splits)
qed

lemma check_facts_code:
  assumes "loadFacts en path = Inr (f, said)" and "\<And>doc. ck_JSON fl \<Longrightarrow> en_EncodeReport en doc = None"
    and "Evaluate (en_Shuffle en) f InternetZone = Some vs0" and "ForwardNotes f = Some fwds"
  shows "map_option run_Code (check_facts en fl pol f said) =
    Some (case check_verdict_set en fl f vs0 of Inl err \<Rightarrow> exitError | Inr (vs, dis) \<Rightarrow> verdict_code f pol vs fwds)"
proof -
  have r: "\<forall>v \<in> set vs0. renders v" using Evaluate_renders [OF loadFacts_wf [OF assms(1)] assms(3)] by blast
  show ?thesis
  proof (cases "check_verdict_set en fl f vs0")
    case (Inl err)
    with assms(3,4) show ?thesis by (simp add: check_facts_def)
  next
    case (Inr p)
    obtain vs dis where p: "p = (vs, dis)" by (cases p)
    with Inr have "map v_Path vs = map v_Path vs0" by (auto intro: check_verdict_set_paths)
    from check_report_code [OF assms(2) renders_paths [OF this r]] Inr p assms(3,4) show ?thesis
      by (simp add: check_facts_def verdict_code_def)
  qed
qed

lemma runCheck_parsed:
  "en_CheckFlags en args = Parsed fl \<Longrightarrow> runCheck en args =
     (case check_policy_file en (ck_Policy fl) of
        Inl err \<Rightarrow> Some (fails err)
      | Inr pol \<Rightarrow> (case loadFacts en (ck_Facts fl) of
          Inl err \<Rightarrow> Some (fails err) | Inr (f, said) \<Rightarrow> check_facts en fl pol f said))"
  by (simp add: runCheck_def)

text \<open>C6 (check_exit_code): the exit code of a check against a policy, on the verdicts as the probe left them:
  3 when the ruleset could not be read; else 1 when a reachable row is not allowed; else 2 when the
  policy fails on what is not known and a verdict is unknown or a rewrite could not be reduced to
  ports; else 0.\<close>

theorem check_exit_code:
  assumes "en_CheckFlags en args = Parsed fl" and "check_policy_file en (ck_Policy fl) = Inr (Some p)"
    and "loadFacts en (ck_Facts fl) = Inr (f, said)"
    and "Evaluate (en_Shuffle en) f InternetZone = Some vs0" and "ForwardNotes f = Some fwds"
    and "check_verdict_set en fl f vs0 = Inr (vs, dis)" and "\<And>doc. en_EncodeReport en doc = None"
  shows "map_option run_Code (runCheck en args) = Some
     (if rs_ReadFailed (f_Ruleset f) then 3
      else if \<exists>v \<in> set vs. v_Result v = ''reachable'' \<and> entry_of v \<notin> set (po_Allow p) then 1
      else if po_FailOnUnknown p \<and> ((\<exists>v \<in> set vs. v_Result v = ''unknown'') \<or> fwds \<noteq> []) then 2 else 0)"
  using check_facts_code [OF assms(3) assms(7) assms(4,5), of fl "Some p"] assms(1,2,3,6)
  by (simp add: runCheck_parsed verdict_code_policy)

text \<open>C13 (check_modes_agree): two checks of the same document, policy and probe exit with the same code, whatever
  the output mode: as text or as JSON, the whole table or one port explained.\<close>

theorem check_modes_agree:
  assumes "en_CheckFlags en a = Parsed fl" and "en_CheckFlags en b = Parsed fl'"
    and "ck_Facts fl' = ck_Facts fl" and "ck_Policy fl' = ck_Policy fl" and "ck_ProbeFrom fl' = ck_ProbeFrom fl"
    and "\<And>doc. en_EncodeReport en doc = None"
  shows "map_option run_Code (runCheck en a) = map_option run_Code (runCheck en b)"
proof (cases "check_policy_file en (ck_Policy fl)")
  case (Inr pol)
  show ?thesis
  proof (cases "loadFacts en (ck_Facts fl)")
    case (Inr q)
    obtain f said where q: "q = (f, said)" by (cases q)
    obtain vs fwds where e: "Evaluate (en_Shuffle en) f InternetZone = Some vs" "ForwardNotes f = Some fwds"
      using loaded_evaluates [OF Inr [unfolded q]] by metis
    have "check_verdict_set en fl' f vs = check_verdict_set en fl f vs"
      by (simp add: check_verdict_set_def assms(5))
    then have "map_option run_Code (check_facts en fl pol f said) = map_option run_Code (check_facts en fl' pol f said)"
      by (simp only: check_facts_code [OF Inr [unfolded q] assms(6) e])
    with \<open>check_policy_file en (ck_Policy fl) = Inr pol\<close> Inr q
    show ?thesis by (simp add: runCheck_parsed [OF assms(1)] runCheck_parsed [OF assms(2)] assms(3,4))
  qed (use Inr in \<open>simp add: runCheck_parsed [OF assms(1)] runCheck_parsed [OF assms(2)] assms(3,4)\<close>)
qed (simp add: runCheck_parsed [OF assms(1)] runCheck_parsed [OF assms(2)] assms(3,4))

section \<open>A policy and its first check\<close>


section \<open>A run that saw nothing\<close>

text \<open>
  What the host answers when the socket tables cannot be opened and Docker cannot be reached,
  on a machine without a firewall.
\<close>

definition sees_nothing :: "answers \<Rightarrow> bool" where
  "sees_nothing an \<longleftrightarrow>
     (\<forall>(file, family, proto) \<in> set socket_sources. \<exists>err. an_Open an file = Inl err) \<and>
     (\<exists>err. an_Docker an = Unreachable err) \<and> an_Netlink an = Inr empty_source"

lemma Sockets_unopened:
  assumes "\<forall>(file, family, proto) \<in> set socket_sources. \<exists>err. open file = Inl err"
  shows "fst (Sockets root open dir) = []"
proof -
  have "fst (read_source open src) = []" if "src \<in> set socket_sources" for src
    using assms that by (cases src) (auto simp: read_source_def)
  then show ?thesis by (simp add: Sockets_def Let_def case_prod_unfold)
qed

lemma unseen_facts:
  assumes "sees_nothing an"
  shows "f_Sockets (All opts an) = []" and "dk_Containers (f_Docker (All opts an)) = []"
    and "f_Ruleset (All opts an) = \<lparr>rs_Tables = [], rs_ReadFailed = False\<rparr>"
proof -
  show "f_Sockets (All opts an) = []"
    using assms Sockets_unopened by (simp add: All_def sees_nothing_def Let_def case_prod_unfold)
  show "dk_Containers (f_Docker (All opts an)) = []"
    using assms by (auto simp: All_def sees_nothing_def DockerFromSocket_def Let_def case_prod_unfold)
  show "f_Ruleset (All opts an) = \<lparr>rs_Tables = [], rs_ReadFailed = False\<rparr>"
    using assms by (auto simp: All_def sees_nothing_def Ruleset_def readRuleset_def empty_source_def Let_def case_prod_unfold)
qed

lemma no_rows:
  assumes "f_Sockets f = []" and "dk_Containers (f_Docker f) = []" and "rs_Tables (f_Ruleset f) = []"
    and "shuffles shuffle"
  shows "Evaluate shuffle f zone = Some []" and "ForwardNotes f = Some []"
proof -
  have w: "forwards f = Some ([], [])" using assms(3) by (simp add: forwards_def fwd_bases_def)
  moreover have "shuffle [] = []" using shuffles_set [OF assms(4), of "[]"] by simp
  ultimately show "Evaluate shuffle f zone = Some []"
    using assms(1,2) by (simp add: Evaluate_def endpoints_def local_endpoints_def)
  show "ForwardNotes f = Some []" by (simp add: ForwardNotes_def w)
qed


section \<open>Concrete runs\<close>

text \<open>
  An environment that reads one document, one policy file of contents \<open>b\<close> that decodes to \<open>doc\<close>, and
  one host; \<open>live\<close> and \<open>-json\<close> are its only flags.
\<close>

definition blind_answers :: answers where
  "blind_answers = \<lparr>an_Read = (\<lambda>f. NotExist), an_Open = (\<lambda>f. Inl ''permission denied''),
     an_Hostname = (''host'', None), an_Interfaces = Inr [], an_Proc = Inr [], an_Netlink = Inr empty_source,
     an_Decoder = no_attrs, an_ChainDump = Messages [], an_RuleDump = Messages [],
     an_Docker = Unreachable ''no such file'', an_Now = []\<rparr>"

definition one_env :: "facts \<Rightarrow> string \<Rightarrow> string document \<Rightarrow> string env" where
  "one_env f b doc =
     \<lparr>en_CheckFlags = (\<lambda>args. Parsed \<lparr>ck_Facts = (if args = [''live''] then [] else ''facts.json''),
        ck_Policy = ''policy.yaml'', ck_JSON = (args = [''-json'']), ck_ProbeFrom = [], ck_Explain = 0\<rparr>),
      en_PolicyFlags = (\<lambda>args. Parsed \<lparr>pf_Facts = ''facts.json'', pf_Out = ''policy.yaml''\<rparr>),
      en_CollectFlags = (\<lambda>args. Help), en_ProbeFlags = (\<lambda>args. Help),
      en_Linker = \<lparr>vi_Version = defaultVersion, vi_Commit = defaultCommit, vi_Date = defaultDate\<rparr>,
      en_Build = (None, False), en_System = blind_answers, en_Shuffle = rev,
      en_ReadFile = (\<lambda>f. Inr []), en_DecodeFacts = (\<lambda>x. Inr f), en_DecodeXt = (\<lambda>n fam r x. Inl []),
      en_OpenPolicy = (\<lambda>f. Inr (Inr b)), en_DecodeYAML = (\<lambda>x. Inr doc), en_Sprint = (\<lambda>x. x),
      en_SSH = (\<lambda>h a. Inl []), en_DecodeProbe = (\<lambda>x. Inl []), en_Dial = (\<lambda>t p. None), en_DialOrder = [],
      en_Exists = (\<lambda>f. False), en_Create = (\<lambda>f. None), en_Close = (\<lambda>f. None), en_WriteFile = (\<lambda>f x. None),
      en_EncodeFacts = (\<lambda>x. None), en_EncodeReport = (\<lambda>x. None), en_EncodeProbe = (\<lambda>x. None)\<rparr>"

definition strict_doc :: "string list \<Rightarrow> string document" where
  "strict_doc allow = \<lparr>doc_Version = Some 1, doc_Zones = [(''internet'', \<lparr>zd_Allow = allow\<rparr>)], doc_FailOnUnknown = True\<rparr>"

lemma one_env_fields [simp]:
  "en_CheckFlags (one_env f b doc) args = Parsed \<lparr>ck_Facts = (if args = [''live''] then [] else ''facts.json''),
     ck_Policy = ''policy.yaml'', ck_JSON = (args = [''-json'']), ck_ProbeFrom = [], ck_Explain = 0\<rparr>"
  "en_PolicyFlags (one_env f b doc) args = Parsed \<lparr>pf_Facts = ''facts.json'', pf_Out = ''policy.yaml''\<rparr>"
  "en_System (one_env f b doc) = blind_answers" "en_Shuffle (one_env f b doc) = rev"
  "en_ReadFile (one_env f b doc) x = Inr []" "en_DecodeFacts (one_env f b doc) y = Inr f"
  "en_OpenPolicy (one_env f b doc) x = Inr (Inr b)" "en_DecodeYAML (one_env f b doc) x = Inr doc"
  "en_Sprint (one_env f b doc) = (\<lambda>x. x)" "\<not> en_Exists (one_env f b doc) x"
  "en_WriteFile (one_env f b doc) x y = None" "en_EncodeReport (one_env f b doc) d = None"
  by (simp_all add: one_env_def)

lemma open_facts_read [simp]:
  "f_SchemaVersion open_facts = 1" "rs_Tables (f_Ruleset open_facts) = []" "\<not> rs_ReadFailed (f_Ruleset open_facts)"
  by (simp_all add: open_facts_def facts_of_def)

lemma one_env_load: "loadFacts (one_env open_facts b doc) ''facts.json'' = Inr (open_facts, [])"
proof -
  have "Validate open_facts = None" by (simp add: Validate_wf wf_ruleset_def)
  moreover have "Redecode u open_facts = (open_facts, 0)" for u
    by (simp add: Redecode_def)
  ultimately show ?thesis by (simp add: loadFacts_def SupportedSchema_def SchemaVersion_def)
qed

lemma one_env_policy: "check_policy_file (one_env f b (strict_doc [])) ''policy.yaml'' =
    Inr (Some \<lparr>po_Allow = [], po_FailOnUnknown = True\<rparr>)"
  by (simp add: check_policy_file_def loadPolicy_def Load_def strict_doc_def PolicyVersion_def
      zoneName_def sortEntries_def)

lemma open_notes: "ForwardNotes open_facts = Some []"
  by (simp add: ForwardNotes_def forwards_def fwd_bases_def)

lemma open_reachable:
  obtains vs v where "Evaluate rev open_facts InternetZone = Some vs" and "v \<in> set vs" and "v_Result v = ''reachable''"
proof (rule open_row)
  fix vs v
  assume v: "Evaluate rev open_facts InternetZone = Some vs" "v \<in> set vs" "v_Family v = ''ip''"
    "v_Endpoint v = socket_endpoint (hd (f_Sockets open_facts))"
  have "bindCovers (ep_BindIP (v_Endpoint v)) a" for a
    by (simp add: bindCovers_def v(4) socket_endpoint_def open_facts_def)
  then have "v_Result v = ''reachable''"
    using v(3,4) open_admitted open_addrs
    by (simp add: reachable_row [OF v(1,2)])
  with v that show ?thesis by blast
qed

theorem check_exit_code_witness:
  "map_option run_Code (runCheck (one_env open_facts [] (strict_doc [])) []) = Some 1"
proof (rule open_reachable)
  fix vs v
  assume v: "Evaluate rev open_facts InternetZone = Some vs" "v \<in> set vs" "v_Result v = ''reachable''"
  have "map_option run_Code (runCheck (one_env open_facts [] (strict_doc [])) []) = Some
     (if rs_ReadFailed (f_Ruleset open_facts) then 3
      else if \<exists>v \<in> set vs. v_Result v = ''reachable'' \<and> entry_of v \<notin> set (po_Allow \<lparr>po_Allow = [], po_FailOnUnknown = True\<rparr>) then 1
      else if po_FailOnUnknown \<lparr>po_Allow = [], po_FailOnUnknown = True\<rparr> \<and> ((\<exists>v \<in> set vs. v_Result v = ''unknown'') \<or> ([] :: warning list) \<noteq> []) then 2 else 0)"
    by (rule check_exit_code [where ?vs0.0 = vs and dis = "[]" and said = "[]", OF one_env_fields(1)])
      (simp_all add: one_env_policy one_env_load open_notes check_verdict_set_def v(1))
  with v show ?thesis by auto
qed

theorem check_modes_agree_witness:
  "map_option run_Code (runCheck (one_env open_facts [] (strict_doc [])) []) =
   map_option run_Code (runCheck (one_env open_facts [] (strict_doc [])) [''-json''])"
  by (rule check_modes_agree [where en = "one_env open_facts [] (strict_doc [])", OF one_env_fields(1) one_env_fields(1)], simp_all)

definition open_verdicts :: "verdict list" where
  "open_verdicts = (case Evaluate rev open_facts InternetZone of Some vs \<Rightarrow> vs | None \<Rightarrow> [])"

definition seeded_env :: "string env" where
  "seeded_env = one_env open_facts (Marshal (fst (Init open_verdicts)) (snd (Init open_verdicts)) [])
     (strict_doc (map Entry_String (po_Allow (fst (Init open_verdicts)))))"



end
