(* ===== verification/Spec2Isabelle.thy ===== *)
theory Spec2Isabelle
  imports Match_Specs Traverse_Specs Nat_Specs Forwards_Specs Evaluate_Order Evaluate_Routes Evaluate_Verdicts
    Policy_Specs Probe_Specs Probe_Run_Specs Nftconv_Specs Host_Specs Path_Specs Report_Specs Cli_Specs
begin

text \<open>
  whyopen answers one question about a Linux host: which of its ports can a packet from
  the internet reach, and why. It collects a facts document (addresses, routes, listening
  sockets, Docker publishes, the nftables ruleset), evaluates a synthetic packet for every
  port against it, optionally asks another machine to try the ports, judges the rows by a
  policy, and reports. This development models all of these stages, from the bytes of
  \<open>/proc\<close> and the nftables library to the exit code, and proves what each stage hands to the
  next and what the verdicts mean.

  The theories, in the order a run goes through the code:

  \<^item> \<open>Facts\<close>: the document (\<open>internal/facts/facts.go\<close>), one record per struct, and
    \<open>Validate\<close> (\<open>internal/facts/validate.go\<close>), which rejects a document whose
    expressions lack the object their kind announces.
  \<^item> \<open>Nftconv\<close>: the conversion of the library's expressions and extensions, and \<open>Redecode\<close>
    (\<open>internal/collect/nftconv.go\<close>); \<open>Ruleset_Read\<close>: the read of the ruleset with its error
    branches, the two netlink dumps and the legacy check (\<open>ruleset.go\<close>, \<open>rulepayload.go\<close>,
    \<open>chaindev.go\<close>). \<open>Collect_Specs\<close> shows what is collected is valid and whole, and that a
    verdict other than unknown rests on a whole ruleset (locale \<open>decoding_pass\<close> for the levels
    of \<open>Redecode\<close>); \<open>Nftconv_Specs\<close> what the decoders mean.
  \<^item> \<open>Host_Read\<close>, \<open>Host_Collect\<close>: sockets, routes, addresses, sysctls, Docker and \<open>All\<close>
    (\<open>sockets.go\<close>, \<open>routes.go\<close>, \<open>host.go\<close>, \<open>docker.go\<close>, \<open>collect.go\<close>). \<open>Host_Specs\<close> shows that they
    recover the kernel's tables from the kernel's notation.
  \<^item> \<open>Packet\<close>, \<open>Match_Loads\<close>, \<open>Match_Sets\<close>, \<open>Match_Xt\<close>, \<open>Match\<close>: the rule matcher
    (\<open>internal/model/packet.go\<close>, \<open>match.go\<close>). \<open>MatchRule\<close> is a loop over a rule's
    expressions with a register file; one function per case of its \<open>switch\<close>.
    \<open>Match_Specs\<close> states what compiled nft rules mean, \<open>Nat_Specs\<close> what rewrites do.
  \<^item> \<open>Traverse\<close>: the hook traversal (\<open>internal/model/traverse.go\<close>), generic in the
    matcher. \<open>Walk\<close> holds the contract of a matcher (locale \<open>rule_matcher\<close>, interpreted
    on \<open>MatchRule\<close>) and what follows from it; \<open>Kernel\<close> gives the kernel's jump-stack
    semantics as a step relation and the simulation (locale \<open>verdict_matcher\<close>);
    \<open>Traverse_Specs\<close> the properties of the traversal.
  \<^item> \<open>Forwards\<close>: the scan for destination rewrites (\<open>internal/model/forwards.go\<close>), and
    \<open>Forwards_Specs\<close> what it reports.
  \<^item> \<open>Evaluate\<close>: endpoints and verdicts (\<open>internal/model/evaluate.go\<close>). \<open>Evaluate_Specs\<close>
    shows its totality and its rows, \<open>Evaluate_Order\<close> that they do not depend on the order of
    Go's maps, \<open>Evaluate_Routes\<close> the choice of the reply device, \<open>Evaluate_Verdicts\<close> when a row
    is reachable or filtered, down to the kernel's semantics, \<open>Path_Specs\<close> where the steps of
    its path come from.
  \<^item> \<open>Probe\<close> and \<open>Probe_Specs\<close>: port lists, the run of a probe, the reconciliation of its
    answers with the rows, the remote command (\<open>internal/probe\<close>, \<open>cmd/whyopen/probe.go\<close>).
    \<open>Probe_Run\<close> gives the goroutines of the run as a step relation; \<open>Probe_Run_Specs\<close> shows that it
    keeps to its limit, ends, does not deadlock and computes what the function does (locale
    \<open>bounded_system\<close>).
  \<^item> \<open>Policy\<close> and \<open>Policy_Specs\<close>: loading, seeding, writing and checking a policy
    (\<open>internal/policy\<close>).
  \<^item> \<open>Render\<close>, \<open>Report\<close> and \<open>Report_Specs\<close>: the line of a rule, the table, the explanation, the
    blocks and the JSON document (\<open>internal/report\<close>).
  \<^item> \<open>Cli\<close> and \<open>Cli_Specs\<close>: the subcommands (\<open>cmd/whyopen/main.go\<close>), that the program always
    ends with an exit code, and what the code says.

  \<open>Prelude\<close> holds the machine integers, the reading of a Go panic and the two list idioms
  of the source (a stable sort with a \<open>less\<close> function, a loop that keeps the first of each
  key); \<open>Go_Lib\<close> and \<open>Netip\<close> what the source uses of \<open>strconv\<close>, \<open>encoding/hex\<close>,
  \<open>encoding/binary\<close>, \<open>strings\<close> and \<open>net/netip\<close>.

  Conventions. A string is a list of characters standing for Go's bytes. A pointer is an
  option, and a function that may dereference a nil pointer returns \<open>'a panics\<close>, where
  \<open>None\<close> is the run-time panic; a second result \<open>ok\<close> of the source is an inner option; a
  result or an error is a sum, \<open>Inl\<close> the error's text. Registers and ports keep their width.
  The order in which Go ranges over its map of endpoints is the parameter \<open>shuffle\<close> of
  \<open>endpoints\<close>, assumed to be a permutation where that matters. The netlink library, the
  decoders of YAML, JSON and extension payloads, ssh, dialling and the file system are
  parameters: the fields of \<open>source\<close>, \<open>attr_decoder\<close>, \<open>answers\<close> and \<open>env\<close>.

  Bounds. The chain walk and the forward scan recurse to the source's own bound of 32
  nested chains (\<open>maxJumpDepth\<close>), on which their termination proofs rest; no other fuel is
  used.

  Not modelled: the bytes of the JSON documents and the padding of tables, the parsing of
  flags by the \<open>flag\<close> package, the request messages sent over netlink, the time-outs of a
  probe, and text that is not ASCII where Go folds case or trims
  Unicode space. They are I/O or the library's own.
\<close>

end
